(* ===== verification/Prelude.thy ===== *)
theory Prelude
  imports Complex_Main "HOL-Library.Word" "HOL-Library.AList" "HOL-Library.List_Lexorder"
    "HOL-Library.Sublist"
begin

text \<open>
  What every component theory shares: the Python values the node handles (byte strings, text as
  code points, dictionaries in insertion order, exceptions), the loop that stops at the first
  exception, and the fact collections the component proofs use.

  \<^item> \<open>bytes\<close> is a list of 8-bit words; \<open>pystr\<close> is a list of code points, as Python's \<open>str\<close> is.
    \<open>blit\<close> and \<open>lit\<close> write the two kinds of literal.
  \<^item> A Python \<open>dict\<close> is an association list: \<open>AList.update\<close> replaces the value at the key's old
    position or appends, \<open>AList.delete\<close> removes, which is Python's insertion order.
  \<^item> Times are \<open>real\<close>: float rounding of clock readings is not modelled.
\<close>

named_theorems py_eval \<open>equations that evaluate the model on a concrete input\<close>
named_theorems sends \<open>what a send or a loop of sends emits and raises\<close>

section \<open>Python values\<close>

type_synonym byte = "8 word"
type_synonym bytes = "byte list"
type_synonym pystr = "nat list"
type_synonym ('k, 'v) dict = "('k \<times> 'v) list"

text \<open>The exceptions the code raises or catches. \<open>UnicodeError\<close> is a subclass of
  \<open>ValueError\<close> in Python; \<open>is_value_error\<close> is what \<open>except ValueError\<close> catches.\<close>

datatype exn = ValueError | UnicodeError | KeyError | TypeError | IndexError | OverflowError
  | StructError | OSError | RuntimeError | AttributeError | ImportError

fun is_value_error :: "exn \<Rightarrow> bool" where
  "is_value_error ValueError = True"
| "is_value_error UnicodeError = True"
| "is_value_error _ = False"

definition lit :: "string \<Rightarrow> pystr" where
  "lit s = map of_char s"

definition blit :: "string \<Rightarrow> bytes" where
  "blit s = map of_char s"

lemma lit_eq_iff [simp]: "lit s = lit t \<longleftrightarrow> s = t"
  by (auto simp: lit_def inj_of_char)

lemma length_lit [simp]: "length (lit s) = length s" "length (blit s) = length s"
  by (simp_all add: lit_def blit_def)

lemma lit_Nil_iff [simp]: "lit s = [] \<longleftrightarrow> s = []" "blit s = [] \<longleftrightarrow> s = []"
  by (simp_all add: lit_def blit_def)

definition starts_with :: "'a list \<Rightarrow> 'a list \<Rightarrow> bool" where
  "starts_with s p = (take (length p) s = p)"

lemma starts_with_append [simp]: "starts_with (p @ s) p"
  by (simp add: starts_with_def)

lemma starts_with_iff_prefix: "starts_with s p \<longleftrightarrow> prefix p s"
  by (auto simp: starts_with_def prefix_def) (metis append_take_drop_id)

lemma starts_with_drop: "starts_with s p \<Longrightarrow> p @ drop (length p) s = s"
  by (metis append_take_drop_id starts_with_def)

text \<open>Two incomparable literals are never both a prefix of the same text.\<close>

lemma starts_with_exclusive:
  "starts_with s p \<Longrightarrow> length q = length p \<Longrightarrow> p \<noteq> q \<Longrightarrow> \<not> starts_with s q"
  by (auto simp: starts_with_def)

text \<open>\<open>int(x)\<close> of a finite float truncates towards zero.\<close>

definition py_trunc :: "real \<Rightarrow> int" where
  "py_trunc x = (if 0 \<le> x then \<lfloor>x\<rfloor> else \<lceil>x\<rceil>)"

lemma py_trunc_nonneg: "0 \<le> x \<Longrightarrow> 0 \<le> py_trunc x"
  by (simp add: py_trunc_def)

lemma py_trunc_le: "0 \<le> x \<Longrightarrow> real_of_int (py_trunc x) \<le> x"
  by (simp add: py_trunc_def)

section \<open>Loops that stop at the first exception\<close>

text \<open>
  A Python \<open>for\<close> over a list whose body emits effects and may raise: the effects of the bodies
  run so far stay, and the exception ends the loop.
\<close>

fun for_each :: "('x \<Rightarrow> 'o list \<times> exn option) \<Rightarrow> 'x list \<Rightarrow> 'o list \<times> exn option" where
  "for_each f [] = ([], None)"
| "for_each f (x # xs) =
     (case f x of
        (out, Some e) \<Rightarrow> (out, Some e)
      | (out, None) \<Rightarrow> (case for_each f xs of (out', r) \<Rightarrow> (out @ out', r)))"

lemma for_each_total [sends]:
  "(\<And>x. x \<in> set xs \<Longrightarrow> snd (f x) = None) \<Longrightarrow>
   for_each f xs = (concat (map (\<lambda>x. fst (f x)) xs), None)"
proof (induction xs)
  case Nil
  then show ?case by simp
next
  case (Cons x xs)
  obtain out where "f x = (out, None)" using Cons.prems [of x] by (cases "f x") auto
  with Cons show ?case by simp
qed

lemma for_each_emits: "o' \<in> set (fst (for_each f xs)) \<Longrightarrow> \<exists>x\<in>set xs. o' \<in> set (fst (f x))"
proof (induction xs)
  case Nil
  then show ?case by simp
next
  case (Cons x xs)
  obtain out r where "f x = (out, r)" by (cases "f x")
  with Cons show ?case by (cases r) (auto split: prod.splits)
qed

lemma for_each_append:
  "for_each f (xs @ ys) =
     (case for_each f xs of
        (out, Some e) \<Rightarrow> (out, Some e)
      | (out, None) \<Rightarrow> (case for_each f ys of (out', r) \<Rightarrow> (out @ out', r)))"
  by (induction xs) (auto split: prod.splits option.splits)

section \<open>Dictionaries\<close>

text \<open>Every dictionary of the node is built by update and delete from the empty one, so its keys
  are distinct.\<close>

abbreviation wf_dict :: "('k, 'v) dict \<Rightarrow> bool" where
  "wf_dict d \<equiv> distinct (map fst d)"

lemma wf_dict_update [simp, intro]: "wf_dict d \<Longrightarrow> wf_dict (AList.update k v d)"
  by (rule distinct_update)

lemma wf_dict_delete [simp, intro]: "wf_dict d \<Longrightarrow> wf_dict (AList.delete k d)"
  by (rule distinct_delete)

lemma map_of_update [simp]: "map_of (AList.update k v d) = (map_of d)(k \<mapsto> v)"
  by (rule update_conv')

lemma map_of_delete_eq: "map_of (AList.delete k d) = (map_of d)(k := None)"
  by (rule delete_conv')

lemma delete_filter: "AList.delete k d = filter (\<lambda>p. fst p \<noteq> k) d"
  by (induction d) auto

lemma fold_delete_filter: "fold AList.delete ks d = filter (\<lambda>p. fst p \<notin> set ks) d"
  by (induction ks arbitrary: d) (auto simp: delete_filter intro: filter_cong)

lemma wf_dict_value: "wf_dict d \<Longrightarrow> (k, v) \<in> set d \<Longrightarrow> (k, w) \<in> set d \<Longrightarrow> v = w"
  by (rule eq_key_imp_eq_value)

lemma wf_dict_filter [simp, intro]: "wf_dict d \<Longrightarrow> wf_dict (filter P d)"
  by (induction d) auto

text \<open>Deleting the keys of the entries picked out leaves the others, as distinct keys are at most once.\<close>

lemma fold_delete_keys:
  assumes "wf_dict d"
  shows "fold AList.delete (map fst (filter P d)) d = filter (\<lambda>x. \<not> P x) d"
proof -
  have "fst x \<in> fst ` set (filter P d) \<longleftrightarrow> P x" if "x \<in> set d" for x
    using that assms by (auto dest: wf_dict_value [OF assms] intro: imageI)
      (metis prod.collapse wf_dict_value [OF assms])
  then show ?thesis unfolding fold_delete_filter by (intro filter_cong) auto
qed

lemma map_of_filter_wf:
  "wf_dict d \<Longrightarrow> map_of (filter P d) k =
     (case map_of d k of None \<Rightarrow> None | Some v \<Rightarrow> if P (k, v) then Some v else None)"
proof (induction d)
  case Nil
  then show ?case by simp
next
  case (Cons p d)
  have "map_of d (fst p) = None" using Cons.prems by (simp add: map_of_eq_None_iff)
  with Cons show ?case by (cases p) (auto split: option.splits)
qed

lemma map_of_map_snd: "map_of (map (\<lambda>(k, v). (k, f v)) d) k = map_option f (map_of d k)"
  by (induction d) auto

lemma mem_keys_map_of: "k \<in> set (map fst d) \<longleftrightarrow> map_of d k \<noteq> None"
  by (simp add: map_of_eq_None_iff)

text \<open>\<open>dict.update\<close>: the pairs of the second dictionary, in order, written over the first.\<close>

definition dict_update :: "('k, 'v) dict \<Rightarrow> ('k, 'v) dict \<Rightarrow> ('k, 'v) dict" where
  "dict_update d e = fold (\<lambda>(k, v). AList.update k v) e d"

lemma wf_dict_dict_update: "wf_dict d \<Longrightarrow> wf_dict (dict_update d e)"
  unfolding dict_update_def by (induction e arbitrary: d) auto

lemma map_of_dict_update:
  "wf_dict e \<Longrightarrow> map_of (dict_update d e) k = (case map_of e k of None \<Rightarrow> map_of d k | Some v \<Rightarrow> Some v)"
  unfolding dict_update_def
proof (induction e arbitrary: d)
  case Nil
  then show ?case by simp
next
  case (Cons p e)
  have "map_of e (fst p) = None" using Cons.prems by (simp add: map_of_eq_None_iff)
  with Cons show ?case by (cases p) (auto split: option.splits)
qed

text \<open>\<open>{k: v for ...}\<close>: later pairs overwrite earlier ones.\<close>

definition dict_of_pairs :: "('k \<times> 'v) list \<Rightarrow> ('k, 'v) dict" where
  "dict_of_pairs ps = fold (\<lambda>(k, v). AList.update k v) ps []"

lemma wf_dict_of_pairs: "wf_dict (dict_of_pairs ps)"
  using wf_dict_dict_update [of "[]" ps] by (simp add: dict_of_pairs_def dict_update_def)

lemma map_of_dict_of_pairs: "map_of (dict_of_pairs ps) k = map_of (rev ps) k"
proof -
  have "map_of (fold (\<lambda>(k, v). AList.update k v) ps d) k = map_of (rev ps @ d) k" for d
    by (induction ps arbitrary: d) (auto simp: map_add_def split: option.splits)
  from this [of "[]"] show ?thesis by (simp add: dict_of_pairs_def)
qed

section \<open>Decimal integers\<close>

text \<open>\<open>str(n)\<close> of an integer, and the value a run of ASCII digits denotes.\<close>

fun nat_digits :: "nat \<Rightarrow> pystr" where
  "nat_digits n = (if n < 10 then [48 + n] else nat_digits (n div 10) @ [48 + n mod 10])"

declare nat_digits.simps [simp del]

definition str_int :: "int \<Rightarrow> pystr" where
  "str_int n = (if n < 0 then 45 # nat_digits (nat (- n)) else nat_digits (nat n))"

definition is_digit :: "nat \<Rightarrow> bool" where
  "is_digit c = (48 \<le> c \<and> c \<le> 57)"

definition digits_val :: "pystr \<Rightarrow> nat" where
  "digits_val ds = foldl (\<lambda>a d. 10 * a + (d - 48)) 0 ds"

lemma nat_digits_nonempty [simp]: "nat_digits n \<noteq> []"
  by (subst nat_digits.simps) simp

lemma nat_digits_are_digits: "\<forall>d\<in>set (nat_digits n). is_digit d"
proof (induction n rule: nat_digits.induct)
  case (1 n)
  then show ?case by (subst nat_digits.simps) (auto simp: is_digit_def)
qed

lemma digits_val_snoc: "digits_val (ds @ [d]) = 10 * digits_val ds + (d - 48)"
  by (simp add: digits_val_def)

lemma digits_val_nat_digits [simp]: "digits_val (nat_digits n) = n"
proof (induction n rule: nat_digits.induct)
  case (1 n)
  show ?case
  proof (cases "n < 10")
    case True
    then show ?thesis by (subst nat_digits.simps) (simp add: digits_val_def)
  next
    case False
    with 1 show ?thesis by (subst nat_digits.simps) (simp add: digits_val_snoc)
  qed
qed

lemma nat_digits_head: "n \<noteq> 0 \<Longrightarrow> hd (nat_digits n) \<noteq> 48"
proof (induction n rule: nat_digits.induct)
  case (1 n)
  show ?case
  proof (cases "n < 10")
    case True
    with 1 show ?thesis by (subst nat_digits.simps) simp
  next
    case False
    then have "n div 10 \<noteq> 0" by simp
    with 1 False show ?thesis by (subst nat_digits.simps) (simp add: hd_append)
  qed
qed

lemma nat_digits_0: "nat_digits 0 = [48]"
  by (subst nat_digits.simps) simp

end
