(* ===== verification/Codecs.thy ===== *)
theory Codecs
  imports Prelude
begin

text \<open>
  The standard library's text codecs as far as the node uses them: \<open>str.encode()\<close> and
  \<open>bytes.decode("utf-8")\<close>, \<open>decode("ascii")\<close>, the encodings \<open>json.loads\<close> detects in a byte
  string, and \<open>bytes.fromhex\<close>. A decoder answers \<open>None\<close> where Python raises
  \<open>UnicodeDecodeError\<close> (for \<open>fromhex\<close>, \<open>ValueError\<close>).
\<close>

definition is_surrogate :: "nat \<Rightarrow> bool" where
  "is_surrogate c = (55296 \<le> c \<and> c \<le> 57343)"

definition is_high :: "nat \<Rightarrow> bool" where
  "is_high c = (55296 \<le> c \<and> c \<le> 56319)"

definition is_low :: "nat \<Rightarrow> bool" where
  "is_low c = (56320 \<le> c \<and> c \<le> 57343)"

definition join_surrogates :: "nat \<Rightarrow> nat \<Rightarrow> nat" where
  "join_surrogates h l = 65536 + (h - 55296) * 1024 + (l - 56320)"

text \<open>A text Python can encode: every code point in range and no surrogate.\<close>

definition encodable :: "pystr \<Rightarrow> bool" where
  "encodable s = list_all (\<lambda>c. c < 1114112 \<and> \<not> is_surrogate c) s"

definition ascii_text :: "pystr \<Rightarrow> bool" where
  "ascii_text s = list_all (\<lambda>c. c < 128) s"

section \<open>UTF-8\<close>

definition utf8_char :: "nat \<Rightarrow> bytes" where
  "utf8_char c =
     map of_nat
       (if c < 128 then [c]
        else if c < 2048 then [192 + c div 64, 128 + c mod 64]
        else if c < 65536 then [224 + c div 4096, 128 + c div 64 mod 64, 128 + c mod 64]
        else [240 + c div 262144, 128 + c div 4096 mod 64, 128 + c div 64 mod 64, 128 + c mod 64])"

text \<open>\<open>s.encode()\<close>: a surrogate raises \<open>UnicodeEncodeError\<close>.\<close>

definition utf8_encode :: "pystr \<Rightarrow> exn + bytes" where
  "utf8_encode s = (if encodable s then Inr (concat (map utf8_char s)) else Inl UnicodeError)"

text \<open>The length of the sequence a lead byte opens, 0 for a byte that opens none.\<close>

definition utf8_need :: "nat \<Rightarrow> nat" where
  "utf8_need b =
     (if b < 128 then 1 else if 194 \<le> b \<and> b \<le> 223 then 2 else if 224 \<le> b \<and> b \<le> 239 then 3
      else if 240 \<le> b \<and> b \<le> 244 then 4 else 0)"

definition is_cont :: "nat \<Rightarrow> bool" where
  "is_cont b = (128 \<le> b \<and> b \<le> 191)"

fun cont_val :: "nat \<Rightarrow> nat list \<Rightarrow> nat" where
  "cont_val a [] = a"
| "cont_val a (b # bs) = cont_val (a * 64 + (b - 128)) bs"

definition utf8_lead :: "nat \<Rightarrow> nat" where
  "utf8_lead b = (if b < 128 then b else if b < 224 then b - 192 else if b < 240 then b - 224 else b - 240)"

text \<open>The code point of a whole sequence, unless it is overlong, too large, or a surrogate while
  surrogates are not let through (\<open>errors="surrogatepass"\<close>).\<close>

definition utf8_point :: "bool \<Rightarrow> nat list \<Rightarrow> nat option" where
  "utf8_point pass bs =
     (let c = cont_val (utf8_lead (hd bs)) (tl bs)
      in if list_all is_cont (tl bs) \<and> c < 1114112 \<and> (pass \<or> \<not> is_surrogate c)
           \<and> (length bs = 3 \<longrightarrow> 2048 \<le> c) \<and> (length bs = 4 \<longrightarrow> 65536 \<le> c)
         then Some c else None)"

function utf8_decode :: "bool \<Rightarrow> nat list \<Rightarrow> pystr option" where
  "utf8_decode pass bs =
     (if bs = [] then Some []
      else (let n = utf8_need (hd bs)
            in if n = 0 \<or> length bs < n then None
               else (case utf8_point pass (take n bs) of
                   None \<Rightarrow> None
                 | Some c \<Rightarrow> map_option ((#) c) (utf8_decode pass (drop n bs)))))"
  by pat_completeness auto
termination
  by (relation "measure (\<lambda>(pass, bs). length bs)") auto

declare utf8_decode.simps [simp del]

definition decode_utf8 :: "bytes \<Rightarrow> pystr option" where
  "decode_utf8 bs = utf8_decode False (map unat bs)"

definition decode_ascii :: "bytes \<Rightarrow> pystr option" where
  "decode_ascii bs = (if list_all (\<lambda>b. unat b < 128) bs then Some (map unat bs) else None)"

text \<open>\<open>decode("utf-8", "replace")\<close>: each maximal ill-formed prefix of a sequence becomes one
  replacement character.\<close>

definition second_ok :: "nat \<Rightarrow> nat \<Rightarrow> bool" where
  "second_ok lead b =
     (is_cont b \<and> (lead = 224 \<longrightarrow> 160 \<le> b) \<and> (lead = 237 \<longrightarrow> b \<le> 159) \<and>
      (lead = 240 \<longrightarrow> 144 \<le> b) \<and> (lead = 244 \<longrightarrow> b \<le> 143))"

definition good_prefix :: "nat list \<Rightarrow> nat" where
  "good_prefix bs =
     (if utf8_need (hd bs) < 2 \<or> tl bs = [] \<or> \<not> second_ok (hd bs) (bs ! 1) then 1
      else 2 + length (takeWhile is_cont (take (utf8_need (hd bs) - 2) (drop 2 bs))))"

lemma good_prefix_pos [simp]: "0 < good_prefix bs"
  by (simp add: good_prefix_def)

function utf8_replace :: "nat list \<Rightarrow> pystr" where
  "utf8_replace bs =
     (if bs = [] then []
      else if utf8_need (hd bs) = good_prefix bs
           then cont_val (utf8_lead (hd bs)) (tl (take (good_prefix bs) bs)) # utf8_replace (drop (good_prefix bs) bs)
           else 65533 # utf8_replace (drop (good_prefix bs) bs))"
  by pat_completeness auto
termination
  by (relation "measure length") simp_all

declare utf8_replace.simps [simp del]

definition decode_utf8_replace :: "bytes \<Rightarrow> pystr" where
  "decode_utf8_replace bs = utf8_replace (map unat bs)"

text \<open>What it makes can be encoded again: a whole sequence is never a surrogate or out of range.\<close>

lemma good_sequence:
  assumes "bs \<noteq> []" and "utf8_need (hd bs) = good_prefix bs"
  shows "cont_val (utf8_lead (hd bs)) (tl (take (good_prefix bs) bs)) < 1114112 \<and>
    \<not> is_surrogate (cont_val (utf8_lead (hd bs)) (tl (take (good_prefix bs) bs)))"
proof -
  obtain a r where bs: "bs = a # r" using assms(1) by (cases bs) auto
  consider "utf8_need a = 1" "a < 128" | "utf8_need a = 2" "194 \<le> a" "a \<le> 223"
    | "utf8_need a = 3" "224 \<le> a" "a \<le> 239" | "utf8_need a = 4" "240 \<le> a" "a \<le> 244"
    | "utf8_need a = 0" by (cases "utf8_need a = 0") (auto simp: utf8_need_def split: if_splits)
  then show ?thesis
  proof cases
    case 1
    then have "good_prefix bs = 1" using assms(2) by (simp add: bs)
    with 1 show ?thesis by (simp add: bs utf8_lead_def is_surrogate_def)
  next
    case 2
    then obtain b s where "r = b # s" "is_cont b"
      using assms(2) by (cases r) (auto simp: bs good_prefix_def second_ok_def split: if_splits)
    moreover from this 2 have "(a - 192) * 64 + (b - 128) < 55296" by (auto simp: is_cont_def)
    ultimately show ?thesis using 2 assms(2) by (simp add: bs utf8_lead_def is_surrogate_def)
  next
    case 3
    then obtain b c s where r: "r = b # c # s" "second_ok a b" "is_cont c"
      using assms(2) by (cases r; cases "tl r") (auto simp: bs good_prefix_def split: if_splits)
    then have "a = 237 \<longrightarrow> b \<le> 159" "128 \<le> b \<and> b \<le> 191" "128 \<le> c \<and> c \<le> 191"
      by (auto simp: second_ok_def is_cont_def)
    moreover have "take (good_prefix bs) bs = [a, b, c]" using 3 r assms(2) by (simp add: bs)
    ultimately show ?thesis using 3
      by (cases "a < 237"; cases "a = 237") (auto simp: bs utf8_lead_def is_surrogate_def)
  next
    case 4
    then obtain b c d s where r: "r = b # c # d # s" "second_ok a b" "is_cont c" "is_cont d"
      using assms(2) by (cases r; cases "tl r"; cases "tl (tl r)")
        (auto simp: bs good_prefix_def numeral_2_eq_2 split: if_splits)
    then have "a = 240 \<longrightarrow> 144 \<le> b" "a = 244 \<longrightarrow> b \<le> 143" "128 \<le> b \<and> b \<le> 191" "128 \<le> c \<and> c \<le> 191" "128 \<le> d \<and> d \<le> 191"
      by (auto simp: second_ok_def is_cont_def)
    moreover have "take (good_prefix bs) bs = [a, b, c, d]" using 4 r assms(2) by (simp add: bs)
    ultimately show ?thesis using 4
      by (cases "a = 240"; cases "a = 244") (auto simp: bs utf8_lead_def is_surrogate_def)
  next
    case 5
    then show ?thesis using assms(2) good_prefix_pos [of bs] by (simp add: bs del: good_prefix_pos)
  qed
qed

lemma encodable_replace: "encodable (utf8_replace bs)"
proof (induction bs rule: utf8_replace.induct)
  case (1 bs)
  then show ?case
    using good_sequence [of bs]
    by (subst utf8_replace.simps) (auto simp: encodable_def is_surrogate_def Let_def)
qed

section \<open>The encodings \<open>json.loads\<close> detects\<close>

datatype encoding = Utf8 | Utf8Sig | Utf16 | Utf16BE | Utf16LE | Utf32 | Utf32BE | Utf32LE

definition detect_encoding :: "nat list \<Rightarrow> encoding" where
  "detect_encoding b =
     (if starts_with b [0, 0, 254, 255] \<or> starts_with b [255, 254, 0, 0] then Utf32
      else if starts_with b [254, 255] \<or> starts_with b [255, 254] then Utf16
      else if starts_with b [239, 187, 191] then Utf8Sig
      else if 4 \<le> length b then
        (if b ! 0 = 0 then (if b ! 1 \<noteq> 0 then Utf16BE else Utf32BE)
         else if b ! 1 = 0 then (if b ! 2 \<noteq> 0 \<or> b ! 3 \<noteq> 0 then Utf16LE else Utf32LE)
         else Utf8)
      else if length b = 2 then
        (if b ! 0 = 0 then Utf16BE else if b ! 1 = 0 then Utf16LE else Utf8)
      else Utf8)"

text \<open>Code units, and the pairing of surrogates; a lone surrogate passes.\<close>

fun units16 :: "bool \<Rightarrow> nat list \<Rightarrow> nat list option" where
  "units16 be [] = Some []"
| "units16 be [x] = None"
| "units16 be (x # y # r) =
     map_option ((#) (if be then 256 * x + y else 256 * y + x)) (units16 be r)"

fun pair_units :: "nat list \<Rightarrow> pystr" where
  "pair_units [] = []"
| "pair_units [u] = [u]"
| "pair_units (u # v # r) =
     (if is_high u \<and> is_low v then join_surrogates u v # pair_units r else u # pair_units (v # r))"

fun units32 :: "bool \<Rightarrow> nat list \<Rightarrow> nat list option" where
  "units32 be [] = Some []"
| "units32 be (w # x # y # z # r) =
     (let c = (if be then ((w * 256 + x) * 256 + y) * 256 + z else ((z * 256 + y) * 256 + x) * 256 + w)
      in if 1114112 \<le> c then None else map_option ((#) c) (units32 be r))"
| "units32 be _ = None"

definition decode_as :: "encoding \<Rightarrow> nat list \<Rightarrow> pystr option" where
  "decode_as e b =
     (case e of
        Utf8 \<Rightarrow> utf8_decode True b
      | Utf8Sig \<Rightarrow> utf8_decode True (if starts_with b [239, 187, 191] then drop 3 b else b)
      | Utf16BE \<Rightarrow> map_option pair_units (units16 True b)
      | Utf16LE \<Rightarrow> map_option pair_units (units16 False b)
      | Utf16 \<Rightarrow> (if starts_with b [254, 255] then map_option pair_units (units16 True (drop 2 b))
                 else map_option pair_units (units16 False (drop 2 b)))
      | Utf32BE \<Rightarrow> units32 True b
      | Utf32LE \<Rightarrow> units32 False b
      | Utf32 \<Rightarrow> (if starts_with b [0, 0, 254, 255] then units32 True (drop 4 b)
                 else units32 False (drop 4 b)))"

definition decode_detected :: "bytes \<Rightarrow> pystr option" where
  "decode_detected bs = (let b = map unat bs in decode_as (detect_encoding b) b)"

section \<open>Hexadecimal\<close>

definition hexdig :: "nat \<Rightarrow> nat" where
  "hexdig d = (if d < 10 then 48 + d else 87 + d)"

definition unhex :: "nat \<Rightarrow> nat option" where
  "unhex c =
     (if 48 \<le> c \<and> c \<le> 57 then Some (c - 48)
      else if 97 \<le> c \<and> c \<le> 102 then Some (c - 87)
      else if 65 \<le> c \<and> c \<le> 70 then Some (c - 55) else None)"

text \<open>\<open>bytes.fromhex\<close>: pairs of hex digits, ASCII white space allowed between pairs.\<close>

definition ascii_space :: "nat \<Rightarrow> bool" where
  "ascii_space c = (c = 32 \<or> 9 \<le> c \<and> c \<le> 13)"

fun fromhex :: "pystr \<Rightarrow> bytes option" where
  "fromhex [] = Some []"
| "fromhex [c] = (if ascii_space c then Some [] else None)"
| "fromhex (c # d # r) =
     (if ascii_space c then fromhex (d # r)
      else (case (unhex c, unhex d) of
          (Some h, Some l) \<Rightarrow> map_option ((#) (of_nat (16 * h + l))) (fromhex r)
        | _ \<Rightarrow> None))"

text \<open>\<open>bytes.hex()\<close>.\<close>

definition hex_of :: "bytes \<Rightarrow> pystr" where
  "hex_of bs = concat (map (\<lambda>b. [hexdig (unat b div 16), hexdig (unat b mod 16)]) bs)"

lemma unhex_hexdig: "d < 16 \<Longrightarrow> unhex (hexdig d) = Some d"
  by (auto simp: unhex_def hexdig_def)

lemma hexdig_not_space: "d < 16 \<Longrightarrow> \<not> ascii_space (hexdig d)"
  by (auto simp: ascii_space_def hexdig_def)

lemma fromhex_hex_of: "fromhex (hex_of bs) = Some bs"
proof (induction bs)
  case Nil
  then show ?case by (simp add: hex_of_def)
next
  case (Cons b bs)
  have "unat b < 256" using unsigned_less [of b, where ?'a = nat] by simp
  then have "unat b div 16 < 16" "unat b mod 16 < 16" "16 * (unat b div 16) + unat b mod 16 = unat b"
    by auto
  then have "fromhex (hex_of (b # bs)) = map_option ((#) (of_nat (unat b))) (fromhex (hex_of bs))"
    by (simp add: hex_of_def unhex_hexdig hexdig_not_space)
  with Cons show ?case by simp
qed

section \<open>ASCII text\<close>

definition ascii_bytes :: "pystr \<Rightarrow> bytes" where
  "ascii_bytes s = map of_nat s"

lemma ascii_encodable: "ascii_text s \<Longrightarrow> encodable s"
  by (auto simp: ascii_text_def encodable_def list_all_iff is_surrogate_def)

lemma utf8_encode_ascii: "ascii_text s \<Longrightarrow> utf8_encode s = Inr (ascii_bytes s)"
proof -
  assume a: "ascii_text s"
  then have "concat (map utf8_char s) = ascii_bytes s"
    by (induction s) (auto simp: utf8_char_def ascii_bytes_def ascii_text_def)
  with ascii_encodable [OF a] show ?thesis by (simp add: utf8_encode_def)
qed

lemma unat_ascii_bytes: "ascii_text s \<Longrightarrow> map unat (ascii_bytes s) = s"
  by (induction s) (auto simp: ascii_bytes_def ascii_text_def unat_of_nat)

lemma utf8_decode_ascii: "ascii_text s \<Longrightarrow> utf8_decode pass s = Some s"
proof (induction s)
  case Nil
  then show ?case by (simp add: utf8_decode.simps)
next
  case (Cons c s)
  then have "utf8_point pass [c] = Some c" "utf8_need c = 1"
    by (auto simp: utf8_point_def utf8_lead_def utf8_need_def ascii_text_def is_surrogate_def)
  with Cons show ?case by (subst utf8_decode.simps) (simp add: ascii_text_def)
qed

lemma decode_utf8_ascii: "ascii_text s \<Longrightarrow> decode_utf8 (ascii_bytes s) = Some s"
  by (simp add: decode_utf8_def unat_ascii_bytes utf8_decode_ascii)

lemma utf8_replace_ascii: "ascii_text s \<Longrightarrow> utf8_replace s = s"
proof (induction s)
  case Nil
  then show ?case by (simp add: utf8_replace.simps)
next
  case (Cons c s)
  then have "utf8_need c = 1" "good_prefix (c # s) = 1"
    by (auto simp: utf8_need_def ascii_text_def good_prefix_def)
  with Cons show ?case by (subst utf8_replace.simps) (simp add: ascii_text_def utf8_lead_def)
qed

text \<open>\<open>json.loads\<close> takes ASCII text without NUL as UTF-8.\<close>

lemma detect_ascii: "ascii_text s \<Longrightarrow> 0 \<notin> set s \<Longrightarrow> detect_encoding s = Utf8"
  by (cases s; cases "tl s"; cases "tl (tl s)") (auto simp: detect_encoding_def ascii_text_def starts_with_def)

lemma decode_detected_ascii: "ascii_text s \<Longrightarrow> 0 \<notin> set s \<Longrightarrow> decode_detected (ascii_bytes s) = Some s"
  by (simp add: decode_detected_def Let_def unat_ascii_bytes detect_ascii decode_as_def utf8_decode_ascii)

end
