(* ===== verification/Json.thy ===== *)
theory Json
  imports Codecs
begin

text \<open>
  The standard library's \<open>json\<close> as the wire codecs use it: \<open>json.loads\<close> on text (the C scanner:
  strict strings, \<open>NaN\<close>/\<open>Infinity\<close> accepted, last duplicate key wins) and on bytes, and
  \<open>json.dumps\<close> with \<open>ensure_ascii\<close>. A float is a real or one of the three special values; rounding
  of a decimal literal is not modelled, its overflow to infinity is. \<open>repr\<close> of a finite float is the
  parameter \<open>frepr\<close>. The interpreter's recursion limit is not modelled.
\<close>

datatype pyfloat = Fin real | PInf | NInf | NaN

datatype json =
    JNull | JBool bool | JInt int | JFloat pyfloat | JStr pystr
  | JArr "json list" | JObj "(pystr \<times> json) list"

section \<open>Scanner\<close>

definition is_ws :: "nat \<Rightarrow> bool" where
  "is_ws c = (c = 32 \<or> c = 9 \<or> c = 10 \<or> c = 13)"

definition skip_ws :: "pystr \<Rightarrow> pystr" where
  "skip_ws s = dropWhile is_ws s"

fun expect :: "nat \<Rightarrow> pystr \<Rightarrow> pystr option" where
  "expect c [] = None"
| "expect c (d # r) = (if d = c then Some r else None)"

definition unescape :: "nat \<Rightarrow> nat option" where
  "unescape e =
     (if e = 34 \<or> e = 92 \<or> e = 47 then Some e else if e = 98 then Some 8 else if e = 102 then Some 12
      else if e = 110 then Some 10 else if e = 114 then Some 13 else if e = 116 then Some 9 else None)"

text \<open>The four hex digits of a \<open>\u\<close> escape.\<close>

definition hex4_val :: "pystr \<Rightarrow> nat option" where
  "hex4_val s =
     (if length s < 4 then None
      else (case (unhex (s ! 0), unhex (s ! 1), unhex (s ! 2), unhex (s ! 3)) of
          (Some a, Some b, Some c, Some d) \<Rightarrow> Some (((a * 16 + b) * 16 + c) * 16 + d)
        | _ \<Rightarrow> None))"

text \<open>The low half that completes a high surrogate, if the next escape is one.\<close>

definition low_half :: "nat \<Rightarrow> pystr \<Rightarrow> nat option" where
  "low_half u r =
     (if is_high u \<and> starts_with r [92, 117] then
        (case hex4_val (drop 2 r) of None \<Rightarrow> None | Some l \<Rightarrow> if is_low l then Some l else None)
      else None)"

function scan_string :: "pystr \<Rightarrow> (pystr \<times> pystr) option" where
  "scan_string s =
     (if s = [] then None
      else if hd s = 34 then Some ([], tl s)
      else if hd s = 92 then
        (if tl s = [] then None
         else if hd (tl s) = 117 then
           (case hex4_val (drop 2 s) of
              None \<Rightarrow> None
            | Some u \<Rightarrow> (case low_half u (drop 6 s) of
                Some l \<Rightarrow> map_option (apfst ((#) (join_surrogates u l))) (scan_string (drop 12 s))
              | None \<Rightarrow> map_option (apfst ((#) u)) (scan_string (drop 6 s))))
         else (case unescape (hd (tl s)) of
              None \<Rightarrow> None
            | Some x \<Rightarrow> map_option (apfst ((#) x)) (scan_string (drop 2 s))))
      else if hd s < 32 then None
      else map_option (apfst ((#) (hd s))) (scan_string (tl s)))"
  by pat_completeness auto
termination
  by (relation "measure length") auto

declare scan_string.simps [simp del]

text \<open>\<open>int(text)\<close> refuses more than 4300 digits.\<close>

definition INT_MAX_STR_DIGITS :: nat where
  "INT_MAX_STR_DIGITS = 4300"

definition float_of :: "bool \<Rightarrow> pystr \<Rightarrow> pystr \<Rightarrow> int \<Rightarrow> pyfloat" where
  "float_of neg ip fp e =
     (let v = real (digits_val (ip @ fp)) * 10 powi (e - int (length fp))
      in if 2 ^ 1024 - 2 ^ 970 \<le> v then (if neg then NInf else PInf)
         else Fin (if neg then - v else v))"

text \<open>The optional fraction and exponent: the digits, and the rest.\<close>

definition scan_frac :: "pystr \<Rightarrow> (pystr \<times> pystr) option" where
  "scan_frac s =
     (case expect 46 s of
        None \<Rightarrow> None
      | Some r \<Rightarrow> let ds = takeWhile is_digit r in if ds = [] then None else Some (ds, drop (length ds) r))"

definition scan_exp :: "pystr \<Rightarrow> (int \<times> pystr) option" where
  "scan_exp s =
     (if s = [] \<or> hd s \<noteq> 101 \<and> hd s \<noteq> 69 then None
      else (let r = tl s;
                neg = (r \<noteq> [] \<and> hd r = 45);
                r' = (if r \<noteq> [] \<and> (hd r = 45 \<or> hd r = 43) then tl r else r);
                ds = takeWhile is_digit r'
            in if ds = [] then None
               else Some (if neg then - int (digits_val ds) else int (digits_val ds), drop (length ds) r')))"

definition scan_number :: "pystr \<Rightarrow> (json \<times> pystr) option" where
  "scan_number s =
     (let neg = (s \<noteq> [] \<and> hd s = 45);
          r = (if neg then tl s else s);
          ip = (if r \<noteq> [] \<and> hd r = 48 then [48] else takeWhile is_digit r);
          r1 = drop (length ip) r
      in if ip = [] then None
         else (case (scan_frac r1, scan_exp (case scan_frac r1 of None \<Rightarrow> r1 | Some (_, r2) \<Rightarrow> r2)) of
             (None, None) \<Rightarrow>
               if length ip > INT_MAX_STR_DIGITS then None
               else Some (JInt (if neg then - int (digits_val ip) else int (digits_val ip)), r1)
           | (Some (fp, r2), None) \<Rightarrow> Some (JFloat (float_of neg ip fp 0), r2)
           | (None, Some (e, r3)) \<Rightarrow> Some (JFloat (float_of neg ip [] e), r3)
           | (Some (fp, _), Some (e, r3)) \<Rightarrow> Some (JFloat (float_of neg ip fp e), r3)))"

text \<open>The recursive scanner, with fuel; \<open>OutOfFuel\<close> never happens for the fuel \<open>loads\<close> gives.\<close>

datatype scan = Done json pystr | Bad | OutOfFuel

definition scan_atom :: "pystr \<Rightarrow> scan" where
  "scan_atom s =
     (if starts_with s (lit ''null'') then Done JNull (drop 4 s)
      else if starts_with s (lit ''true'') then Done (JBool True) (drop 4 s)
      else if starts_with s (lit ''false'') then Done (JBool False) (drop 5 s)
      else if starts_with s (lit ''NaN'') then Done (JFloat NaN) (drop 3 s)
      else if starts_with s (lit ''Infinity'') then Done (JFloat PInf) (drop 8 s)
      else if starts_with s (lit ''-Infinity'') then Done (JFloat NInf) (drop 9 s)
      else (case scan_number s of None \<Rightarrow> Bad | Some (v, r) \<Rightarrow> Done v r))"

fun scan_once :: "nat \<Rightarrow> pystr \<Rightarrow> scan"
  and scan_members :: "nat \<Rightarrow> (pystr \<times> json) list \<Rightarrow> pystr \<Rightarrow> scan"
  and scan_items :: "nat \<Rightarrow> json list \<Rightarrow> pystr \<Rightarrow> scan" where
  "scan_once 0 s = OutOfFuel"
| "scan_once (Suc n) s =
     (if s = [] then Bad
      else if hd s = 34 then
        (case scan_string (tl s) of None \<Rightarrow> Bad | Some (x, r) \<Rightarrow> Done (JStr x) r)
      else if hd s = 123 then
        (case expect 125 (skip_ws (tl s)) of
           Some r \<Rightarrow> Done (JObj []) r
         | None \<Rightarrow> scan_members n [] (skip_ws (tl s)))
      else if hd s = 91 then
        (case expect 93 (skip_ws (tl s)) of
           Some r \<Rightarrow> Done (JArr []) r
         | None \<Rightarrow> scan_items n [] (skip_ws (tl s)))
      else scan_atom s)"
| "scan_members 0 acc s = OutOfFuel"
| "scan_members (Suc n) acc s =
     (if s = [] \<or> hd s \<noteq> 34 then Bad
      else (case scan_string (tl s) of
          None \<Rightarrow> Bad
        | Some (k, r) \<Rightarrow> (case expect 58 (skip_ws r) of
            None \<Rightarrow> Bad
          | Some r' \<Rightarrow> (case scan_once n (skip_ws r') of
              Done v t \<Rightarrow>
                (if skip_ws t = [] then Bad
                 else if hd (skip_ws t) = 125 then Done (JObj (dict_of_pairs (acc @ [(k, v)]))) (tl (skip_ws t))
                 else if hd (skip_ws t) = 44 then scan_members n (acc @ [(k, v)]) (skip_ws (tl (skip_ws t)))
                 else Bad)
            | Bad \<Rightarrow> Bad
            | OutOfFuel \<Rightarrow> OutOfFuel))))"
| "scan_items 0 acc s = OutOfFuel"
| "scan_items (Suc n) acc s =
     (case scan_once n s of
        Done v t \<Rightarrow>
          (if skip_ws t = [] then Bad
           else if hd (skip_ws t) = 93 then Done (JArr (acc @ [v])) (tl (skip_ws t))
           else if hd (skip_ws t) = 44 then scan_items n (acc @ [v]) (skip_ws (tl (skip_ws t)))
           else Bad)
      | Bad \<Rightarrow> Bad
      | OutOfFuel \<Rightarrow> OutOfFuel)"

text \<open>\<open>json.loads\<close>: \<open>None\<close> is a \<open>ValueError\<close> (a \<open>JSONDecodeError\<close>, or a \<open>UnicodeDecodeError\<close>).\<close>

definition loads :: "pystr \<Rightarrow> json option" where
  "loads s =
     (if s \<noteq> [] \<and> hd s = 65279 then None
      else (case scan_once (2 * length s + 1) (skip_ws s) of
          Done v r \<Rightarrow> if skip_ws r = [] then Some v else None
        | _ \<Rightarrow> None))"

definition loads_bytes :: "bytes \<Rightarrow> json option" where
  "loads_bytes b = Option.bind (decode_detected b) loads"

section \<open>Printer\<close>

definition hex4 :: "nat \<Rightarrow> pystr" where
  "hex4 n = [hexdig (n div 4096), hexdig (n div 256 mod 16), hexdig (n div 16 mod 16), hexdig (n mod 16)]"

definition escape_char :: "nat \<Rightarrow> pystr" where
  "escape_char c =
     (if c = 34 \<or> c = 92 then [92, c] else if c = 10 then [92, 110] else if c = 13 then [92, 114]
      else if c = 9 then [92, 116] else if c = 12 then [92, 102] else if c = 8 then [92, 98]
      else if 32 \<le> c \<and> c \<le> 126 then [c]
      else if c < 65536 then [92, 117] @ hex4 c
      else [92, 117] @ hex4 (55296 + (c - 65536) div 1024) @ [92, 117] @ hex4 (56320 + (c - 65536) mod 1024))"

definition dump_string :: "pystr \<Rightarrow> pystr" where
  "dump_string s = [34] @ concat (map escape_char s) @ [34]"

fun join :: "pystr \<Rightarrow> pystr list \<Rightarrow> pystr" where
  "join sep [] = []"
| "join sep [x] = x"
| "join sep (x # y # xs) = x @ sep @ join sep (y # xs)"

fun dump_float :: "(real \<Rightarrow> pystr) \<Rightarrow> pyfloat \<Rightarrow> pystr" where
  "dump_float frepr (Fin x) = frepr x"
| "dump_float frepr PInf = lit ''Infinity''"
| "dump_float frepr NInf = lit ''-Infinity''"
| "dump_float frepr NaN = lit ''NaN''"

text \<open>\<open>isep\<close> and \<open>ksep\<close> are the separators: \<open>(", ", ": ")\<close> by default, \<open>(",", ":")\<close> compact.\<close>

fun dumps :: "(real \<Rightarrow> pystr) \<Rightarrow> pystr \<Rightarrow> pystr \<Rightarrow> json \<Rightarrow> pystr" where
  "dumps frepr isep ksep JNull = lit ''null''"
| "dumps frepr isep ksep (JBool b) = (if b then lit ''true'' else lit ''false'')"
| "dumps frepr isep ksep (JInt n) = str_int n"
| "dumps frepr isep ksep (JFloat x) = dump_float frepr x"
| "dumps frepr isep ksep (JStr s) = dump_string s"
| "dumps frepr isep ksep (JArr vs) =
     lit ''['' @ join isep (map (dumps frepr isep ksep) vs) @ lit '']''"
| "dumps frepr isep ksep (JObj kvs) =
     lit ''{'' @ join isep (map (\<lambda>(k, v). dump_string k @ ksep @ dumps frepr isep ksep v) kvs) @ lit ''}''"

definition dumps_default :: "(real \<Rightarrow> pystr) \<Rightarrow> json \<Rightarrow> pystr" where
  "dumps_default frepr = dumps frepr (lit '', '') (lit '': '')"

definition dumps_compact :: "(real \<Rightarrow> pystr) \<Rightarrow> json \<Rightarrow> pystr" where
  "dumps_compact frepr = dumps frepr (lit '','') (lit '':'')"

end
