(* ===== verification/JsonLaws.thy ===== *)
theory JsonLaws
  imports Json
begin

text \<open>
  What the codecs of the node rely on: the scanner terminates within its fuel on every input, and
  what \<open>json.dumps\<close> prints, \<open>json.loads\<close> reads back, as text and as bytes.
\<close>

section \<open>The scanner consumes its input and never runs out of fuel\<close>

lemma length_skip_ws: "length (skip_ws s) \<le> length s"
  by (simp add: skip_ws_def length_dropWhile_le)

lemma expect_Some: "expect c s = Some r \<longleftrightarrow> s = c # r"
  by (cases s) auto

lemma scan_string_shorter: "scan_string s = Some (x, r) \<Longrightarrow> length r < length s"
proof (induction s arbitrary: x r rule: scan_string.induct)
  case (1 s)
  show ?case
  proof (cases s)
    case Nil
    with "1.prems" show ?thesis by (subst (asm) scan_string.simps) simp
  next
    case (Cons c t)
    then show ?thesis
      using "1.prems"
      apply (subst (asm) scan_string.simps)
      apply (auto split: if_splits option.splits)
      using "1.IH" Cons apply fastforce+
      done
  qed
qed

lemma scan_frac_shorter: "scan_frac s = Some (ds, r) \<Longrightarrow> length r < length s"
  by (auto simp: scan_frac_def expect_Some Let_def split: option.splits if_splits)

lemma scan_exp_shorter: "scan_exp s = Some (e, r) \<Longrightarrow> length r < length s"
  by (cases s) (auto simp: scan_exp_def Let_def split: if_splits)

lemma drop_nonempty_shorter: "p \<noteq> [] \<Longrightarrow> s \<noteq> [] \<Longrightarrow> length (drop (length p) s) < length s"
  by simp

lemma scan_number_shorter:
  assumes "scan_number s = Some (v, r)"
  shows "length r < length s"
proof -
  define t where "t = (if s \<noteq> [] \<and> hd s = 45 then tl s else s)"
  define ip where "ip = (if t \<noteq> [] \<and> hd t = 48 then [48] else takeWhile is_digit t)"
  define r1 where "r1 = drop (length ip) t"
  have ip: "ip \<noteq> []" "t \<noteq> []"
    using assms unfolding scan_number_def Let_def t_def [symmetric] ip_def [symmetric]
    by (auto simp: ip_def split: if_splits)
  have t: "length r1 < length s"
    using ip drop_nonempty_shorter [of ip t] by (auto simp: r1_def t_def split: if_splits)
  have "r = r1 \<or> (\<exists>fp. scan_frac r1 = Some (fp, r)) \<or> (\<exists>e. scan_exp r1 = Some (e, r)) \<or>
      (\<exists>fp e r2. scan_frac r1 = Some (fp, r2) \<and> scan_exp r2 = Some (e, r))"
    using assms ip(1)
    unfolding scan_number_def Let_def t_def [symmetric] ip_def [symmetric] r1_def [symmetric]
    by (auto split: option.splits if_splits prod.splits)
  with t show ?thesis by (fastforce dest: scan_frac_shorter scan_exp_shorter)
qed

lemma starts_with_nonempty: "starts_with s p \<Longrightarrow> p \<noteq> [] \<Longrightarrow> s \<noteq> []"
  by (auto simp: starts_with_def)

lemma scan_atom_shorter: "scan_atom s = Done v r \<Longrightarrow> length r < length s"
  by (auto simp: scan_atom_def dest: starts_with_nonempty scan_number_shorter
      split: if_splits option.splits)

lemma scan_atom_no_fuel [simp]: "scan_atom s \<noteq> OutOfFuel"
  by (auto simp: scan_atom_def split: option.splits)

lemma skip_ws_shorter: "length s < n \<Longrightarrow> length (skip_ws s) < n"
  using length_skip_ws [of s] by simp

lemma skip_ws_tl_shorter: "skip_ws s \<noteq> [] \<Longrightarrow> length s < n \<Longrightarrow> length (tl (skip_ws s)) < n - 1"
  using length_skip_ws [of s] by (cases "skip_ws s") auto

lemma ws_tl_shorter: "s \<noteq> [] \<Longrightarrow> length (skip_ws (tl s)) < length s"
  using length_skip_ws [of "tl s"] by (cases s) auto

text \<open>What one call of each of the three functions did when it succeeded.\<close>

lemma scan_once_cases:
  assumes "scan_once (Suc n) s = Done v r"
  obtains (string) x where "scan_string (tl s) = Some (x, r)" "s \<noteq> []"
    | (empty) c where "expect c (skip_ws (tl s)) = Some r" "s \<noteq> []"
    | (members) "scan_members n [] (skip_ws (tl s)) = Done v r" "s \<noteq> []"
    | (items) "scan_items n [] (skip_ws (tl s)) = Done v r" "s \<noteq> []"
    | (atom) "scan_atom s = Done v r"
  using assms unfolding scan_once.simps by (simp split: if_split_asm option.split_asm prod.split_asm)

lemma scan_members_cases:
  assumes "scan_members (Suc n) acc s = Done v r"
  obtains k t u w x where "s \<noteq> []" "scan_string (tl s) = Some (k, t)" "skip_ws t = 58 # u"
    "scan_once n (skip_ws u) = Done w x" "skip_ws x \<noteq> []"
    "r = tl (skip_ws x) \<or> scan_members n (acc @ [(k, w)]) (skip_ws (tl (skip_ws x))) = Done v r"
  using assms unfolding scan_members.simps
  by (simp add: expect_Some split: if_split_asm option.split_asm prod.split_asm scan.split_asm)

lemma scan_items_cases:
  assumes "scan_items (Suc n) xs s = Done v r"
  obtains w x where "scan_once n s = Done w x" "skip_ws x \<noteq> []"
    "r = tl (skip_ws x) \<or> scan_items n (xs @ [w]) (skip_ws (tl (skip_ws x))) = Done v r"
  using assms unfolding scan_items.simps
  by (simp split: if_split_asm scan.split_asm)

lemma after_shorter:
  assumes "length t < length s" and "skip_ws t \<noteq> []"
    and "r = tl (skip_ws t) \<or> length r < length (skip_ws (tl (skip_ws t)))"
  shows "length r < length s"
proof -
  have "length (skip_ws t) < length s" using assms(1) length_skip_ws [of t] by simp
  moreover have "length (tl (skip_ws t)) < length (skip_ws t)" using assms(2) by simp
  ultimately show ?thesis using assms(3) ws_tl_shorter [OF assms(2)] by (elim disjE) simp_all
qed

lemma scan_shorter:
  "(\<forall>s v r. scan_once n s = Done v r \<longrightarrow> length r < length s) \<and>
   (\<forall>acc s v r. scan_members n acc s = Done v r \<longrightarrow> length r < length s) \<and>
   (\<forall>xs s v r. scan_items n xs s = Done v r \<longrightarrow> length r < length s)"
proof (induction n)
  case 0
  then show ?case by simp
next
  case (Suc n)
  then have once: "\<And>s v r. scan_once n s = Done v r \<Longrightarrow> length r < length s"
    and members: "\<And>acc s v r. scan_members n acc s = Done v r \<Longrightarrow> length r < length s"
    and items: "\<And>xs s v r. scan_items n xs s = Done v r \<Longrightarrow> length r < length s"
    by blast+
  have 1: "length r < length s" if "scan_once (Suc n) s = Done v r" for s v r
    using that
  proof (cases rule: scan_once_cases)
    case (string x)
    then show ?thesis using scan_string_shorter [of "tl s" x r] by simp
  next
    case (empty c)
    then show ?thesis using ws_tl_shorter [of s] by (simp add: expect_Some)
  next
    case members
    from Suc have "length r < length (skip_ws (tl s))" using members(1) by blast
    then show ?thesis using ws_tl_shorter [OF members(2)] by simp
  next
    case items
    from Suc have "length r < length (skip_ws (tl s))" using items(1) by blast
    then show ?thesis using ws_tl_shorter [OF items(2)] by simp
  next
    case atom
    then show ?thesis by (rule scan_atom_shorter)
  qed
  have 2: "length r < length s" if m: "scan_members (Suc n) acc s = Done v r" for acc s v r
  proof -
    obtain k t u w x where s: "s \<noteq> []" "scan_string (tl s) = Some (k, t)" "skip_ws t = 58 # u"
        "scan_once n (skip_ws u) = Done w x" "skip_ws x \<noteq> []"
      and r: "r = tl (skip_ws x) \<or> scan_members n (acc @ [(k, w)]) (skip_ws (tl (skip_ws x))) = Done v r"
      by (rule scan_members_cases [OF m])
    have "length u < length t" using length_skip_ws [of t] s(3) by simp
    then have "length x < length s"
      using scan_string_shorter [OF s(2)] once [OF s(4)] length_skip_ws [of u] by simp
    then show ?thesis by (rule after_shorter) (use r members s(5) in blast)+
  qed
  have 3: "length r < length s" if i: "scan_items (Suc n) xs s = Done v r" for xs s v r
  proof -
    obtain w x where s: "scan_once n s = Done w x" "skip_ws x \<noteq> []"
      and r: "r = tl (skip_ws x) \<or> scan_items n (xs @ [w]) (skip_ws (tl (skip_ws x))) = Done v r"
      by (rule scan_items_cases [OF i])
    show ?thesis using once [OF s(1)] by (rule after_shorter) (use r items s(2) in blast)+
  qed
  from 1 2 3 show ?case by blast
qed

lemmas scan_once_shorter = scan_shorter [THEN conjunct1, rule_format]

lemma scan_once_fuel_cases:
  assumes "scan_once (Suc n) s = OutOfFuel"
  shows "s \<noteq> [] \<and> (scan_members n [] (skip_ws (tl s)) = OutOfFuel \<or>
    scan_items n [] (skip_ws (tl s)) = OutOfFuel)"
  using assms unfolding scan_once.simps by (simp split: if_split_asm option.split_asm prod.split_asm)

lemma scan_members_fuel_cases:
  assumes "scan_members (Suc n) acc s = OutOfFuel"
  obtains k t u where "s \<noteq> []" "scan_string (tl s) = Some (k, t)" "skip_ws t = 58 # u"
    "scan_once n (skip_ws u) = OutOfFuel \<or> (\<exists>w x. scan_once n (skip_ws u) = Done w x \<and>
      skip_ws x \<noteq> [] \<and> scan_members n (acc @ [(k, w)]) (skip_ws (tl (skip_ws x))) = OutOfFuel)"
  using assms unfolding scan_members.simps
  by (simp add: expect_Some split: if_split_asm option.split_asm prod.split_asm scan.split_asm)

lemma scan_items_fuel_cases:
  assumes "scan_items (Suc n) xs s = OutOfFuel"
  shows "scan_once n s = OutOfFuel \<or> (\<exists>w x. scan_once n s = Done w x \<and> skip_ws x \<noteq> [] \<and>
    scan_items n (xs @ [w]) (skip_ws (tl (skip_ws x))) = OutOfFuel)"
  using assms unfolding scan_items.simps by (simp split: if_split_asm scan.split_asm)

lemma after_fuel:
  assumes "length t < length s" and "skip_ws t \<noteq> []" and "2 * length s < n"
  shows "2 * length (skip_ws (tl (skip_ws t))) + 1 < n"
  using assms ws_tl_shorter [OF assms(2)] length_skip_ws [of t] by linarith

lemma scan_fuel:
  "(\<forall>s. 2 * length s < n \<longrightarrow> scan_once n s \<noteq> OutOfFuel) \<and>
   (\<forall>acc s. 2 * length s + 1 < n \<longrightarrow> scan_members n acc s \<noteq> OutOfFuel) \<and>
   (\<forall>xs s. 2 * length s + 1 < n \<longrightarrow> scan_items n xs s \<noteq> OutOfFuel)"
proof (induction n)
  case 0
  then show ?case by simp
next
  case (Suc n)
  then have once: "\<And>s. 2 * length s < n \<Longrightarrow> scan_once n s \<noteq> OutOfFuel"
    and members: "\<And>acc s. 2 * length s + 1 < n \<Longrightarrow> scan_members n acc s \<noteq> OutOfFuel"
    and items: "\<And>xs s. 2 * length s + 1 < n \<Longrightarrow> scan_items n xs s \<noteq> OutOfFuel"
    by blast+
  have 1: "scan_once (Suc n) s \<noteq> OutOfFuel" if l: "2 * length s < Suc n" for s
  proof
    assume "scan_once (Suc n) s = OutOfFuel"
    from scan_once_fuel_cases [OF this]
    have s: "s \<noteq> []" and f: "scan_members n [] (skip_ws (tl s)) = OutOfFuel \<or>
      scan_items n [] (skip_ws (tl s)) = OutOfFuel" by auto
    have "2 * length (skip_ws (tl s)) + 1 < n" using ws_tl_shorter [OF s] l by linarith
    with f members items show False by blast
  qed
  have 2: "scan_members (Suc n) acc s \<noteq> OutOfFuel" if l: "2 * length s + 1 < Suc n" for acc s
  proof
    assume "scan_members (Suc n) acc s = OutOfFuel"
    then obtain k t u where s: "s \<noteq> []" "scan_string (tl s) = Some (k, t)" "skip_ws t = 58 # u"
      and r: "scan_once n (skip_ws u) = OutOfFuel \<or> (\<exists>w x. scan_once n (skip_ws u) = Done w x \<and>
        skip_ws x \<noteq> [] \<and> scan_members n (acc @ [(k, w)]) (skip_ws (tl (skip_ws x))) = OutOfFuel)"
      by (rule scan_members_fuel_cases)
    have u: "length (skip_ws u) < length s"
      using length_skip_ws [of t] length_skip_ws [of u] scan_string_shorter [OF s(2)] s(3) by simp
    then have "scan_once n (skip_ws u) \<noteq> OutOfFuel" using once l by simp
    with r obtain w x where x: "scan_once n (skip_ws u) = Done w x" "skip_ws x \<noteq> []"
      "scan_members n (acc @ [(k, w)]) (skip_ws (tl (skip_ws x))) = OutOfFuel" by blast
    have "length x < length s" using scan_once_shorter [OF x(1)] u by simp
    from after_fuel [OF this x(2)] l x(3) members show False by fastforce
  qed
  have 3: "scan_items (Suc n) xs s \<noteq> OutOfFuel" if l: "2 * length s + 1 < Suc n" for xs s
  proof
    assume "scan_items (Suc n) xs s = OutOfFuel"
    from scan_items_fuel_cases [OF this] once [of s] l obtain w x where
      x: "scan_once n s = Done w x" "skip_ws x \<noteq> []"
        "scan_items n (xs @ [w]) (skip_ws (tl (skip_ws x))) = OutOfFuel" by auto
    from after_fuel [OF scan_once_shorter [OF x(1)] x(2)] l x(3) items show False by fastforce
  qed
  from 1 2 3 show ?case by blast
qed

lemma loads_within_fuel: "scan_once (2 * length s + 1) (skip_ws s) \<noteq> OutOfFuel"
  using scan_fuel [of "2 * length s + 1"] length_skip_ws [of s] by simp

section \<open>Strings\<close>

lemma hex4_val_hex4: "n < 65536 \<Longrightarrow> hex4_val (hex4 n @ r) = Some n"
proof -
  assume n: "n < 65536"
  have "((n div 4096 * 16 + n div 256 mod 16) * 16 + n div 16 mod 16) * 16 + n mod 16 = n"
  proof -
    have "n div 4096 = n div 16 div 16 div 16" "n div 256 = n div 16 div 16"
      by (simp_all flip: div_mult2_eq)
    then show ?thesis by (simp only: div_mult_mod_eq)
  qed
  moreover have "n div 4096 < 16" using n by simp
  ultimately show ?thesis
    by (simp add: hex4_val_def hex4_def unhex_hexdig)
qed

lemma length_hex4 [simp]: "length (hex4 n) = 4"
  by (simp add: hex4_def)

lemma scan_string_quote: "scan_string (34 # r) = Some ([], r)"
  by (subst scan_string.simps) simp

lemma scan_string_plain:
  "c \<noteq> 34 \<Longrightarrow> c \<noteq> 92 \<Longrightarrow> 32 \<le> c \<Longrightarrow> scan_string (c # r) = map_option (apfst ((#) c)) (scan_string r)"
  by (subst scan_string.simps) simp

lemma scan_string_escaped:
  "unescape e = Some x \<Longrightarrow> e \<noteq> 117 \<Longrightarrow> scan_string (92 # e # r) = map_option (apfst ((#) x)) (scan_string r)"
  by (subst scan_string.simps) simp

lemma scan_string_u:
  assumes "u < 65536" and "\<not> is_high u"
  shows "scan_string ([92, 117] @ hex4 u @ r) = map_option (apfst ((#) u)) (scan_string r)"
  using assms by (subst scan_string.simps) (simp add: hex4_val_hex4 low_half_def)

lemma scan_string_pair:
  assumes "is_high h" and "is_low l"
  shows "scan_string ([92, 117] @ hex4 h @ [92, 117] @ hex4 l @ r) =
    map_option (apfst ((#) (join_surrogates h l))) (scan_string r)"
proof -
  have "h < 65536" "l < 65536" using assms by (simp_all add: is_high_def is_low_def)
  then have "hex4_val (hex4 h @ [92, 117] @ hex4 l @ r) = Some h"
    "low_half h ([92, 117] @ hex4 l @ r) = Some l"
    using assms by (simp_all add: hex4_val_hex4 low_half_def starts_with_def)
  then show ?thesis by (subst scan_string.simps) simp
qed

lemma scan_string_escape_char:
  assumes "c < 1114112" and "\<not> is_surrogate c"
  shows "scan_string (escape_char c @ r) = map_option (apfst ((#) c)) (scan_string r)"
proof -
  have "\<not> is_high c" using assms(2) by (auto simp: is_surrogate_def is_high_def)
  moreover have "is_high (55296 + (c - 65536) div 1024)" "is_low (56320 + (c - 65536) mod 1024)"
    "65536 \<le> c \<Longrightarrow> join_surrogates (55296 + (c - 65536) div 1024) (56320 + (c - 65536) mod 1024) = c"
    using assms(1) by (auto simp: is_high_def is_low_def join_surrogates_def)
  ultimately show ?thesis
    using scan_string_u [of c r] scan_string_pair [of "55296 + (c - 65536) div 1024" "56320 + (c - 65536) mod 1024" r]
    by (auto simp: escape_char_def scan_string_plain scan_string_escaped unescape_def)
qed

lemma scan_string_dump:
  assumes "encodable s"
  shows "scan_string (concat (map escape_char s) @ 34 # r) = Some (s, r)"
  using assms
  by (induction s) (simp_all add: encodable_def scan_string_quote scan_string_escape_char)

lemma encodable_lit: "list_all (\<lambda>c. of_char c < (128 :: nat)) s \<Longrightarrow> encodable (lit s)"
  by (auto simp: encodable_def lit_def list_all_iff is_surrogate_def)

lemma hexdig_bounds: "d < 16 \<Longrightarrow> 48 \<le> hexdig d \<and> hexdig d < 103"
  by (auto simp: hexdig_def)

definition printable :: "pystr \<Rightarrow> bool" where
  "printable s = list_all (\<lambda>c. 32 \<le> c \<and> c < 127) s"

lemma printable_simps [simp]:
  "printable []" "printable (c # s) = (32 \<le> c \<and> c < 127 \<and> printable s)"
  "printable (s @ t) = (printable s \<and> printable t)"
  by (auto simp: printable_def)

lemma printable_hex4: "n < 65536 \<Longrightarrow> printable (hex4 n)"
  using hexdig_bounds [of "n div 4096"] hexdig_bounds [of "n div 256 mod 16"]
    hexdig_bounds [of "n div 16 mod 16"] hexdig_bounds [of "n mod 16"]
  by (fastforce simp: hex4_def)

lemma printable_escape: "c < 1114112 \<Longrightarrow> printable (escape_char c)"
proof -
  assume c: "c < 1114112"
  then have "55296 + (c - 65536) div 1024 < 65536" "56320 + (c - 65536) mod 1024 < 65536" by auto
  with c show ?thesis by (simp add: escape_char_def printable_hex4)
qed

lemma printable_dump_string: "encodable s \<Longrightarrow> printable (dump_string s)"
  by (induction s) (auto simp: dump_string_def encodable_def printable_escape)

lemma printable_ascii: "printable s \<Longrightarrow> ascii_text s \<and> 0 \<notin> set s"
  by (auto simp: printable_def ascii_text_def list_all_iff)

section \<open>Numbers\<close>

text \<open>A number ends where no further digit, point or exponent follows.\<close>

definition number_end :: "pystr \<Rightarrow> bool" where
  "number_end r = (r = [] \<or> \<not> is_digit (hd r) \<and> hd r \<noteq> 46 \<and> hd r \<noteq> 101 \<and> hd r \<noteq> 69)"

lemma takeWhile_digits:
  "list_all is_digit ds \<Longrightarrow> number_end r \<Longrightarrow> takeWhile is_digit (ds @ r) = ds"
  by (induction ds) (cases r; auto simp: number_end_def)+

lemma number_end_no_frac: "number_end r \<Longrightarrow> scan_frac r = None \<and> scan_exp r = None"
  by (cases r) (auto simp: number_end_def scan_frac_def scan_exp_def)

lemma scan_number_int:
  assumes neg: "(s \<noteq> [] \<and> hd s = 45) = b" and t: "(if b then tl s else s) = t"
    and ip: "(if t \<noteq> [] \<and> hd t = 48 then [48] else takeWhile is_digit t) = ip"
    and r: "drop (length ip) t = r" and "ip \<noteq> []" and "number_end r"
    and "length ip \<le> INT_MAX_STR_DIGITS"
  shows "scan_number s = Some (JInt (if b then - int (digits_val ip) else int (digits_val ip)), r)"
proof -
  have "\<not> INT_MAX_STR_DIGITS < length ip" using assms(7) by simp
  then show ?thesis
    unfolding scan_number_def Let_def neg t ip r
    using assms(5) number_end_no_frac [OF assms(6)] by simp
qed

lemma scan_number_nat:
  assumes "number_end r" and "length (nat_digits n) \<le> INT_MAX_STR_DIGITS"
  shows "scan_number (nat_digits n @ r) = Some (JInt (int n), r)"
    and "scan_number (45 # nat_digits n @ r) = Some (JInt (- int n), r)"
proof -
  have ds: "list_all is_digit (nat_digits n)"
    using nat_digits_are_digits [of n] by (simp add: list_all_iff)
  have "hd (nat_digits n) \<in> set (nat_digits n)" by simp
  then have h: "hd (nat_digits n @ r) \<noteq> 45"
    using nat_digits_are_digits [of n] by (fastforce simp: is_digit_def)
  have ip: "(if nat_digits n @ r \<noteq> [] \<and> hd (nat_digits n @ r) = 48 then [48]
      else takeWhile is_digit (nat_digits n @ r)) = nat_digits n"
    using takeWhile_digits [OF ds assms(1)] nat_digits_head [of n]
    by (cases "n = 0") (auto simp: nat_digits_0)
  show "scan_number (nat_digits n @ r) = Some (JInt (int n), r)"
    using h assms scan_number_int [OF _ _ ip, of "nat_digits n @ r" False r] by simp
  show "scan_number (45 # nat_digits n @ r) = Some (JInt (- int n), r)"
    using assms scan_number_int [OF _ _ ip, of "45 # nat_digits n @ r" True r] by simp
qed

text \<open>The first character decides which atom it can be.\<close>

lemma scan_atom_number:
  assumes "scan_number s = Some (v, r)" and "is_digit (hd s) \<or> hd s = 45 \<and> tl s \<noteq> [] \<and> is_digit (hd (tl s))"
  shows "scan_atom s = Done v r"
proof -
  obtain c t where s: "s = c # t" using scan_number_shorter [OF assms(1)] by (cases s) auto
  with assms(2) have c: "is_digit c \<or> c = 45 \<and> t \<noteq> [] \<and> is_digit (hd t)" by simp
  then have "\<not> starts_with s (lit ''null'')" "\<not> starts_with s (lit ''true'')"
    "\<not> starts_with s (lit ''false'')" "\<not> starts_with s (lit ''NaN'')"
    "\<not> starts_with s (lit ''Infinity'')" "\<not> starts_with s (lit ''-Infinity'')"
    by (cases t; auto simp: s starts_with_def lit_def is_digit_def)+
  with assms(1) show ?thesis by (simp add: scan_atom_def)
qed

lemma scan_atom_str_int:
  assumes "number_end r" and "length (nat_digits (nat \<bar>n\<bar>)) \<le> INT_MAX_STR_DIGITS"
  shows "scan_atom (str_int n @ r) = Done (JInt n) r"
proof -
  have "hd (nat_digits m) \<in> set (nat_digits m)" for m by simp
  then have d: "is_digit (hd (nat_digits m @ r))" for m
    using nat_digits_are_digits [of m] by simp
  show ?thesis
  proof (cases "n < 0")
    case True
    with assms scan_number_nat(2) [of r "nat (- n)"] d show ?thesis
      by (auto simp: str_int_def intro: scan_atom_number)
  next
    case False
    with assms scan_number_nat(1) [of r "nat n"] d show ?thesis
      by (auto simp: str_int_def intro: scan_atom_number)
  qed
qed

lemma scan_atom_literals:
  "scan_atom (lit ''null'' @ r) = Done JNull r" "scan_atom (lit ''true'' @ r) = Done (JBool True) r"
  "scan_atom (lit ''false'' @ r) = Done (JBool False) r" "scan_atom (lit ''NaN'' @ r) = Done (JFloat NaN) r"
  "scan_atom (lit ''Infinity'' @ r) = Done (JFloat PInf) r"
  "scan_atom (lit ''-Infinity'' @ r) = Done (JFloat NInf) r"
  by (simp_all add: scan_atom_def starts_with_def lit_def)

section \<open>Values\<close>

text \<open>\<open>repr\<close> of a finite float is text that reads back as that float.\<close>

definition float_prints :: "(real \<Rightarrow> pystr) \<Rightarrow> real \<Rightarrow> bool" where
  "float_prints frepr x =
     (printable (frepr x) \<and> frepr x \<noteq> [] \<and> (is_digit (hd (frepr x)) \<or> hd (frepr x) = 45) \<and>
      (\<forall>r. number_end r \<longrightarrow> scan_atom (frepr x @ r) = Done (JFloat (Fin x)) r))"

text \<open>The values that survive a round trip: integers \<open>int()\<close> still reads, text without lone
  surrogates, objects without duplicate keys.\<close>

fun json_ok :: "(real \<Rightarrow> pystr) \<Rightarrow> json \<Rightarrow> bool" where
  "json_ok frepr (JInt n) = (length (nat_digits (nat \<bar>n\<bar>)) \<le> INT_MAX_STR_DIGITS)"
| "json_ok frepr (JFloat (Fin x)) = float_prints frepr x"
| "json_ok frepr (JStr s) = encodable s"
| "json_ok frepr (JArr vs) = list_all (json_ok frepr) vs"
| "json_ok frepr (JObj kvs) =
     (distinct (map fst kvs) \<and> list_all (\<lambda>(k, v). encodable k \<and> json_ok frepr v) kvs)"
| "json_ok frepr _ = True"

definition gap :: "pystr \<Rightarrow> bool" where
  "gap w = (list_all is_ws w \<and> printable w)"

lemma skip_ws_gap: "gap w \<Longrightarrow> skip_ws (w @ s) = skip_ws s"
  by (induction w) (auto simp: gap_def skip_ws_def)

lemma skip_ws_id: "s \<noteq> [] \<Longrightarrow> \<not> is_ws (hd s) \<Longrightarrow> skip_ws s = s"
  by (cases s) (auto simp: skip_ws_def)

lemma nat_digits_hd: "is_digit (hd (nat_digits n))"
proof -
  have "hd (nat_digits n) \<in> set (nat_digits n)" by simp
  then show ?thesis using nat_digits_are_digits by blast
qed

lemma dumps_head:
  assumes "json_ok frepr v"
  shows "dumps frepr isep ksep v \<noteq> [] \<and> \<not> is_ws (hd (dumps frepr isep ksep v)) \<and>
    hd (dumps frepr isep ksep v) \<notin> {93, 125}"
proof -
  have "is_digit c \<Longrightarrow> \<not> is_ws c \<and> c \<notin> {93, 125}" for c by (auto simp: is_digit_def is_ws_def)
  note d = this [OF nat_digits_hd] this
  show ?thesis
    using assms d by (cases v; (cases "case v of JFloat x \<Rightarrow> x | _ \<Rightarrow> NaN")?)
      (auto simp: str_int_def dump_string_def lit_def is_ws_def float_prints_def)
qed

lemma dict_of_pairs_distinct: "distinct (map fst kvs) \<Longrightarrow> dict_of_pairs kvs = kvs"
proof -
  have upd: "k \<notin> set (map fst d) \<Longrightarrow> AList.update k v d = d @ [(k, v)]" for k v and d :: "('a \<times> 'b) list"
    by (induction d) auto
  have "distinct (map fst d @ map fst kvs) \<Longrightarrow> fold (\<lambda>(k, v). AList.update k v) kvs d = d @ kvs" for d
    by (induction kvs arbitrary: d) (auto simp: upd)
  from this [of "[]"] show "distinct (map fst kvs) \<Longrightarrow> ?thesis" by (simp add: dict_of_pairs_def)
qed

lemma skip_ws_at [simp]:
  "skip_ws (44 # s) = 44 # s" "skip_ws (93 # s) = 93 # s" "skip_ws (125 # s) = 125 # s"
  "skip_ws (58 # s) = 58 # s" "skip_ws (34 # s) = 34 # s"
  by (simp_all add: skip_ws_def is_ws_def)

lemma number_end_at [simp]: "number_end (44 # s)" "number_end (93 # s)" "number_end (125 # s)" "number_end []"
  by (simp_all add: number_end_def is_digit_def)

text \<open>One value of a list or object, given that its own text reads back.\<close>

definition reads_back :: "(json \<Rightarrow> pystr) \<Rightarrow> json \<Rightarrow> bool" where
  "reads_back pr v =
     (\<forall>n r. number_end r \<longrightarrow> 2 * length (pr v) < n \<longrightarrow> scan_once n (pr v @ r) = Done v r)"

lemma reads_backI:
  "(\<And>m r. number_end r \<Longrightarrow> 2 * length (pr v) \<le> m \<Longrightarrow> scan_once (Suc m) (pr v @ r) = Done v r) \<Longrightarrow>
   reads_back pr v"
  unfolding reads_back_def using less_imp_Suc_add by (metis less_Suc_eq_le Suc_le_D Suc_le_eq)

lemma scan_items_print:
  assumes "list_all (\<lambda>v. reads_back pr v \<and> pr v \<noteq> [] \<and> \<not> is_ws (hd (pr v))) vs" and "vs \<noteq> []"
    and "gap w" and "2 * length (join (44 # w) (map pr vs)) + 2 < n"
  shows "scan_items n acc (join (44 # w) (map pr vs) @ 93 # r) = Done (JArr (acc @ vs)) r"
  using assms
proof (induction vs arbitrary: acc n)
  case Nil
  then show ?case by simp
next
  case (Cons v vs)
  obtain m where n: "n = Suc m" using Cons.prems(4) by (cases n) auto
  have v: "number_end t \<Longrightarrow> 2 * length (pr v) < m \<Longrightarrow> scan_once m (pr v @ t) = Done v t" for t
    using Cons.prems(1) by (simp add: reads_back_def)
  show ?case
  proof (cases vs)
    case Nil
    from v [of "93 # r"] Cons.prems(4) show ?thesis by (simp add: n Nil)
  next
    case (Cons v' vs')
    let ?rest = "join (44 # w) (map pr vs) @ 93 # r"
    have j: "join (44 # w) (map pr (v # vs)) = pr v @ 44 # w @ join (44 # w) (map pr vs)"
      by (simp add: Cons)
    have "pr v' \<noteq> [] \<and> \<not> is_ws (hd (pr v'))" using Cons.prems(1) Cons by simp
    then have "?rest \<noteq> [] \<and> \<not> is_ws (hd ?rest)"
      by (cases vs') (auto simp: Cons hd_append)
    then have ws: "skip_ws (w @ ?rest) = ?rest"
      using Cons.prems(3) by (simp add: skip_ws_gap skip_ws_id)
    have "scan_once m (pr v @ 44 # w @ ?rest) = Done v (44 # w @ ?rest)"
      using v Cons.prems(4) unfolding n j by simp
    moreover have "scan_items m (acc @ [v]) ?rest = Done (JArr ((acc @ [v]) @ vs)) r"
      using Cons.prems Cons by (intro Cons.IH) (auto simp: n)
    ultimately show ?thesis unfolding n j by (simp add: ws)
  qed
qed

definition print_member :: "pystr \<Rightarrow> (json \<Rightarrow> pystr) \<Rightarrow> pystr \<times> json \<Rightarrow> pystr" where
  "print_member ksep pr = (\<lambda>(k, v). dump_string k @ ksep @ pr v)"

lemma scan_members_print:
  assumes "list_all (\<lambda>(k, v). encodable k \<and> reads_back pr v \<and> pr v \<noteq> [] \<and> \<not> is_ws (hd (pr v))) kvs"
    and "kvs \<noteq> []" and "gap w" and "gap u"
    and "2 * length (join (44 # w) (map (print_member (58 # u) pr) kvs)) + 2 < n"
  shows "scan_members n acc (join (44 # w) (map (print_member (58 # u) pr) kvs) @ 125 # r) =
    Done (JObj (dict_of_pairs (acc @ kvs))) r"
  using assms
proof (induction kvs arbitrary: acc n)
  case Nil
  then show ?case by simp
next
  case (Cons kv kvs)
  obtain m where n: "n = Suc m" using Cons.prems(5) by (cases n) auto
  obtain k v where kv: "kv = (k, v)" by (cases kv)
  have v: "number_end t \<Longrightarrow> 2 * length (pr v) < m \<Longrightarrow> scan_once m (pr v @ t) = Done v t" for t
    using Cons.prems(1) by (simp add: reads_back_def kv)
  have k: "scan_string (concat (map escape_char k) @ 34 # t) = Some (k, t)" for t
    using Cons.prems(1) by (simp add: scan_string_dump kv)
  have ws: "skip_ws (u @ pr v @ t) = pr v @ t" for t
    using Cons.prems(1,4) by (simp add: skip_ws_gap skip_ws_id kv)
  let ?pm = "print_member (58 # u) pr"
  have pm: "?pm kv = 34 # concat (map escape_char k) @ 34 # 58 # u @ pr v"
    by (simp add: kv print_member_def dump_string_def)
  show ?case
  proof (cases kvs)
    case Nil
    from v [of "125 # r"] Cons.prems(5) show ?thesis
      by (simp add: n Nil pm k ws kv [symmetric])
  next
    case (Cons kv' kvs')
    let ?rest = "join (44 # w) (map ?pm kvs) @ 125 # r"
    have j: "join (44 # w) (map ?pm (kv # kvs)) =
        34 # concat (map escape_char k) @ 34 # 58 # u @ pr v @ 44 # w @ join (44 # w) (map ?pm kvs)"
      by (simp add: Cons pm)
    have "?rest \<noteq> [] \<and> \<not> is_ws (hd ?rest)"
      by (cases kvs'; cases kv') (simp_all add: Cons print_member_def dump_string_def is_ws_def)
    then have w: "skip_ws (w @ ?rest) = ?rest"
      using Cons.prems(3) by (simp add: skip_ws_gap skip_ws_id)
    have "scan_once m (pr v @ 44 # w @ ?rest) = Done v (44 # w @ ?rest)"
      using v Cons.prems(5) unfolding n j by simp
    moreover have "scan_members m (acc @ [kv]) ?rest = Done (JObj (dict_of_pairs ((acc @ [kv]) @ kvs))) r"
      using Cons.prems Cons by (intro Cons.IH) (auto simp: n pm)
    ultimately show ?thesis unfolding n j by (simp add: w ws k kv)
  qed
qed

lemma dumps_reads_back:
  assumes w: "gap w" and u: "gap u"
  shows "json_ok frepr v \<Longrightarrow> reads_back (dumps frepr (44 # w) (58 # u)) v"
proof (induction v)
  case (JFloat x)
  have "scan_atom (dump_float frepr x @ r) = Done (JFloat x) r" if "number_end r" for r
    using JFloat that by (cases x) (auto simp: float_prints_def scan_atom_literals)
  moreover have "hd (dump_float frepr x) \<noteq> 34 \<and> hd (dump_float frepr x) \<noteq> 123 \<and> hd (dump_float frepr x) \<noteq> 91 \<and>
      dump_float frepr x \<noteq> []"
    using JFloat by (cases x) (auto simp: float_prints_def is_digit_def lit_def)
  ultimately show ?case by (intro reads_backI) simp
next
  case (JInt n)
  have "hd (str_int n) \<noteq> 34 \<and> hd (str_int n) \<noteq> 123 \<and> hd (str_int n) \<noteq> 91 \<and> str_int n \<noteq> []"
    using nat_digits_hd [of "nat n"] by (auto simp: str_int_def is_digit_def)
  with JInt show ?case by (intro reads_backI) (simp add: scan_atom_str_int)
next
  case (JStr s)
  then show ?case by (intro reads_backI) (simp add: dump_string_def scan_string_dump)
next
  case (JArr vs)
  let ?pr = "dumps frepr (44 # w) (58 # u)"
  have ok: "list_all (\<lambda>v. reads_back ?pr v \<and> ?pr v \<noteq> [] \<and> \<not> is_ws (hd (?pr v))) vs"
    using JArr dumps_head by (auto simp: list_all_iff)
  show ?case
  proof (cases vs)
    case Nil
    then show ?thesis by (intro reads_backI) (simp add: lit_def)
  next
    case (Cons v' vs')
    have "json_ok frepr v'" using JArr.prems Cons by simp
    from dumps_head [OF this, of "44 # w" "58 # u"] have h: "skip_ws (join (44 # w) (map ?pr vs) @ 93 # r) = join (44 # w) (map ?pr vs) @ 93 # r \<and>
        expect 93 (join (44 # w) (map ?pr vs) @ 93 # r) = None" for r
      by (cases vs'; cases "?pr v'") (auto simp: Cons skip_ws_def)
    show ?thesis
    proof (rule reads_backI)
      fix m r assume l: "2 * length (?pr (JArr vs)) \<le> m"
      have "scan_items m [] (join (44 # w) (map ?pr vs) @ 93 # r) = Done (JArr ([] @ vs)) r"
        using l Cons by (intro scan_items_print [OF ok _ w]) auto
      with h show "scan_once (Suc m) (?pr (JArr vs) @ r) = Done (JArr vs) r" by (simp add: lit_def)
    qed
  qed
next
  case (JObj kvs)
  let ?pr = "dumps frepr (44 # w) (58 # u)"
  have ok: "list_all (\<lambda>(k, v). encodable k \<and> reads_back ?pr v \<and> ?pr v \<noteq> [] \<and> \<not> is_ws (hd (?pr v))) kvs"
    using JObj dumps_head by (fastforce simp: list_all_iff)
  have pm: "map (\<lambda>(k, v). dump_string k @ (58 # u) @ ?pr v) kvs = map (print_member (58 # u) ?pr) kvs"
    by (simp add: print_member_def)
  show ?case
  proof (cases kvs)
    case Nil
    then show ?thesis by (intro reads_backI) (simp add: lit_def)
  next
    case (Cons kv' kvs')
    have h: "skip_ws (join (44 # w) (map (print_member (58 # u) ?pr) kvs) @ 125 # r) =
          join (44 # w) (map (print_member (58 # u) ?pr) kvs) @ 125 # r \<and>
        expect 125 (join (44 # w) (map (print_member (58 # u) ?pr) kvs) @ 125 # r) = None" for r
      by (cases kvs'; cases kv') (auto simp: Cons print_member_def dump_string_def)
    show ?thesis
    proof (rule reads_backI)
      fix m r assume l: "2 * length (?pr (JObj kvs)) \<le> m"
      have "scan_members m [] (join (44 # w) (map (print_member (58 # u) ?pr) kvs) @ 125 # r) =
          Done (JObj (dict_of_pairs ([] @ kvs))) r"
        using l Cons unfolding dumps.simps pm by (intro scan_members_print [OF ok _ w u]) auto
      moreover have "dict_of_pairs kvs = kvs" using JObj.prems by (simp add: dict_of_pairs_distinct)
      ultimately show "scan_once (Suc m) (?pr (JObj kvs) @ r) = Done (JObj kvs) r"
        unfolding dumps.simps pm using h by (simp add: lit_def)
    qed
  qed
qed (auto intro!: reads_backI simp: lit_def scan_atom_literals [unfolded lit_def, simplified])

lemma printable_join: "printable sep \<Longrightarrow> (\<And>x. x \<in> set xs \<Longrightarrow> printable x) \<Longrightarrow> printable (join sep xs)"
  by (induction sep xs rule: join.induct) auto

lemma printable_str_int: "printable (str_int n)"
proof -
  have "printable (nat_digits m)" for m
    using nat_digits_are_digits [of m] by (auto simp: printable_def list_all_iff is_digit_def)
  then show ?thesis by (simp add: str_int_def)
qed

lemma printable_dumps:
  assumes "printable isep" and "printable ksep"
  shows "json_ok frepr v \<Longrightarrow> printable (dumps frepr isep ksep v)"
proof (induction v)
  case (JFloat x)
  then show ?case by (cases x) (auto simp: float_prints_def lit_def)
next
  case (JArr vs)
  then show ?case using assms by (auto simp: lit_def list_all_iff intro!: printable_join)
next
  case (JObj kvs)
  then show ?case using assms
    by (fastforce simp: lit_def list_all_iff intro!: printable_join printable_dump_string)
qed (auto simp: lit_def printable_str_int printable_dump_string)

lemma loads_dumps:
  assumes "gap w" and "gap u" and "json_ok frepr v"
  shows "loads (dumps frepr (44 # w) (58 # u) v) = Some v"
proof -
  let ?s = "dumps frepr (44 # w) (58 # u) v"
  have p: "printable ?s" using assms by (intro printable_dumps) (auto simp: gap_def)
  have h: "?s \<noteq> []" "skip_ws ?s = ?s"
    using dumps_head [OF assms(3), of "44 # w" "58 # u"] by (simp_all add: skip_ws_id)
  have "hd ?s \<noteq> 65279" using p h(1) by (cases ?s) auto
  moreover have "scan_once (2 * length ?s + 1) (?s @ []) = Done v []"
    by (rule dumps_reads_back [OF assms(1,2,3), unfolded reads_back_def, rule_format]) auto
  ultimately show ?thesis unfolding loads_def h(2) using h(1)
    by (simp del: scan_once.simps add: skip_ws_def)
qed

lemma separators:
  "dumps_default frepr = dumps frepr (44 # [32]) (58 # [32])"
  "dumps_compact frepr = dumps frepr (44 # []) (58 # [])"
  "gap [32]" "gap []"
  by (simp_all add: dumps_default_def dumps_compact_def lit_def gap_def is_ws_def)

text \<open>Both printers, as text and encoded.\<close>

lemma loads_dumps_default: "json_ok frepr v \<Longrightarrow> loads (dumps_default frepr v) = Some v"
  unfolding separators by (rule loads_dumps) (auto simp: separators)

lemma loads_dumps_compact: "json_ok frepr v \<Longrightarrow> loads (dumps_compact frepr v) = Some v"
  unfolding separators by (rule loads_dumps) (auto simp: separators)

lemma printable_dumps_default: "json_ok frepr v \<Longrightarrow> printable (dumps_default frepr v)"
  unfolding separators by (rule printable_dumps) auto

lemma printable_dumps_compact: "json_ok frepr v \<Longrightarrow> printable (dumps_compact frepr v)"
  unfolding separators by (rule printable_dumps) auto

lemma loads_bytes_printable: "printable s \<Longrightarrow> loads_bytes (ascii_bytes s) = loads s"
  using printable_ascii [of s] by (simp add: loads_bytes_def decode_detected_ascii)

lemma utf8_encode_printable: "printable s \<Longrightarrow> utf8_encode s = Inr (ascii_bytes s)"
  using printable_ascii [of s] by (simp add: utf8_encode_ascii)

end
