(* ===== verification/PyNum.thy ===== *)
theory PyNum
  imports JsonLaws
begin

text \<open>
  The conversions the node applies to values it did not make: \<open>str.strip\<close>, \<open>int()\<close> of text and of
  a decoded JSON value, \<open>str()\<close>, subscripts and \<open>dict.get\<close> of a JSON value, truth. White space and
  decimal digits are the Unicode ones, as in CPython. \<open>repr\<close> of a float or container is a parameter
  where it is needed.
\<close>

section \<open>Text\<close>

definition is_space :: "nat \<Rightarrow> bool" where
  "is_space c = (9 \<le> c \<and> c \<le> 13 \<or> 28 \<le> c \<and> c \<le> 32 \<or> c = 133 \<or> c = 160 \<or> c = 5760 \<or>
     8192 \<le> c \<and> c \<le> 8202 \<or> c = 8232 \<or> c = 8233 \<or> c = 8239 \<or> c = 8287 \<or> c = 12288)"

definition trim :: "(nat \<Rightarrow> bool) \<Rightarrow> pystr \<Rightarrow> pystr" where
  "trim P s = rev (dropWhile P (rev (dropWhile P s)))"

definition strip :: "pystr \<Rightarrow> pystr" where
  "strip s = trim is_space s"

text \<open>\<open>s.rstrip(c)\<close> for a single character.\<close>

definition rstrip_char :: "nat \<Rightarrow> pystr \<Rightarrow> pystr" where
  "rstrip_char c s = rev (dropWhile (\<lambda>d. d = c) (rev s))"

text \<open>\<open>s.split(sep)\<close> for a single character: always at least one field.\<close>

fun split_on :: "nat \<Rightarrow> pystr \<Rightarrow> pystr list" where
  "split_on c [] = [[]]"
| "split_on c (x # xs) =
     (if x = c then [] # split_on c xs
      else (case split_on c xs of [] \<Rightarrow> [[x]] | f # fs \<Rightarrow> (x # f) # fs))"

text \<open>\<open>s.partition(c)\<close> and \<open>s.rpartition(c)\<close>: the two sides, when the separator is there.\<close>

definition partition_at :: "nat \<Rightarrow> pystr \<Rightarrow> (pystr \<times> pystr) option" where
  "partition_at c s =
     (if c \<in> set s then Some (takeWhile (\<lambda>d. d \<noteq> c) s, tl (dropWhile (\<lambda>d. d \<noteq> c) s)) else None)"

definition rpartition_at :: "nat \<Rightarrow> pystr \<Rightarrow> (pystr \<times> pystr) option" where
  "rpartition_at c s =
     map_option (\<lambda>(b, a). (rev a, rev b)) (partition_at c (rev s))"

text \<open>\<open>s.lower()\<close> of ASCII text; other characters are left alone.\<close>

definition ascii_lower :: "pystr \<Rightarrow> pystr" where
  "ascii_lower s = map (\<lambda>c. if 65 \<le> c \<and> c \<le> 90 then c + 32 else c) s"

section \<open>\<open>int()\<close>\<close>

text \<open>Each decimal digit block of Unicode starts at its zero.\<close>

definition digit_zeros :: "nat list" where
  "digit_zeros = [48, 1632, 1776, 1984, 2406, 2534, 2662, 2790, 2918, 3046, 3174, 3302, 3430, 3558,
     3664, 3792, 3872, 4160, 4240, 6112, 6160, 6470, 6608, 6784, 6800, 6992, 7088, 7232, 7248, 42528,
     43216, 43264, 43472, 43504, 43600, 44016, 65296, 66720, 68912, 69734, 69872, 69942, 70096, 70384,
     70736, 70864, 71248, 71360, 71472, 71904, 72016, 72784, 73040, 73120, 92768, 92864, 93008, 120782,
     120792, 120802, 120812, 120822, 123200, 123632, 125264, 130032]"

text \<open>The digit a character stands for, written as its ASCII code.\<close>

definition ascii_digit :: "nat \<Rightarrow> nat option" where
  "ascii_digit c =
     (case filter (\<lambda>z. z \<le> c \<and> c \<le> z + 9) digit_zeros of [] \<Rightarrow> None | z # _ \<Rightarrow> Some (48 + (c - z)))"

text \<open>A run of digits with single underscores between them.\<close>

fun digit_run :: "pystr \<Rightarrow> pystr option" where
  "digit_run [] = None"
| "digit_run [c] = map_option (\<lambda>d. [d]) (ascii_digit c)"
| "digit_run (c # x # cs) =
     (case ascii_digit c of
        None \<Rightarrow> None
      | Some d \<Rightarrow> map_option ((#) d) (if x = 95 then digit_run cs else digit_run (x # cs)))"

definition int_space :: "nat \<Rightarrow> bool" where
  "int_space c = (is_space c \<and> \<not> (28 \<le> c \<and> c \<le> 31))"

definition int_of_text :: "pystr \<Rightarrow> exn + int" where
  "int_of_text s =
     (let t = trim int_space s;
          neg = (t \<noteq> [] \<and> hd t = 45);
          body = (if t \<noteq> [] \<and> (hd t = 45 \<or> hd t = 43) then tl t else t)
      in (case digit_run body of
            None \<Rightarrow> Inl ValueError
          | Some ds \<Rightarrow> if length ds > INT_MAX_STR_DIGITS then Inl ValueError
                        else Inr (if neg then - int (digits_val ds) else int (digits_val ds))))"

fun int_of_float :: "pyfloat \<Rightarrow> exn + int" where
  "int_of_float (Fin x) = Inr (py_trunc x)"
| "int_of_float PInf = Inl OverflowError"
| "int_of_float NInf = Inl OverflowError"
| "int_of_float NaN = Inl ValueError"

fun py_int :: "json \<Rightarrow> exn + int" where
  "py_int (JInt n) = Inr n"
| "py_int (JBool b) = Inr (if b then 1 else 0)"
| "py_int (JFloat x) = int_of_float x"
| "py_int (JStr s) = int_of_text s"
| "py_int _ = Inl TypeError"

section \<open>Other operations on JSON values\<close>

text \<open>\<open>str(v)\<close>; \<open>rp\<close> is \<open>repr\<close> of a float or a container.\<close>

fun py_str :: "(json \<Rightarrow> pystr) \<Rightarrow> json \<Rightarrow> pystr" where
  "py_str rp JNull = lit ''None''"
| "py_str rp (JBool b) = (if b then lit ''True'' else lit ''False'')"
| "py_str rp (JInt n) = str_int n"
| "py_str rp (JStr s) = s"
| "py_str rp v = rp v"

text \<open>\<open>v[k]\<close> with a text key, and \<open>v.get(k)\<close> of a dictionary (absent is \<open>None\<close>).\<close>

fun subscript :: "json \<Rightarrow> pystr \<Rightarrow> exn + json" where
  "subscript (JObj d) k = (case map_of d k of None \<Rightarrow> Inl KeyError | Some v \<Rightarrow> Inr v)"
| "subscript _ k = Inl TypeError"

definition dict_get :: "(pystr, json) dict \<Rightarrow> pystr \<Rightarrow> json" where
  "dict_get d k = (case map_of d k of None \<Rightarrow> JNull | Some v \<Rightarrow> v)"

fun truthy :: "json \<Rightarrow> bool" where
  "truthy JNull = False"
| "truthy (JBool b) = b"
| "truthy (JInt n) = (n \<noteq> 0)"
| "truthy (JFloat x) = (x \<noteq> Fin 0)"
| "truthy (JStr s) = (s \<noteq> [])"
| "truthy (JArr vs) = (vs \<noteq> [])"
| "truthy (JObj d) = (d \<noteq> [])"

fun is_str :: "json \<Rightarrow> bool" where
  "is_str (JStr s) = True"
| "is_str _ = False"

section \<open>\<open>int(str(n)) = n\<close>\<close>

lemma ascii_digit_digit: "is_digit c \<Longrightarrow> ascii_digit c = Some c"
  by (auto simp: ascii_digit_def digit_zeros_def is_digit_def)

lemma digit_run_digits: "list_all is_digit ds \<Longrightarrow> ds \<noteq> [] \<Longrightarrow> digit_run ds = Some ds"
  by (induction ds rule: digit_run.induct) (auto simp: ascii_digit_digit is_digit_def)

lemma trim_id: "s \<noteq> [] \<Longrightarrow> \<not> P (hd s) \<Longrightarrow> \<not> P (last s) \<Longrightarrow> trim P s = s"
  by (simp add: trim_def dropWhile_eq_self_iff [THEN iffD2] hd_rev)

lemma trim_nil [simp]: "trim P [] = []"
  by (simp add: trim_def)

lemma digit_not_space: "is_digit c \<Longrightarrow> \<not> int_space c \<and> \<not> is_space c"
  by (auto simp: is_digit_def int_space_def is_space_def)

lemma nat_digits_ends: "is_digit (hd (nat_digits n))" "is_digit (last (nat_digits n))"
proof -
  have "hd (nat_digits n) \<in> set (nat_digits n)" "last (nat_digits n) \<in> set (nat_digits n)" by simp_all
  then show "is_digit (hd (nat_digits n))" "is_digit (last (nat_digits n))"
    using nat_digits_are_digits by blast+
qed

lemma int_of_text_str_int:
  assumes "length (nat_digits (nat \<bar>n\<bar>)) \<le> INT_MAX_STR_DIGITS"
  shows "int_of_text (str_int n) = Inr n"
proof -
  have run: "digit_run (nat_digits m) = Some (nat_digits m)" for m
    using nat_digits_are_digits [of m] by (intro digit_run_digits) (simp_all add: list_all_iff)
  have "trim int_space (str_int n) = str_int n"
    using nat_digits_ends digit_not_space
    by (intro trim_id) (auto simp: str_int_def int_space_def is_space_def)
  moreover have "hd (nat_digits (nat n)) \<noteq> 45" "hd (nat_digits (nat n)) \<noteq> 43"
    using nat_digits_ends(1) [of "nat n"] by (auto simp: is_digit_def)
  ultimately show ?thesis
    using assms run by (cases "n < 0") (simp_all add: int_of_text_def Let_def, simp_all add: str_int_def)
qed

end
