(* ===== verification/MeshCore.thy ===== *)
theory MeshCore
  imports PyNum
begin

text \<open>
  The parts of meshlink-core (a git submodule, not in this repository) that the node calls, as
  parameters: the message record it parses packets into, and one record of functions. \<open>None\<close> is a
  \<open>ValueError\<close> where the documented behaviour of the function is to raise one on malformed input.
  Nothing is assumed of these functions but their types, except where a lemma names a hypothesis.
\<close>

record message =
  msg_id :: bytes
  sender_key :: bytes
  ephem_id :: bytes
  msg_ttl :: int
  spray_l :: int
  msg_zone :: int
  msg_type :: int
  msg_timestamp :: int
  msg_payload :: bytes

text \<open>A capability token and a revocation, as far as the node reads them.\<close>

type_synonym rev_key = "bytes \<times> bytes \<times> int \<times> bytes"

record cap_token =
  issuer_id :: bytes
  grantee_id :: bytes
  issued_at :: int
  token_nonce :: bytes

record revocation =
  rv_issuer_id :: bytes
  rv_grantee_id :: bytes
  rv_key :: rev_key

text \<open>\<open>LocationResponsePayload\<close>, and the arguments of \<open>build_signed_packet\<close>.\<close>

record location_response =
  target_id :: bytes
  resp_lat :: int
  resp_lon :: int
  resp_accuracy :: int
  beacon_age :: int
  resp_zone :: int

record packet_spec =
  ps_ephem :: bytes
  ps_ttl :: int
  ps_spray_l :: int
  ps_zone :: int
  ps_type :: int
  ps_payload :: bytes

text \<open>The message types of the wire format the node names. \<open>LOCATION\<close> is documented as \<open>0x02\<close>;
  the others are numbered in meshlink-core.\<close>

record core =
  parse_packet :: "bytes \<Rightarrow> message option"
  pubkey_id :: "bytes \<Rightarrow> exn + bytes"
  decode_location_query :: "bytes \<Rightarrow> bytes option"
  parse_capability_token :: "bytes \<Rightarrow> cap_token option"
  revocation_key :: "cap_token \<Rightarrow> rev_key"
  verify_capability_token :: "bytes \<Rightarrow> bytes \<Rightarrow> bytes \<Rightarrow> int \<Rightarrow> bool"
  decode_location_revoke :: "bytes \<Rightarrow> revocation option"
  decode_location_beacon :: "bytes \<Rightarrow> (int \<times> int \<times> int) option"
  encode_location_response :: "location_response \<Rightarrow> bytes \<Rightarrow> bytes \<Rightarrow> exn + bytes"
  build_signed_packet :: "packet_spec \<Rightarrow> exn + bytes"
  type_location :: int
  type_location_query :: int
  type_location_revoke :: int
  type_location_response :: int

end
