(* ===== verification/Directory.thy ===== *)
theory Directory
  imports PyNum
begin

text \<open>
  \<open>node/directory/cache.py\<close>: the offline copy of the user directory. \<open>pubkey_id\<close> belongs to
  meshlink-core and is a parameter (it may raise on a malformed key). A directory row is whatever
  JSON the backend sent. \<open>disk\<close> is the content of the cache file, if it exists. The network is the
  parameter \<open>fetched\<close>: the body of the response, or the exception of the request.
\<close>

record directory =
  users_by_name :: "(json, json) dict"
  users_by_ed_id :: "(bytes, json) dict"
  disk :: "pystr option"
  dir_url :: pystr

text \<open>What \<open>for u in users\<close> runs over.\<close>

fun iterate :: "json \<Rightarrow> exn + json list" where
  "iterate (JArr vs) = Inr vs"
| "iterate (JObj d) = Inr (map (\<lambda>(k, v). JStr k) d)"
| "iterate (JStr s) = Inr (map (\<lambda>c. JStr [c]) s)"
| "iterate _ = Inl TypeError"

text \<open>A dictionary key: lists and dictionaries are not hashable, and \<open>1\<close>, \<open>1.0\<close> and \<open>True\<close> are one key.\<close>

fun hash_key :: "json \<Rightarrow> exn + json" where
  "hash_key (JArr vs) = Inl TypeError"
| "hash_key (JObj d) = Inl TypeError"
| "hash_key (JBool b) = Inr (JInt (if b then 1 else 0))"
| "hash_key (JFloat (Fin x)) = Inr (if x = of_int \<lfloor>x\<rfloor> then JInt \<lfloor>x\<rfloor> else JFloat (Fin x))"
| "hash_key v = Inr v"

fun py_fromhex :: "json \<Rightarrow> exn + bytes" where
  "py_fromhex (JStr s) = (case fromhex s of None \<Rightarrow> Inl ValueError | Some b \<Rightarrow> Inr b)"
| "py_fromhex _ = Inl TypeError"

definition name_key :: "json \<Rightarrow> exn + json" where
  "name_key u = (case subscript u (lit ''username'') of Inl e \<Rightarrow> Inl e | Inr v \<Rightarrow> hash_key v)"

definition ed_key :: "(bytes \<Rightarrow> exn + bytes) \<Rightarrow> json \<Rightarrow> exn + bytes" where
  "ed_key pubkey_id u =
     (case subscript u (lit ''ed25519_pub'') of
        Inl e \<Rightarrow> Inl e
      | Inr v \<Rightarrow> (case py_fromhex v of Inl e \<Rightarrow> Inl e | Inr b \<Rightarrow> pubkey_id b))"

text \<open>\<open>{key(u): u for u in users}\<close>: the first exception ends it.\<close>

fun comprehend :: "(json \<Rightarrow> exn + 'k) \<Rightarrow> json list \<Rightarrow> exn + ('k \<times> json) list" where
  "comprehend key [] = Inr []"
| "comprehend key (u # us) =
     (case key u of
        Inl e \<Rightarrow> Inl e
      | Inr k \<Rightarrow> (case comprehend key us of Inl e \<Rightarrow> Inl e | Inr ps \<Rightarrow> Inr ((k, u) # ps)))"

definition dir_index :: "(bytes \<Rightarrow> exn + bytes) \<Rightarrow> json \<Rightarrow> directory \<Rightarrow> exn + directory" where
  "dir_index pubkey_id users d =
     (case iterate users of
        Inl e \<Rightarrow> Inl e
      | Inr us \<Rightarrow>
          (case comprehend name_key us of
             Inl e \<Rightarrow> Inl e
           | Inr names \<Rightarrow>
               (case comprehend (ed_key pubkey_id) us of
                  Inl e \<Rightarrow> Inl e
                | Inr ids \<Rightarrow> Inr (d\<lparr>users_by_name := dict_of_pairs names,
                                    users_by_ed_id := dict_of_pairs ids\<rparr>))))"

text \<open>\<open>__init__\<close>: a readable cache file is indexed; \<open>ValueError\<close> and \<open>KeyError\<close> are logged, anything
  else leaves the constructor. \<open>None\<close> is a file whose text cannot be decoded.\<close>

definition directory_url :: "pystr \<Rightarrow> pystr \<Rightarrow> pystr" where
  "directory_url base_url event_id = rstrip_char 47 base_url @ lit ''/directory/sync?event_id='' @ event_id"

definition dir_boot ::
  "pystr \<Rightarrow> pystr \<Rightarrow> (bytes \<Rightarrow> exn + bytes) \<Rightarrow> pystr option \<Rightarrow> exn + directory" where
  "dir_boot base_url event_id pubkey_id file =
     (let d = \<lparr>users_by_name = [], users_by_ed_id = [], disk = file, dir_url = directory_url base_url event_id\<rparr>
      in (case file of
            None \<Rightarrow> Inr d
          | Some s \<Rightarrow>
              (case (case loads s of None \<Rightarrow> Inl ValueError | Some users \<Rightarrow> dir_index pubkey_id users d) of
                 Inl e \<Rightarrow> if is_value_error e \<or> e = KeyError then Inr d else Inl e
               | Inr d' \<Rightarrow> Inr d')))"

definition fetch_users :: "exn + bytes \<Rightarrow> exn + json" where
  "fetch_users fetched =
     (case fetched of
        Inl e \<Rightarrow> Inl e
      | Inr body \<Rightarrow> (case loads_bytes body of
            None \<Rightarrow> Inl ValueError
          | Some v \<Rightarrow> subscript v (lit ''users'')))"

text \<open>\<open>refresh\<close>: whether it synced, or the exception that leaves it; only the fetch is inside the
  \<open>try\<close>. \<open>disk_fault\<close> is an exception of writing the cache file.\<close>

definition refresh ::
  "(bytes \<Rightarrow> exn + bytes) \<Rightarrow> (real \<Rightarrow> pystr) \<Rightarrow> exn option \<Rightarrow> exn + bytes \<Rightarrow> directory
   \<Rightarrow> (exn + bool) \<times> directory" where
  "refresh pubkey_id frepr disk_fault fetched d =
     (case fetch_users fetched of
        Inl e \<Rightarrow> ((if e = OSError \<or> is_value_error e \<or> e = KeyError then Inr False else Inl e), d)
      | Inr users \<Rightarrow>
          (case dir_index pubkey_id users d of
             Inl e \<Rightarrow> (Inl e, d)
           | Inr d' \<Rightarrow>
               (case disk_fault of
                  Some e \<Rightarrow> (Inl e, d')
                | None \<Rightarrow> (Inr True, d'\<lparr>disk := Some (dumps_default frepr users)\<rparr>))))"

definition by_username :: "directory \<Rightarrow> pystr \<Rightarrow> json option" where
  "by_username d username = map_of (users_by_name d) (JStr username)"

definition by_ed25519_id :: "directory \<Rightarrow> bytes \<Rightarrow> json option" where
  "by_ed25519_id d i = map_of (users_by_ed_id d) i"

definition account_for :: "(bytes \<Rightarrow> exn + bytes) \<Rightarrow> directory \<Rightarrow> bytes \<Rightarrow> exn + json option" where
  "account_for pubkey_id d sender_key =
     (if length sender_key \<noteq> 32 then Inr None
      else (case pubkey_id sender_key of Inl e \<Rightarrow> Inl e | Inr i \<Rightarrow> Inr (by_ed25519_id d i)))"

definition user_count :: "directory \<Rightarrow> nat" where
  "user_count d = length (users_by_name d)"

section \<open>Lemmas\<close>

lemma comprehend_last:
  "comprehend key us = Inr ps \<Longrightarrow>
   map_of (dict_of_pairs ps) k = find (\<lambda>u. key u = Inr k) (rev us)"
proof -
  have "comprehend key us = Inr ps \<Longrightarrow> map_of (rev ps @ qs) k =
      (case find (\<lambda>u. key u = Inr k) (rev us) of Some u \<Rightarrow> Some u | None \<Rightarrow> map_of qs k)" for qs
  proof (induction us arbitrary: ps qs)
    case Nil
    then show ?case by simp
  next
    case (Cons u us)
    from Cons.prems obtain k' ps' where p: "key u = Inr k'" "comprehend key us = Inr ps'" "ps = (k', u) # ps'"
      by (auto split: sum.splits)
    have "find P (xs @ [x]) = (case find P xs of Some y \<Rightarrow> Some y | None \<Rightarrow> if P x then Some x else None)"
      for P and x :: json and xs by (induction xs) auto
    then show ?case
      using Cons.IH [OF p(2), of "(k', u) # qs"] p by (auto split: option.splits)
  qed
  from this [of "[]"] show "comprehend key us = Inr ps \<Longrightarrow> ?thesis"
    by (simp add: map_of_dict_of_pairs split: option.splits)
qed

text \<open>What indexing makes depends on the rows only, not on what was there.\<close>

lemma dir_index_fresh:
  "dir_index pk users d = Inr d' \<Longrightarrow>
   \<exists>x. dir_index pk users e = Inr x \<and> users_by_name x = users_by_name d' \<and>
     users_by_ed_id x = users_by_ed_id d' \<and> disk x = disk e \<and> disk d' = disk d"
  by (auto simp: dir_index_def split: sum.splits)

section \<open>Properties\<close>

text \<open>Offline first: a refresh that does not succeed, whether it answers \<open>False\<close> or raises,
  leaves both lookup tables and the copy on disk as they were (given that the file can be written).\<close>

theorem failed_refresh_keeps_copy:
  assumes "refresh pubkey_id frepr None fetched d = (r, d')" and "r \<noteq> Inr True"
  shows "d' = d"
  using assms by (auto simp: refresh_def split: sum.splits if_splits)

theorem failed_refresh_keeps_copy_witness:
  "by_ed25519_id (snd (refresh (\<lambda>b. Inr (take 8 b)) (\<lambda>_. []) None (Inl OSError)
     \<lparr>users_by_name = [], users_by_ed_id = [([1], JObj [])], disk = None, dir_url = []\<rparr>)) [1] = Some (JObj [])"
  using failed_refresh_keeps_copy [OF surjective_pairing, of "\<lambda>b. Inr (take 8 b)" "\<lambda>_. []" "Inl OSError"
      "\<lparr>users_by_name = [], users_by_ed_id = [([1], JObj [])], disk = None, dir_url = []\<rparr>"]
  by (simp add: refresh_def fetch_users_def by_ed25519_id_def)

text \<open>C35. A synced directory survives a reboot without the backend: when the rows are JSON that
  prints, indexing the written cache file gives the same answers.\<close>

theorem directory_survives_reboot:
  assumes "refresh pubkey_id frepr None fetched d = (Inr True, d')"
    and "fetch_users fetched = Inr users" and "json_ok frepr users"
  shows "\<exists>b. dir_boot base_url event_id pubkey_id (disk d') = Inr b \<and> by_username b = by_username d' \<and>
    by_ed25519_id b = by_ed25519_id d' \<and> user_count b = user_count d'"
proof -
  obtain x where x: "dir_index pubkey_id users d = Inr x" and d': "d' = x\<lparr>disk := Some (dumps_default frepr users)\<rparr>"
    using assms(1,2) by (auto simp: refresh_def split: sum.splits if_splits)
  from dir_index_fresh [OF x, of "\<lparr>users_by_name = [], users_by_ed_id = [], disk = disk d', dir_url = directory_url base_url event_id\<rparr>"] obtain y where
    y: "dir_index pubkey_id users \<lparr>users_by_name = [], users_by_ed_id = [], disk = disk d', dir_url = directory_url base_url event_id\<rparr> = Inr y"
      "users_by_name y = users_by_name x" "users_by_ed_id y = users_by_ed_id x" by blast
  have "dir_boot base_url event_id pubkey_id (disk d') = Inr y"
    using y(1) loads_dumps_default [OF assms(3)] by (simp add: dir_boot_def d')
  with y(2,3) show ?thesis by (simp add: d' by_username_def by_ed25519_id_def user_count_def fun_eq_iff)
qed

text \<open>The row the witnesses use, and the response of a backend that serves it.\<close>

definition sample_user :: json where
  "sample_user = JObj [(lit ''username'', JStr (lit ''ann'')), (lit ''ed25519_pub'', JStr (lit ''ff01''))]"

definition sample_response :: "json \<Rightarrow> bytes" where
  "sample_response users = ascii_bytes (dumps_default (\<lambda>_. []) (JObj [(lit ''users'', users)]))"

lemma sample_fetch:
  assumes "json_ok (\<lambda>_. []) users"
  shows "fetch_users (Inr (sample_response users)) = Inr users"
proof -
  let ?v = "JObj [(lit ''users'', users)]"
  have ok: "json_ok (\<lambda>_. []) ?v"
    using assms by (simp add: encodable_def lit_def is_surrogate_def)
  have "loads_bytes (sample_response users) = Some ?v"
    using loads_dumps_default [OF ok] loads_bytes_printable [OF printable_dumps_default [OF ok]]
    by (simp add: sample_response_def)
  then show ?thesis by (simp add: fetch_users_def)
qed

lemma sample_user_ok: "json_ok (\<lambda>_. []) sample_user"
  by (simp add: sample_user_def encodable_def lit_def is_surrogate_def)

lemma sample_user_keys:
  "name_key sample_user = Inr (JStr (lit ''ann''))" "ed_key Inr sample_user = Inr [255, 1]"
  by (simp_all add: name_key_def ed_key_def sample_user_def, simp add: lit_def unhex_def ascii_space_def)

lemma sample_refresh:
  "refresh Inr (\<lambda>_. []) None (Inr (sample_response (JArr [sample_user]))) d =
    (Inr True, d\<lparr>users_by_name := [(JStr (lit ''ann''), sample_user)],
       users_by_ed_id := [([255, 1], sample_user)],
       disk := Some (dumps_default (\<lambda>_. []) (JArr [sample_user]))\<rparr>)"
proof -
  have "fetch_users (Inr (sample_response (JArr [sample_user]))) = Inr (JArr [sample_user])"
    by (rule sample_fetch) (simp add: sample_user_ok)
  then show ?thesis
    by (simp add: refresh_def dir_index_def sample_user_keys dict_of_pairs_def)
qed

theorem directory_survives_reboot_witness:
  "\<exists>b. dir_boot [] [] Inr (Some (dumps_default (\<lambda>_. []) (JArr [sample_user]))) = Inr b \<and>
     by_ed25519_id b [255, 1] = Some sample_user"
proof -
  have "json_ok (\<lambda>_. []) (JArr [sample_user])" by (simp add: sample_user_ok)
  from directory_survives_reboot [OF sample_refresh sample_fetch [OF this] this,
      of "[]" "[]" "\<lparr>users_by_name = [], users_by_ed_id = [], disk = None, dir_url = []\<rparr>"]
  obtain b where "dir_boot [] [] Inr (Some (dumps_default (\<lambda>_. []) (JArr [sample_user]))) = Inr b"
    and "by_ed25519_id b = by_ed25519_id \<lparr>users_by_name = [(JStr (lit ''ann''), sample_user)],
      users_by_ed_id = [([255, 1], sample_user)],
      disk = Some (dumps_default (\<lambda>_. []) (JArr [sample_user])), dir_url = []\<rparr>" by auto
  then show ?thesis
    by (intro exI [of _ b]) (simp, simp add: by_ed25519_id_def)
qed

text \<open>After a successful refresh a key id resolves to the last row of the response with that
  id, and to nothing when no row has it.\<close>

theorem refresh_resolves_last_row:
  assumes "refresh pubkey_id frepr None fetched d = (Inr True, d')"
    and "fetch_users fetched = Inr (JArr us)"
  shows "by_ed25519_id d' i = find (\<lambda>u. ed_key pubkey_id u = Inr i) (rev us) \<and>
    by_username d' n = find (\<lambda>u. name_key u = Inr (JStr n)) (rev us)"
proof -
  obtain names ids where "comprehend name_key us = Inr names" "comprehend (ed_key pubkey_id) us = Inr ids"
    and "users_by_name d' = dict_of_pairs names" "users_by_ed_id d' = dict_of_pairs ids"
    using assms by (auto simp: refresh_def dir_index_def split: sum.splits if_splits)
  then show ?thesis by (simp add: by_ed25519_id_def by_username_def comprehend_last)
qed

theorem refresh_resolves_last_row_witness:
  "by_username (snd (refresh Inr (\<lambda>_. []) None (Inr (sample_response (JArr [sample_user])))
     \<lparr>users_by_name = [], users_by_ed_id = [], disk = None, dir_url = []\<rparr>)) (lit ''bob'') = None"
proof -
  have "json_ok (\<lambda>_. []) (JArr [sample_user])" by (simp add: sample_user_ok)
  from refresh_resolves_last_row [OF sample_refresh sample_fetch [OF this],
      of "\<lparr>users_by_name = [], users_by_ed_id = [], disk = None, dir_url = []\<rparr>" _ "lit ''bob''"]
  show ?thesis by (simp add: sample_refresh sample_user_keys)
qed

text \<open>One malformed row stops the sync: when the backend answers with a row that lacks its
  \<open>username\<close>, \<open>refresh\<close> does not return \<open>False\<close> but raises \<open>KeyError\<close>, outside its \<open>try\<close>.\<close>

theorem malformed_row_escapes_refresh:
  assumes "fetch_users fetched = Inr (JArr (good @ JObj row # rest))"
    and "\<forall>u\<in>set good. \<exists>k. name_key u = Inr k" and "map_of row (lit ''username'') = None"
  shows "refresh pubkey_id frepr disk_fault fetched d = (Inl KeyError, d)"
proof -
  have "comprehend name_key (good @ JObj row # rest) = Inl KeyError"
    using assms(2,3) by (induction good) (auto simp: name_key_def)
  then show ?thesis using assms(1) by (simp add: refresh_def dir_index_def)
qed

theorem malformed_row_escapes_refresh_witness:
  "refresh Inr (\<lambda>_. []) None (Inr (sample_response (JArr [sample_user, JObj []]))) d = (Inl KeyError, d)"
proof -
  have "json_ok (\<lambda>_. []) (JArr [sample_user, JObj []])" by (simp add: sample_user_ok)
  from malformed_row_escapes_refresh [of _ "[sample_user]" "[]" "[]", simplified, OF sample_fetch [OF this]]
  show ?thesis by (simp add: sample_user_keys)
qed

end
