(* ===== verification/LocationStore.thy ===== *)
theory LocationStore
  imports Prelude
begin

text \<open>
  \<open>node/location/store.py\<close>: the latest coordinate of each identity. The clock reading is an
  argument; rows are kept in a dictionary keyed by the sender key.
\<close>

record location_row =
  lat_microdeg :: int
  lon_microdeg :: int
  accuracy_m :: int
  row_zone_id :: int
  last_beacon_ts :: real

type_synonym location_store = "(bytes, location_row) dict"

definition store_update :: "real \<Rightarrow> bytes \<Rightarrow> int \<Rightarrow> int \<Rightarrow> int \<Rightarrow> int \<Rightarrow> location_store \<Rightarrow> location_store" where
  "store_update now identity lat lon acc zone_id rows =
     AList.update identity
       \<lparr>lat_microdeg = lat, lon_microdeg = lon, accuracy_m = acc, row_zone_id = zone_id,
        last_beacon_ts = now\<rparr> rows"

definition store_get :: "bytes \<Rightarrow> location_store \<Rightarrow> location_row option" where
  "store_get identity rows = map_of rows identity"

definition beacon_age_s :: "real \<Rightarrow> location_row \<Rightarrow> int" where
  "beacon_age_s now row = max 0 (py_trunc (now - last_beacon_ts row))"

definition row_count :: "bytes \<Rightarrow> location_store \<Rightarrow> nat" where
  "row_count identity rows = (if identity \<in> set (map fst rows) then 1 else 0)"

definition forget :: "bytes \<Rightarrow> location_store \<Rightarrow> location_store" where
  "forget identity rows = AList.delete identity rows"

section \<open>Histories\<close>

datatype store_event = Beacon real bytes int int int int | Forget bytes

fun store_step :: "store_event \<Rightarrow> location_store \<Rightarrow> location_store" where
  "store_step (Beacon now i lat lon acc z) rows = store_update now i lat lon acc z rows"
| "store_step (Forget i) rows = forget i rows"

definition store_run :: "store_event list \<Rightarrow> location_store \<Rightarrow> location_store" where
  "store_run es rows = fold store_step es rows"

fun about :: "bytes \<Rightarrow> store_event \<Rightarrow> bool" where
  "about i (Beacon now j lat lon acc z) = (i = j)"
| "about i (Forget j) = (i = j)"

text \<open>What the last event about an identity leaves of it.\<close>

fun left_by :: "store_event \<Rightarrow> location_row option" where
  "left_by (Beacon now i lat lon acc z) =
     Some \<lparr>lat_microdeg = lat, lon_microdeg = lon, accuracy_m = acc, row_zone_id = z, last_beacon_ts = now\<rparr>"
| "left_by (Forget i) = None"

lemma store_step_map:
  "map_of (store_step e rows) i = (if about i e then left_by e else map_of rows i)"
  by (cases e) (auto simp: store_update_def forget_def map_of_delete_eq)

lemma store_step_wf: "wf_dict rows \<Longrightarrow> wf_dict (store_step e rows)"
  by (cases e) (auto simp: store_update_def forget_def)

lemma store_run_wf: "wf_dict rows \<Longrightarrow> wf_dict (store_run es rows)"
  unfolding store_run_def by (induction es arbitrary: rows) (auto intro: store_step_wf)

lemma store_run_snoc: "store_run (es @ [e]) rows = store_step e (store_run es rows)"
  by (simp add: store_run_def)

section \<open>Properties\<close>

text \<open>No movement trail: after any sequence of beacons and forgets the store holds for an
  identity exactly what its last event left, at most one row, and there is no second row anywhere.\<close>

theorem store_keeps_latest_only:
  "store_get i (store_run es []) =
     (case filter (about i) es of [] \<Rightarrow> None | e # rest \<Rightarrow> left_by (last (e # rest))) \<and>
   length (filter (\<lambda>p. fst p = i) (store_run es [])) = row_count i (store_run es []) \<and>
   row_count i (store_run es []) \<le> 1"
proof -
  have latest: "map_of (store_run es []) i =
      (if filter (about i) es = [] then None else left_by (last (filter (about i) es)))"
    by (induction es rule: rev_induct) (simp_all add: store_run_def store_step_map)
  have one: "wf_dict rows \<Longrightarrow> length (filter (\<lambda>p. fst p = i) rows) = row_count i rows"
    for rows :: location_store
  proof (induction rows)
    case (Cons r rows)
    have "fst r \<notin> set (map fst rows) \<Longrightarrow> filter (\<lambda>p. fst p = fst r) rows = []"
      by (induction rows) auto
    with Cons show ?case by (auto simp: row_count_def)
  qed (simp add: row_count_def)
  show ?thesis
    using latest one [OF store_run_wf [of "[]" es]]
    by (auto simp: store_get_def row_count_def split: list.splits)
qed

end
