(* ===== verification/LocationAuthz.thy ===== *)
theory LocationAuthz
  imports MeshCore Directory LocationStore
begin

text \<open>
  \<open>node/location/authz.py\<close>: capability enforcement for location queries. The state is the revocation
  set and the time each (requester, target) pair last passed the rate limit. Every early return of
  \<open>handle_query\<close> is the answer \<open>None\<close>, whatever the reason; an exception of a core function or of a
  malformed directory row leaves the function. \<open>now\<close> is the reading of the authz clock, \<open>snow\<close> the
  later one of the store's.
\<close>

record authz =
  min_interval_s :: real
  revoked :: "rev_key set"
  last_query :: "(bytes \<times> bytes, real) dict"

definition authz_init :: "real \<Rightarrow> authz" where
  "authz_init interval = \<lparr>min_interval_s = interval, revoked = {}, last_query = []\<rparr>"

definition last_time :: "authz \<Rightarrow> bytes \<times> bytes \<Rightarrow> real" where
  "last_time a pair = (case map_of (last_query a) pair of None \<Rightarrow> 0 | Some t \<Rightarrow> t)"

text \<open>\<open>bytes.fromhex(row[key])\<close>.\<close>

definition row_key :: "json \<Rightarrow> string \<Rightarrow> exn + bytes" where
  "row_key row k = (case subscript row (lit k) of Inl e \<Rightarrow> Inl e | Inr v \<Rightarrow> py_fromhex v)"

text \<open>The answer once the row of the target is known.\<close>

definition answer_query ::
  "core \<Rightarrow> directory \<Rightarrow> real \<Rightarrow> bytes \<Rightarrow> cap_token \<Rightarrow> location_row \<Rightarrow> exn + bytes option" where
  "answer_query c dir snow requester_id token row =
     (case by_ed25519_id dir requester_id of
        None \<Rightarrow> Inr None
      | Some requester \<Rightarrow>
          (case row_key requester ''curve25519_pub'' of
             Inl e \<Rightarrow> Inl e
           | Inr curve \<Rightarrow>
               (case encode_location_response c
                  \<lparr>target_id = issuer_id token, resp_lat = lat_microdeg row, resp_lon = lon_microdeg row,
                   resp_accuracy = accuracy_m row, beacon_age = beacon_age_s snow row,
                   resp_zone = row_zone_id row\<rparr> requester_id curve of
                  Inl e \<Rightarrow> Inl e
                | Inr payload \<Rightarrow> Inr (Some payload))))"

text \<open>The token of a query, its verified target key and the requester, or the refusal \<open>None\<close>.\<close>

definition admit_query ::
  "core \<Rightarrow> directory \<Rightarrow> real \<Rightarrow> message \<Rightarrow> authz \<Rightarrow> exn + (bytes \<times> cap_token \<times> bytes) option" where
  "admit_query c dir now msg a =
     (case decode_location_query c (msg_payload msg) of
        None \<Rightarrow> Inr None
      | Some raw_token \<Rightarrow>
     (case parse_capability_token c raw_token of
        None \<Rightarrow> Inr None
      | Some token \<Rightarrow>
     (case pubkey_id c (sender_key msg) of
        Inl e \<Rightarrow> Inl e
      | Inr requester_id \<Rightarrow>
     (if grantee_id token \<noteq> requester_id then Inr None
      else (case by_ed25519_id dir (issuer_id token) of
        None \<Rightarrow> Inr None
      | Some target \<Rightarrow>
     (case row_key target ''ed25519_pub'' of
        Inl e \<Rightarrow> Inl e
      | Inr target_ed_pub \<Rightarrow>
     (if \<not> verify_capability_token c raw_token target_ed_pub (sender_key msg) (py_trunc now) then Inr None
      else if revocation_key c token \<in> revoked a then Inr None
      else Inr (Some (requester_id, token, target_ed_pub)))))))))"

definition handle_query ::
  "core \<Rightarrow> directory \<Rightarrow> location_store \<Rightarrow> real \<Rightarrow> real \<Rightarrow> message \<Rightarrow> authz \<Rightarrow> (exn + bytes option) \<times> authz" where
  "handle_query c dir store now snow msg a =
     (case admit_query c dir now msg a of
        Inl e \<Rightarrow> (Inl e, a)
      | Inr None \<Rightarrow> (Inr None, a)
      | Inr (Some (requester_id, token, target_ed_pub)) \<Rightarrow>
          (let pair = (requester_id, issuer_id token)
           in if now - last_time a pair < min_interval_s a then (Inr None, a)
              else (let a' = a\<lparr>last_query := AList.update pair now (last_query a)\<rparr>
                    in (case store_get target_ed_pub store of
                          None \<Rightarrow> (Inr None, a')
                        | Some row \<Rightarrow> (answer_query c dir snow requester_id token row, a')))))"

definition handle_revoke :: "core \<Rightarrow> message \<Rightarrow> authz \<Rightarrow> (exn + bool) \<times> authz" where
  "handle_revoke c msg a =
     (case decode_location_revoke c (msg_payload msg) of
        None \<Rightarrow> (Inr False, a)
      | Some payload \<Rightarrow>
          (case pubkey_id c (sender_key msg) of
             Inl e \<Rightarrow> (Inl e, a)
           | Inr i \<Rightarrow>
               (if i \<noteq> rv_issuer_id payload then (Inr False, a)
                else (Inr True, a\<lparr>revoked := insert (rv_key payload) (revoked a)\<rparr>))))"

section \<open>Lemmas\<close>

text \<open>Consent: what a query must have shown before anything about the target is read.\<close>

definition consented ::
  "core \<Rightarrow> directory \<Rightarrow> real \<Rightarrow> message \<Rightarrow> authz \<Rightarrow> bytes \<Rightarrow> cap_token \<Rightarrow> bytes \<Rightarrow> bool" where
  "consented c dir now msg a requester_id token target_ed_pub =
     (\<exists>raw target. decode_location_query c (msg_payload msg) = Some raw \<and>
        parse_capability_token c raw = Some token \<and>
        pubkey_id c (sender_key msg) = Inr requester_id \<and> grantee_id token = requester_id \<and>
        by_ed25519_id dir (issuer_id token) = Some target \<and>
        row_key target ''ed25519_pub'' = Inr target_ed_pub \<and>
        verify_capability_token c raw target_ed_pub (sender_key msg) (py_trunc now) \<and>
        revocation_key c token \<notin> revoked a)"

lemma admit_query_iff:
  "admit_query c dir now msg a = Inr (Some (r, t, k)) \<longleftrightarrow> consented c dir now msg a r t k"
  by (auto simp: admit_query_def consented_def split: option.splits sum.splits)

lemma handle_query_state:
  "revoked (snd (handle_query c dir store now snow msg a)) = revoked a \<and>
   min_interval_s (snd (handle_query c dir store now snow msg a)) = min_interval_s a"
  by (simp add: handle_query_def Let_def split: sum.splits option.splits prod.splits)

lemma handle_query_served:
  assumes "handle_query c dir store now snow msg a = (Inr (Some p), a')"
  obtains r t k row where "consented c dir now msg a r t k" "store_get k store = Some row"
    "now - last_time a (r, issuer_id t) \<ge> min_interval_s a"
    "a' = a\<lparr>last_query := AList.update (r, issuer_id t) now (last_query a)\<rparr>"
    "answer_query c dir snow r t row = Inr (Some p)"
proof -
  obtain r t k where "admit_query c dir now msg a = Inr (Some (r, t, k))"
    using assms by (auto simp: handle_query_def split: sum.splits option.splits)
  moreover from this have "consented c dir now msg a r t k" by (simp only: admit_query_iff)
  ultimately show thesis
    using assms that by (auto simp: handle_query_def Let_def split: if_splits option.splits)
qed

text \<open>The pair of a query is fixed by its message, so its limit is too.\<close>

definition query_pair :: "core \<Rightarrow> message \<Rightarrow> (bytes \<times> bytes) option" where
  "query_pair c msg =
     (case pubkey_id c (sender_key msg) of
        Inl e \<Rightarrow> None
      | Inr r \<Rightarrow> Option.bind (decode_location_query c (msg_payload msg))
          (\<lambda>raw. map_option (\<lambda>t. (r, issuer_id t)) (parse_capability_token c raw)))"

lemma consented_pair: "consented c dir now msg a r t k \<Longrightarrow> query_pair c msg = Some (r, issuer_id t)"
  by (auto simp: consented_def query_pair_def)

lemma handle_query_last_time:
  "last_time (snd (handle_query c dir store now snow msg a)) p = last_time a p \<or>
   last_time (snd (handle_query c dir store now snow msg a)) p = now \<and>
     now - last_time a p \<ge> min_interval_s a"
  by (auto simp: handle_query_def Let_def last_time_def split: sum.splits option.splits)

section \<open>Histories\<close>

text \<open>Queries and revocations in any order, each with the world it meets.\<close>

datatype authz_event =
    Query directory location_store real real message
  | Revoke message

fun authz_step :: "core \<Rightarrow> authz_event \<Rightarrow> authz \<Rightarrow> authz" where
  "authz_step c (Query dir store now snow msg) a = snd (handle_query c dir store now snow msg a)"
| "authz_step c (Revoke msg) a = snd (handle_revoke c msg a)"

definition authz_run :: "core \<Rightarrow> authz_event list \<Rightarrow> authz \<Rightarrow> authz" where
  "authz_run c es a = fold (authz_step c) es a"

lemma authz_step_revoked: "revoked a \<subseteq> revoked (authz_step c e a)"
  by (cases e) (auto simp: handle_query_state handle_revoke_def split: option.splits sum.splits)

lemma authz_run_revoked: "revoked a \<subseteq> revoked (authz_run c es a)"
  unfolding authz_run_def by (induction es arbitrary: a) (auto dest: subsetD [OF authz_step_revoked])

lemma authz_step_interval: "min_interval_s (authz_step c e a) = min_interval_s a"
  by (cases e) (auto simp: handle_query_state handle_revoke_def split: option.splits sum.splits)

lemma authz_step_last_time:
  assumes "0 \<le> min_interval_s a"
  shows "last_time a p \<le> last_time (authz_step c e a) p"
proof (cases e)
  case (Query dir store now snow msg)
  then show ?thesis
    using handle_query_last_time [of c dir store now snow msg a p] assms by auto
next
  case (Revoke msg)
  then show ?thesis by (auto simp: handle_revoke_def last_time_def split: option.splits sum.splits)
qed

lemma authz_run_interval: "min_interval_s (authz_run c es a) = min_interval_s a"
  unfolding authz_run_def by (induction es arbitrary: a) (auto simp: authz_step_interval)

lemma authz_run_last_time:
  "0 \<le> min_interval_s a \<Longrightarrow> last_time a p \<le> last_time (authz_run c es a) p"
proof (induction es arbitrary: a)
  case Nil
  then show ?case by (simp add: authz_run_def)
next
  case (Cons e es)
  have "last_time a p \<le> last_time (authz_step c e a) p"
    using Cons.prems by (rule authz_step_last_time)
  also have "\<dots> \<le> last_time (authz_run c es (authz_step c e a)) p"
    using Cons.prems by (intro Cons.IH) (simp add: authz_step_interval)
  finally show ?case by (simp add: authz_run_def)
qed

section \<open>A concrete world\<close>

text \<open>One instance of the core functions, for the witnesses: ids are the first two bytes of a key, a
  query is its token, and a token is the two ids.\<close>

definition sample_core :: core where
  "sample_core = \<lparr>parse_packet = (\<lambda>_. None), pubkey_id = (\<lambda>k. Inr (take 2 k)), decode_location_query = Some,
     parse_capability_token = (\<lambda>b. Some \<lparr>issuer_id = take 2 b, grantee_id = take 2 (drop 2 b),
       issued_at = 0, token_nonce = []\<rparr>),
     revocation_key = (\<lambda>t. (issuer_id t, grantee_id t, issued_at t, token_nonce t)),
     verify_capability_token = (\<lambda>_ _ _ _. True),
     decode_location_revoke = (\<lambda>b. Some \<lparr>rv_issuer_id = take 2 b, rv_grantee_id = take 2 (drop 2 b),
       rv_key = (take 2 b, take 2 (drop 2 b), 0, [])\<rparr>),
     decode_location_beacon = (\<lambda>b. None), encode_location_response = (\<lambda>r i k. Inr (i @ k)),
     build_signed_packet = (\<lambda>p. Inr (ps_payload p)),
     type_location = 2, type_location_query = 7, type_location_revoke = 9, type_location_response = 8\<rparr>"

definition sample_query :: message where
  "sample_query = \<lparr>msg_id = [], sender_key = [3, 4], ephem_id = [], msg_ttl = 3, spray_l = 1, msg_zone = 1,
     msg_type = 7, msg_timestamp = 0, msg_payload = [1, 2, 3, 4]\<rparr>"

definition sample_row :: "string \<Rightarrow> json" where
  "sample_row k = JObj [(lit ''ed25519_pub'', JStr (lit k)), (lit ''curve25519_pub'', JStr (lit ''aa''))]"

definition sample_dir :: directory where
  "sample_dir = \<lparr>users_by_name = [], users_by_ed_id = [([1, 2], sample_row ''0102''), ([3, 4], sample_row ''0304'')],
     disk = None, dir_url = []\<rparr>"

definition sample_store :: location_store where
  "sample_store = store_update 5 [1, 2] 10 20 3 1 []"

lemma sample_row_key: "row_key (sample_row ''0102'') ''ed25519_pub'' = Inr [1, 2]"
  "row_key (sample_row ''0304'') ''curve25519_pub'' = Inr [170]"
  by (simp_all add: row_key_def sample_row_def lit_def unhex_def ascii_space_def)

lemmas sample_defs = sample_core_def sample_query_def sample_dir_def sample_store_def authz_init_def

lemma sample_served:
  assumes "60 \<le> t" and "revoked a = {}" and "min_interval_s a = 60" and "t - last_time a ([3, 4], [1, 2]) \<ge> 60"
  shows "handle_query sample_core sample_dir sample_store t t sample_query a =
    (Inr (Some [3, 4, 170]), a\<lparr>last_query := AList.update ([3, 4], [1, 2]) t (last_query a)\<rparr>)"
proof -
  have dir: "by_ed25519_id sample_dir [1, 2] = Some (sample_row ''0102'')"
    "by_ed25519_id sample_dir [3, 4] = Some (sample_row ''0304'')"
    by (simp_all add: by_ed25519_id_def sample_dir_def)
  have "admit_query sample_core sample_dir t sample_query a =
      Inr (Some ([3, 4], \<lparr>issuer_id = [1, 2], grantee_id = [3, 4], issued_at = 0, token_nonce = []\<rparr>, [1, 2]))"
    using assms(2) by (simp add: admit_query_def sample_core_def sample_query_def dir sample_row_key)
  moreover have "store_get [1, 2] sample_store = Some \<lparr>lat_microdeg = 10, lon_microdeg = 20, accuracy_m = 3,
      row_zone_id = 1, last_beacon_ts = 5\<rparr>"
    by (simp add: sample_store_def store_update_def store_get_def)
  moreover have "answer_query sample_core sample_dir t [3, 4]
      \<lparr>issuer_id = [1, 2], grantee_id = [3, 4], issued_at = 0, token_nonce = []\<rparr>
      \<lparr>lat_microdeg = 10, lon_microdeg = 20, accuracy_m = 3, row_zone_id = 1, last_beacon_ts = 5\<rparr> =
      Inr (Some [3, 4, 170])"
    by (simp add: answer_query_def dir sample_row_key sample_core_def)
  ultimately show ?thesis using assms(3,4) by (simp add: handle_query_def Let_def)
qed

section \<open>Properties\<close>

text \<open>C6. A coordinate is served only with consent: the query carried a token that parses, names the
  sender as its grantee, verifies under the long-term key the directory holds for its issuer, and is
  not revoked; the target has a row; and the answer is that row sealed to the requester.\<close>

theorem served_only_with_consent:
  assumes "handle_query c dir store now snow msg a = (Inr (Some p), a')"
  shows "\<exists>r t k row requester curve. consented c dir now msg a r t k \<and> store_get k store = Some row \<and>
    by_ed25519_id dir r = Some requester \<and> row_key requester ''curve25519_pub'' = Inr curve \<and>
    encode_location_response c
      \<lparr>target_id = issuer_id t, resp_lat = lat_microdeg row, resp_lon = lon_microdeg row,
       resp_accuracy = accuracy_m row, beacon_age = beacon_age_s snow row, resp_zone = row_zone_id row\<rparr>
      r curve = Inr p"
proof -
  obtain r t k row where q: "consented c dir now msg a r t k" "store_get k store = Some row"
    "answer_query c dir snow r t row = Inr (Some p)" using assms by (rule handle_query_served)
  from q(3) show ?thesis
    by (intro exI [of _ r] exI [of _ t] exI [of _ k] exI [of _ row])
      (use q(1,2) in \<open>auto simp: answer_query_def split: option.splits sum.splits\<close>)
qed

theorem served_only_with_consent_witness:
  "\<exists>r t k. consented sample_core sample_dir 100 sample_query (authz_init 60) r t k"
proof -
  have "handle_query sample_core sample_dir sample_store 100 100 sample_query (authz_init 60) =
      (Inr (Some [3, 4, 170]), (authz_init 60)\<lparr>last_query :=
        AList.update ([3, 4], [1, 2]) 100 (last_query (authz_init 60))\<rparr>)"
    by (rule sample_served) (simp_all add: authz_init_def last_time_def)
  from served_only_with_consent [OF this] show ?thesis by blast
qed

text \<open>The rate limit holds over every history: two served queries of one requester for one target
  are at least the minimum interval apart, whatever queries and revocations come in between.\<close>

theorem served_queries_spaced:
  assumes "handle_query c dir\<^sub>1 store\<^sub>1 now\<^sub>1 snow\<^sub>1 msg\<^sub>1 a = (Inr (Some p\<^sub>1), a\<^sub>1)"
    and "handle_query c dir\<^sub>2 store\<^sub>2 now\<^sub>2 snow\<^sub>2 msg\<^sub>2 (authz_run c es a\<^sub>1) = (Inr (Some p\<^sub>2), a\<^sub>2)"
    and "query_pair c msg\<^sub>1 = query_pair c msg\<^sub>2" and "0 \<le> min_interval_s a"
  shows "now\<^sub>2 - now\<^sub>1 \<ge> min_interval_s a"
proof -
  obtain r t k where 1: "consented c dir\<^sub>1 now\<^sub>1 msg\<^sub>1 a r t k"
    "a\<^sub>1 = a\<lparr>last_query := AList.update (r, issuer_id t) now\<^sub>1 (last_query a)\<rparr>"
    using assms(1) by (rule handle_query_served)
  let ?b = "authz_run c es a\<^sub>1"
  obtain r' t' k' where 2: "consented c dir\<^sub>2 now\<^sub>2 msg\<^sub>2 ?b r' t' k'"
    "now\<^sub>2 - last_time ?b (r', issuer_id t') \<ge> min_interval_s ?b"
    using assms(2) by (rule handle_query_served)
  have p: "(r', issuer_id t') = (r, issuer_id t)"
    using consented_pair [OF 1(1)] consented_pair [OF 2(1)] assms(3) by simp
  have "min_interval_s ?b = min_interval_s a" by (simp add: authz_run_interval 1(2))
  moreover have "now\<^sub>1 = last_time a\<^sub>1 (r, issuer_id t)" by (simp add: 1(2) last_time_def)
  moreover have "\<dots> \<le> last_time ?b (r, issuer_id t)"
    using assms(4) by (intro authz_run_last_time) (simp add: 1(2))
  ultimately show ?thesis using 2(2) unfolding p by linarith
qed

theorem served_queries_spaced_witness:
  "fst (handle_query sample_core sample_dir sample_store 100 100 sample_query (authz_init 60)) =
     Inr (Some [3, 4, 170]) \<and> (170 :: real) - 100 \<ge> min_interval_s (authz_init 60)"
proof -
  let ?a = "(authz_init 60)\<lparr>last_query := AList.update ([3, 4], [1, 2]) 100 (last_query (authz_init 60))\<rparr>"
  have 1: "handle_query sample_core sample_dir sample_store 100 100 sample_query (authz_init 60) =
      (Inr (Some [3, 4, 170]), ?a)"
    by (rule sample_served) (simp_all add: authz_init_def last_time_def)
  have 2: "handle_query sample_core sample_dir sample_store 170 170 sample_query (authz_run sample_core [] ?a) =
      (Inr (Some [3, 4, 170]), ?a\<lparr>last_query := AList.update ([3, 4], [1, 2]) 170 (last_query ?a)\<rparr>)"
    unfolding authz_run_def fold_simps by (rule sample_served) (simp_all add: authz_init_def last_time_def)
  from served_queries_spaced [OF 1 2] 1 show ?thesis by (simp add: authz_init_def)
qed

text \<open>Revocation is effective and permanent: once a revocation is accepted, no later query with a
  token of that revocation key is ever answered, whatever happens in between.\<close>

theorem revoked_never_served:
  assumes "handle_revoke c rmsg a = (Inr True, a\<^sub>1)"
    and "decode_location_revoke c (msg_payload rmsg) = Some payload"
    and "decode_location_query c (msg_payload msg) = Some raw"
    and "parse_capability_token c raw = Some token" and "revocation_key c token = rv_key payload"
  shows "fst (handle_query c dir store now snow msg (authz_run c es a\<^sub>1)) \<noteq> Inr (Some p)"
proof
  assume "fst (handle_query c dir store now snow msg (authz_run c es a\<^sub>1)) = Inr (Some p)"
  then obtain a' where "handle_query c dir store now snow msg (authz_run c es a\<^sub>1) = (Inr (Some p), a')"
    by (cases "handle_query c dir store now snow msg (authz_run c es a\<^sub>1)") auto
  then obtain r t k where q: "consented c dir now msg (authz_run c es a\<^sub>1) r t k" by (rule handle_query_served)
  have "rv_key payload \<in> revoked a\<^sub>1"
    using assms(1,2) by (auto simp: handle_revoke_def split: sum.splits if_splits)
  then have "rv_key payload \<in> revoked (authz_run c es a\<^sub>1)" using authz_run_revoked by blast
  with q assms(3-5) show False by (auto simp: consented_def)
qed

theorem revoked_never_served_witness:
  "fst (handle_query sample_core sample_dir sample_store 100 100 sample_query
     (authz_run sample_core [Query sample_dir sample_store 90 90 sample_query]
       (snd (handle_revoke sample_core (sample_query\<lparr>sender_key := [1, 2]\<rparr>) (authz_init 60))))) \<noteq>
   Inr (Some [3, 4, 170])"
  by (rule revoked_never_served [where rmsg = "sample_query\<lparr>sender_key := [1, 2]\<rparr>" and a = "authz_init 60"
      and payload = "\<lparr>rv_issuer_id = [1, 2], rv_grantee_id = [3, 4], rv_key = ([1, 2], [3, 4], 0, [])\<rparr>"
      and raw = "[1, 2, 3, 4]"
      and token = "\<lparr>issuer_id = [1, 2], grantee_id = [3, 4], issued_at = 0, token_nonce = []\<rparr>"])
    (simp_all add: handle_revoke_def sample_core_def sample_query_def authz_init_def)

text \<open>Only the issuer can revoke: whatever messages arrive, a key is in the revocation set only if
  it was there or a message whose signed sender hashes to the payload's issuer asked for it.\<close>

theorem only_issuer_revokes:
  assumes "x \<in> revoked (authz_run c es a)"
  shows "x \<in> revoked a \<or> (\<exists>msg payload. Revoke msg \<in> set es \<and>
    decode_location_revoke c (msg_payload msg) = Some payload \<and> rv_key payload = x \<and>
    pubkey_id c (sender_key msg) = Inr (rv_issuer_id payload))"
  using assms
proof (induction es arbitrary: a)
  case Nil
  then show ?case by (simp add: authz_run_def)
next
  case (Cons e es)
  have "x \<in> revoked (authz_run c es (authz_step c e a))" using Cons.prems by (simp add: authz_run_def)
  from Cons.IH [OF this] show ?case
  proof
    assume x: "x \<in> revoked (authz_step c e a)"
    show ?thesis
    proof (cases e)
      case (Query dir store now snow msg)
      with x show ?thesis by (simp add: handle_query_state)
    next
      case (Revoke msg)
      with x show ?thesis by (auto simp: handle_revoke_def split: option.splits sum.splits if_splits)
    qed
  qed auto
qed

theorem only_issuer_revokes_witness:
  "\<exists>msg payload. Revoke msg \<in> set [Revoke (sample_query\<lparr>sender_key := [1, 2]\<rparr>)] \<and>
     decode_location_revoke sample_core (msg_payload msg) = Some payload \<and>
     pubkey_id sample_core (sender_key msg) = Inr (rv_issuer_id payload)"
proof -
  have "([1, 2], [3, 4], 0, []) \<in> revoked (authz_run sample_core
      [Revoke (sample_query\<lparr>sender_key := [1, 2]\<rparr>)] (authz_init 60))"
    by (simp add: authz_run_def handle_revoke_def sample_core_def sample_query_def authz_init_def)
  from only_issuer_revokes [OF this] show ?thesis by (auto simp: authz_init_def)
qed

end
