(* ===== verification/Framing.thy ===== *)
theory Framing
  imports Prelude "HOL-Library.While_Combinator"
begin

text \<open>
  \<open>node/ble/framing.py\<close>: the 2-byte big-endian length prefix both phone transports use, the
  splitting into ATT-sized chunks, and \<open>FrameAssembler\<close>, whose state is its byte buffer.
\<close>

definition MAX_FRAME :: nat where
  "MAX_FRAME = 460"

text \<open>\<open>struct.pack(">H", n)\<close>: two bytes, big endian; out of range raises \<open>struct.error\<close>.\<close>

definition pack_u16 :: "nat \<Rightarrow> exn + bytes" where
  "pack_u16 n =
     (if n < 65536 then Inr [of_nat (n div 256), of_nat (n mod 256)] else Inl StructError)"

text \<open>\<open>struct.unpack_from(">H", buf)\<close> on a buffer of at least two bytes.\<close>

definition unpack_u16 :: "bytes \<Rightarrow> nat" where
  "unpack_u16 buf = 256 * unat (buf ! 0) + unat (buf ! 1)"

definition frame :: "bytes \<Rightarrow> exn + bytes" where
  "frame packet =
     (case pack_u16 (length packet) of Inl e \<Rightarrow> Inl e | Inr h \<Rightarrow> Inr (h @ packet))"

text \<open>\<open>range(0, n, step)\<close> for a non-negative \<open>step\<close>; step 0 raises \<open>ValueError\<close>.\<close>

definition range_step :: "nat \<Rightarrow> nat \<Rightarrow> nat list" where
  "range_step n step = map (\<lambda>k. k * step) [0..<(n + step - 1) div step]"

definition chunk :: "bytes \<Rightarrow> nat \<Rightarrow> exn + bytes list" where
  "chunk framed chunk_size =
     (if chunk_size = 0 then Inl ValueError
      else Inr (map (\<lambda>i. take chunk_size (drop i framed)) (range_step (length framed) chunk_size)))"

text \<open>The loop of \<open>FrameAssembler.feed\<close>: the collected packets and the buffer. On a length
  prefix above the limit the buffer is cleared and the packets collected by this call are lost
  with the exception.\<close>

function assemble :: "bytes list \<Rightarrow> bytes \<Rightarrow> (exn + bytes list) \<times> bytes" where
  "assemble packets buf =
     (if length buf < 2 then (Inr packets, buf)
      else if unpack_u16 buf > MAX_FRAME then (Inl ValueError, [])
      else if length buf < 2 + unpack_u16 buf then (Inr packets, buf)
      else assemble (packets @ [take (unpack_u16 buf) (drop 2 buf)]) (drop (2 + unpack_u16 buf) buf))"
  by pat_completeness auto
termination
  by (relation "measure (\<lambda>(packets, buf). length buf)") auto

declare assemble.simps [simp del]

definition feed :: "bytes \<Rightarrow> bytes \<Rightarrow> (exn + bytes list) \<times> bytes" where
  "feed buf data = assemble [] (buf @ data)"

definition reset :: "bytes \<Rightarrow> bytes" where
  "reset buf = []"

text \<open>The same loop as the source writes it: a test and a body on the packets, the buffer and the way the
  body left, if it did.\<close>

type_synonym feed_state = "bytes list \<times> bytes \<times> (exn + bytes list) option"

fun feed_test :: "feed_state \<Rightarrow> bool" where
  "feed_test (packets, buf, left) = (left = None \<and> 2 \<le> length buf)"

fun feed_body :: "feed_state \<Rightarrow> feed_state" where
  "feed_body (packets, buf, left) =
     (let n = unpack_u16 buf
      in if n > MAX_FRAME then (packets, [], Some (Inl ValueError))
         else if length buf < 2 + n then (packets, buf, Some (Inr packets))
         else (packets @ [take n (drop 2 buf)], drop (2 + n) buf, None))"

fun feed_result :: "feed_state \<Rightarrow> (exn + bytes list) \<times> bytes" where
  "feed_result (packets, buf, left) = ((case left of None \<Rightarrow> Inr packets | Some r \<Rightarrow> r), buf)"

text \<open>Feeding a sequence of reads, as a reader loop does: the packets of all reads in order, up to
  the first exception.\<close>

fun feeds :: "('b \<Rightarrow> 'd list \<Rightarrow> ('e + 'p list) \<times> 'b) \<Rightarrow> 'b \<Rightarrow> 'd list list \<Rightarrow> ('e + 'p list) \<times> 'b"
where
  "feeds fd b [] = (Inr [], b)"
| "feeds fd b (c # cs) =
     (case fd b c of
        (Inl e, b') \<Rightarrow> (Inl e, b')
      | (Inr ps, b') \<Rightarrow> (case feeds fd b' cs of
            (Inl e, b'') \<Rightarrow> (Inl e, b'')
          | (Inr qs, b'') \<Rightarrow> (Inr (ps @ qs), b'')))"

section \<open>What the transports rely on\<close>

text \<open>
  The interface of a stream decoder: reads compose, an error stays an error however much more
  arrives, and a stream of well-formed encodings decodes to its packets and leaves nothing. Both
  transports see the assembler only through this.
\<close>

locale framed_stream =
  fixes fd :: "'b \<Rightarrow> 'd list \<Rightarrow> ('e + 'p list) \<times> 'b"
    and start :: 'b
    and enc :: "'p \<Rightarrow> 'd list"
    and ok :: "'p \<Rightarrow> bool"
    and idle :: "'b \<Rightarrow> bool"
  assumes idle_start: "idle start"
    and idle_feed: "idle b \<Longrightarrow> fd b c = (r, b') \<Longrightarrow> idle b'"
    and feed_nil: "idle b \<Longrightarrow> fd b [] = (Inr [], b)"
    and feed_append: "fd b c = (Inr ps, b') \<Longrightarrow> fd b (c @ d) =
          (case fd b' d of (Inl e, b'') \<Rightarrow> (Inl e, b'') | (Inr qs, b'') \<Rightarrow> (Inr (ps @ qs), b''))"
    and feed_error_append: "fd b c = (Inl e, b') \<Longrightarrow> fd b (c @ d) = (Inl e, b')"
    and feed_encoded: "(\<And>p. p \<in> set ps \<Longrightarrow> ok p) \<Longrightarrow> fd start (concat (map enc ps)) = (Inr ps, start)"
begin

lemma feeds_concat: "idle b \<Longrightarrow> feeds fd b cs = fd b (concat cs)"
proof (induction cs arbitrary: b)
  case Nil
  then show ?case by (simp add: feed_nil)
next
  case (Cons c cs)
  show ?case
  proof (cases "fd b c")
    case (Pair r b')
    with Cons.prems have "idle b'" by (rule idle_feed)
    with Cons.IH Pair show ?thesis
      by (cases r) (auto simp: feed_append feed_error_append split: prod.splits sum.splits)
  qed
qed

lemma feeds_encoded:
  assumes "\<And>p. p \<in> set ps \<Longrightarrow> ok p" and "concat cs = concat (map enc ps)"
  shows "feeds fd start cs = (Inr ps, start)"
  by (simp add: feeds_concat idle_start assms(2) feed_encoded [OF assms(1)])

text \<open>The decoder never depends on where the reads were cut.\<close>

lemma feeds_cut: "idle b \<Longrightarrow> concat cs = concat ds \<Longrightarrow> feeds fd b cs = feeds fd b ds"
  by (simp add: feeds_concat)

end

section \<open>Lemmas\<close>

lemma unat_byte_of_nat [simp]: "n < 256 \<Longrightarrow> unat (of_nat n :: byte) = n"
  by (simp add: unat_of_nat)

lemma unpack_pack: "n < 65536 \<Longrightarrow> unpack_u16 (of_nat (n div 256) # of_nat (n mod 256) # s) = n"
  by (simp add: unpack_u16_def)

lemma unpack_append [simp]: "2 \<le> length b \<Longrightarrow> unpack_u16 (b @ d) = unpack_u16 b"
  by (cases b) (auto simp: unpack_u16_def nth_append)

lemma pack_u16_Inr: "pack_u16 n = Inr h \<longleftrightarrow> n < 65536 \<and> h = [of_nat (n div 256), of_nat (n mod 256)]"
  by (auto simp: pack_u16_def)

lemma frame_Inr: "frame p = Inr f \<longleftrightarrow>
  length p < 65536 \<and> f = of_nat (length p div 256) # of_nat (length p mod 256) # p"
  by (auto simp: frame_def pack_u16_def split: sum.splits)

lemma frame_error: "frame p = Inl e \<longleftrightarrow> 65536 \<le> length p \<and> e = StructError"
  by (auto simp: frame_def pack_u16_def)

text \<open>The frame of a packet that fits, as a total function, and the packets a receiver accepts.\<close>

definition frame_of :: "bytes \<Rightarrow> bytes" where
  "frame_of p = of_nat (length p div 256) # of_nat (length p mod 256) # p"

definition fits :: "bytes \<Rightarrow> bool" where
  "fits p = (length p \<le> MAX_FRAME)"

lemma frame_fits: "fits p \<Longrightarrow> frame p = Inr (frame_of p)"
  by (simp add: frame_Inr fits_def MAX_FRAME_def frame_of_def)

lemma length_frame_of [simp]: "length (frame_of p) = length p + 2"
  by (simp add: frame_of_def)

text \<open>A buffer that holds no complete frame and no bad prefix is what the assembler keeps; a buffer
  that starts with an oversized prefix is corrupt; every other buffer starts with a frame. The
  three cases give an induction rule that follows the loop.\<close>

definition stalled :: "bytes \<Rightarrow> bool" where
  "stalled b = (length b < 2 \<or> unpack_u16 b \<le> MAX_FRAME \<and> length b < 2 + unpack_u16 b)"

definition corrupt :: "bytes \<Rightarrow> bool" where
  "corrupt b = (2 \<le> length b \<and> MAX_FRAME < unpack_u16 b)"

lemma stalled_Nil [simp]: "stalled []"
  by (simp add: stalled_def)

lemma stalled_length: "stalled b \<Longrightarrow> length b \<le> MAX_FRAME + 1"
  by (auto simp: stalled_def MAX_FRAME_def)

lemma corrupt_append: "corrupt b \<Longrightarrow> corrupt (b @ d)"
  by (simp add: corrupt_def)

lemma unpack_split:
  assumes "2 \<le> length b" and "2 + unpack_u16 b \<le> length b"
  shows "b = frame_of (take (unpack_u16 b) (drop 2 b)) @ drop (2 + unpack_u16 b) b"
proof -
  obtain x y s where b: "b = x # y # s"
    using assms(1) by (cases b; cases "tl b") auto
  have "unat x < 256" "unat y < 256" using unsigned_less [of x, where ?'a = nat] unsigned_less [of y, where ?'a = nat] by simp_all
  then have "of_nat (unpack_u16 b div 256) = x" "of_nat (unpack_u16 b mod 256) = y"
    by (simp_all add: b unpack_u16_def)
  then show ?thesis using assms(2) by (simp add: b frame_of_def min_def)
qed

lemma stream_induct [case_names stalled corrupt frame]:
  assumes "\<And>b. stalled b \<Longrightarrow> P b" and "\<And>b. corrupt b \<Longrightarrow> P b"
    and "\<And>p s. fits p \<Longrightarrow> P s \<Longrightarrow> P (frame_of p @ s)"
  shows "P b"
proof (induction "length b" arbitrary: b rule: less_induct)
  case less
  show ?case
  proof (cases "stalled b \<or> corrupt b")
    case True
    then show ?thesis using assms by blast
  next
    case False
    then have 2: "2 \<le> length b" "2 + unpack_u16 b \<le> length b" "unpack_u16 b \<le> MAX_FRAME"
      by (auto simp: stalled_def corrupt_def)
    let ?p = "take (unpack_u16 b) (drop 2 b)" and ?s = "drop (2 + unpack_u16 b) b"
    have "fits ?p" using 2 by (simp add: fits_def)
    moreover have "P ?s" using 2 by (intro less) simp
    ultimately have "P (frame_of ?p @ ?s)" by (rule assms(3))
    then show ?thesis using unpack_split [OF 2(1,2)] by simp
  qed
qed

lemma assemble_stalled: "stalled b \<Longrightarrow> assemble ps b = (Inr ps, b)"
  by (subst assemble.simps) (auto simp: stalled_def)

lemma assemble_corrupt: "corrupt b \<Longrightarrow> assemble ps b = (Inl ValueError, [])"
  by (subst assemble.simps) (auto simp: corrupt_def)

lemma assemble_frame: "fits p \<Longrightarrow> assemble ps (frame_of p @ s) = assemble (ps @ [p]) s"
proof -
  assume p: "fits p"
  then have "unpack_u16 (frame_of p @ s) = length p"
    by (simp add: frame_of_def unpack_pack fits_def MAX_FRAME_def)
  with p show ?thesis
    by (subst assemble.simps) (simp add: fits_def, simp add: frame_of_def)
qed

lemmas assemble_steps = assemble_stalled assemble_corrupt assemble_frame

lemma assemble_frames:
  "(\<And>p. p \<in> set qs \<Longrightarrow> fits p) \<Longrightarrow>
   assemble ps (concat (map frame_of qs) @ s) = assemble (ps @ qs) s"
  by (induction qs arbitrary: ps) (auto simp: assemble_frame)

lemma assemble_result_stalled: "assemble ps b = (r, b') \<Longrightarrow> stalled b'"
  by (induction b arbitrary: ps rule: stream_induct) (auto simp: assemble_steps)

lemma assemble_append_ok:
  "assemble ps b = (Inr qs, b') \<Longrightarrow> assemble ps (b @ d) = assemble qs (b' @ d)"
  by (induction b arbitrary: ps rule: stream_induct) (auto simp: assemble_steps)

lemma assemble_append_error: "assemble ps b = (Inl e, b') \<Longrightarrow> assemble ps (b @ d) = (Inl e, b')"
  by (induction b arbitrary: ps rule: stream_induct) (auto simp: assemble_steps corrupt_append)

lemma assemble_acc:
  "assemble ps b = (case assemble [] b of
     (Inl e, b') \<Rightarrow> (Inl e, b') | (Inr qs, b') \<Rightarrow> (Inr (ps @ qs), b'))"
proof (induction b arbitrary: ps rule: stream_induct)
  case (frame p s)
  show ?case
    using frame.IH [of "ps @ [p]"] frame.IH [of "[p]"] frame.hyps
    by (auto simp: assemble_frame split: prod.splits sum.splits)
qed (simp_all add: assemble_steps)

text \<open>Nothing is invented or lost: the packets re-encoded and the kept bytes are the input.\<close>

lemma assemble_lossless:
  "assemble [] b = (Inr qs, b') \<Longrightarrow> b = concat (map frame_of qs) @ b' \<and> (\<forall>q\<in>set qs. fits q)"
proof (induction b arbitrary: qs rule: stream_induct)
  case (frame p s)
  then show ?case
    by (subst (asm) assemble_frame, simp, subst (asm) assemble_acc)
      (fastforce split: prod.splits sum.splits)
qed (auto simp: assemble_steps)

interpretation asm: framed_stream feed "[]" frame_of fits stalled
proof (unfold_locales)
  fix b c ps b' d
  assume "feed b c = (Inr ps, b')"
  then show "feed b (c @ d) =
      (case feed b' d of (Inl e, b'') \<Rightarrow> (Inl e, b'') | (Inr qs, b'') \<Rightarrow> (Inr (ps @ qs), b''))"
    using assemble_append_ok [of "[]" "b @ c" ps b' d] assemble_acc [of ps "b' @ d"]
    by (simp add: feed_def)
next
  show "(\<And>p. p \<in> set ps \<Longrightarrow> fits p) \<Longrightarrow> feed [] (concat (map frame_of ps)) = (Inr ps, [])" for ps
    using assemble_frames [of ps "[]" "[]"] by (simp add: feed_def assemble_stalled)
qed (auto simp: feed_def assemble_result_stalled assemble_stalled assemble_append_error
       simp flip: append_assoc)

section \<open>Chunks\<close>

lemma concat_chunks:
  "0 < n \<Longrightarrow> concat (map (\<lambda>k. take n (drop (k * n) s)) [0..<m]) = take (m * n) s"
proof (induction m)
  case 0
  then show ?case by simp
next
  case (Suc m)
  then show ?case by (simp add: take_add add.commute [of n "m * n"])
qed

lemma ceil_div_mult: "0 < (n::nat) \<Longrightarrow> l \<le> (l + n - 1) div n * n"
proof -
  assume n: "0 < n"
  let ?a = "l + n - 1"
  have "?a = ?a div n * n + ?a mod n" by simp
  moreover have "?a mod n < n" using n by simp
  ultimately show ?thesis using n by linarith
qed

lemma chunk_concat: "chunk s n = Inr cs \<Longrightarrow> concat cs = s"
  using ceil_div_mult [of n "length s"]
  by (auto simp: chunk_def range_step_def comp_def concat_chunks split: if_splits)

lemma chunk_bounds: "chunk s n = Inr cs \<Longrightarrow> c \<in> set cs \<Longrightarrow> length c \<le> n"
  by (auto simp: chunk_def split: if_splits)

lemma map_frame_fits: "(\<And>p. p \<in> set ps \<Longrightarrow> fits p) \<Longrightarrow> map frame ps = map Inr (map frame_of ps)"
  by (induction ps) (auto simp: frame_fits)

lemma map_Inr_inject: "map Inr xs = map Inr ys \<longleftrightarrow> xs = ys"
  by simp

lemma range_step_chunks_nonempty:
  "0 < n \<Longrightarrow> i \<in> set (range_step (length s) n) \<Longrightarrow> take n (drop i s) \<noteq> []"
  by (auto simp: range_step_def less_eq_div_iff_mult_less_eq Suc_le_eq [symmetric])

lemma feed_loop_runs:
  "\<exists>k. 2 * k \<le> length buf + 2 \<and> while_option feed_test feed_body (ps, buf, None) = Some ((feed_body ^^ k) (ps, buf, None)) \<and>
     feed_result ((feed_body ^^ k) (ps, buf, None)) = assemble ps buf"
proof (induction ps buf rule: assemble.induct)
  case (1 ps buf)
  show ?case
  proof (cases "2 \<le> length buf \<and> unpack_u16 buf \<le> MAX_FRAME \<and> 2 + unpack_u16 buf \<le> length buf")
    case True
    let ?s = "(ps @ [take (unpack_u16 buf) (drop 2 buf)], drop (2 + unpack_u16 buf) buf, None)"
    have b: "feed_body (ps, buf, None) = ?s" using True by (simp add: Let_def)
    obtain k where k: "2 * k \<le> length (drop (2 + unpack_u16 buf) buf) + 2"
      "while_option feed_test feed_body ?s = Some ((feed_body ^^ k) ?s)"
      "feed_result ((feed_body ^^ k) ?s) =
         assemble (ps @ [take (unpack_u16 buf) (drop 2 buf)]) (drop (2 + unpack_u16 buf) buf)"
      using 1 True by (auto simp: not_less)
    have "while_option feed_test feed_body (ps, buf, None) = while_option feed_test feed_body ?s"
      using True b by (subst while_option_unfold) simp
    moreover have "(feed_body ^^ Suc k) (ps, buf, None) = (feed_body ^^ k) ?s" by (simp only: funpow_Suc_right comp_def b)
    moreover have "2 * Suc k \<le> length buf + 2" using k(1) True unfolding length_drop by arith
    ultimately show ?thesis
      using k(2,3) True by (intro exI [of _ "Suc k"]) (simp del: funpow.simps add: assemble.simps [of ps buf])
  next
    case False
    show ?thesis
    proof (cases "2 \<le> length buf")
      case True
      then show ?thesis
        using False by (intro exI [of _ 1]) (auto simp: while_option_unfold [of _ _ "(ps, buf, None)"] Let_def
            while_option_unfold [of _ _ "(_, _, Some _)"] assemble.simps [of ps buf])
    qed (auto intro!: exI [of _ 0] simp: while_option_unfold [of _ _ "(ps, buf, None)"] assemble.simps [of ps buf])
  qed
qed

section \<open>Properties\<close>

text \<open>C17. However a stream of framed packets is cut into reads, the assembler returns exactly the
  packets, in order, and keeps nothing.\<close>

theorem frame_roundtrip:
  assumes "\<forall>p\<in>set ps. length p \<le> MAX_FRAME"
    and "map frame ps = map Inr fs" and "concat reads = concat fs"
  shows "feeds feed (reset b) reads = (Inr ps, [])"
proof -
  have fit: "\<And>p. p \<in> set ps \<Longrightarrow> fits p" using assms(1) by (simp add: fits_def)
  then have "fs = map frame_of ps" using assms(2) map_frame_fits [of ps] by (simp only: map_Inr_inject)
  with asm.feeds_encoded [OF fit] assms(3) show ?thesis by (simp add: reset_def)
qed

theorem frame_roundtrip_witness:
  "feeds feed (reset [9, 9]) [[0], [2, 7], [8, 0, 0, 0], [1, 5]] = (Inr [[7, 8], [], [5]], [])"
  by (rule frame_roundtrip [where fs = "[[0, 2, 7, 8], [0, 0], [0, 1, 5]]"])
    (simp_all add: MAX_FRAME_def frame_def pack_u16_def)

text \<open>A successful read invents and loses nothing: the returned packets, framed again, followed
  by the kept bytes are the kept bytes before and the data; and less than one frame is kept.\<close>

theorem feed_lossless:
  assumes "stalled b" and "feed b data = (Inr ps, b')"
  shows "\<exists>fs. map frame ps = map Inr fs \<and> b @ data = concat fs @ b' \<and> length b' \<le> MAX_FRAME + 1"
proof -
  have a: "assemble [] (b @ data) = (Inr ps, b')" using assms(2) by (simp add: feed_def)
  note assemble_lossless [OF a] stalled_length [OF assemble_result_stalled [OF a]]
  with map_frame_fits [of ps] show ?thesis by blast
qed

theorem feed_lossless_witness:
  "\<exists>fs. map frame [[7, 8]] = map Inr fs \<and> [0, 2, 7] @ [8, 0, 5, 1] = concat fs @ [0, 5, 1] \<and>
     length [0, 5, 1 :: byte] \<le> MAX_FRAME + 1"
  by (rule feed_lossless)
    (simp_all add: stalled_def unpack_u16_def MAX_FRAME_def feed_def assemble.simps)

text \<open>Splitting a framed packet for the radio loses nothing, makes no empty chunk and no chunk
  above the size; only size 0 is an error.\<close>

theorem chunk_partition:
  "if chunk_size = 0 then chunk framed chunk_size = Inl ValueError
   else \<exists>cs. chunk framed chunk_size = Inr cs \<and> concat cs = framed \<and>
          list_all (\<lambda>c. c \<noteq> [] \<and> length c \<le> chunk_size) cs"
proof (cases "chunk_size = 0")
  case False
  then obtain cs where cs: "chunk framed chunk_size = Inr cs" by (simp add: chunk_def)
  have "list_all (\<lambda>c. c \<noteq> [] \<and> length c \<le> chunk_size) cs"
    using False cs range_step_chunks_nonempty [of chunk_size _ framed]
    by (auto simp: chunk_def list_all_iff)
  with False cs chunk_concat [OF cs] show ?thesis by simp
qed (simp add: chunk_def)

text \<open>A read that ends in a corrupt length prefix loses the complete packets before it, which
  the same bytes in two reads deliver: what is delivered depends on the read boundaries.\<close>

theorem corrupt_read_loses_packets:
  assumes "length p \<le> MAX_FRAME" and "frame p = Inr f" and "corrupt h"
  shows "feed [] (f @ h) = (Inl ValueError, []) \<and> feed [] f = (Inr [p], []) \<and>
    feed [] h = (Inl ValueError, [])"
proof -
  have p: "fits p" "f = frame_of p" using assms(1,2) by (auto simp: fits_def frame_Inr frame_of_def)
  with assms(3) assemble_frame [OF p(1), of "[]" "[]"] show ?thesis
    by (simp add: feed_def assemble_frame assemble_corrupt assemble_stalled)
qed

theorem corrupt_read_loses_packets_witness:
  "feed [] ([0, 1, 7] @ [255, 255, 3]) = (Inl ValueError, []) \<and>
   feed [] [0, 1, 7] = (Inr [[7]], []) \<and> feed [] [255, 255, 3] = (Inl ValueError, [])"
  by (rule corrupt_read_loses_packets)
    (simp_all add: MAX_FRAME_def frame_def pack_u16_def corrupt_def unpack_u16_def)

text \<open>\<open>feed\<close> always returns: its \<open>while\<close> loop ends after at most one round per two bytes in the buffer
  and one more, whatever bytes arrive, and what it leaves is the result of \<open>feed\<close>.\<close>

theorem feed_terminates:
  "\<exists>k. 2 * k \<le> length buf + length data + 2 \<and>
     while_option feed_test feed_body ([], buf @ data, None) = Some ((feed_body ^^ k) ([], buf @ data, None)) \<and>
     feed_result ((feed_body ^^ k) ([], buf @ data, None)) = feed buf data"
  using feed_loop_runs [of "buf @ data" "[]"] by (simp add: feed_def)

end
