(* ===== verification/Gatt.thy ===== *)
theory Gatt
  imports Framing
begin

text \<open>
  \<open>node/ble/base.py\<close> (\<open>GattServerBase\<close>) and the packet paths of its two backends,
  \<open>node/ble/bluez.py\<close> and \<open>node/ble/corebluetooth.py\<close>.

  The state is the per-peer assembler buffers, the set of tracked peers and which callbacks are
  registered. An operation returns the callback invocations it makes, in order, and the new state.
  D-Bus and CoreBluetooth themselves are not modelled: a backend is what it hands to the shared
  core, and what it hands to the radio for one notified chunk.
\<close>

section \<open>The shared core\<close>

record gatt =
  assemblers :: "(pystr, bytes) dict"
  connected_peers :: "pystr set"
  packet_cb :: bool
  connect_cb :: bool
  disconnect_cb :: bool

datatype gatt_event = Packet pystr bytes | Connected pystr | Disconnected pystr

definition gatt_init :: gatt where
  "gatt_init = \<lparr>assemblers = [], connected_peers = {}, packet_cb = False, connect_cb = False,
     disconnect_cb = False\<rparr>"

definition buffer_of :: "gatt \<Rightarrow> pystr \<Rightarrow> bytes" where
  "buffer_of g p = (case map_of (assemblers g) p of None \<Rightarrow> [] | Some b \<Rightarrow> b)"

definition handle_chunk :: "gatt \<Rightarrow> pystr \<Rightarrow> bytes \<Rightarrow> gatt_event list \<times> gatt" where
  "handle_chunk g peer_id data =
     (let (r, b) = feed (buffer_of g peer_id) data;
          g' = g\<lparr>connected_peers := insert peer_id (connected_peers g),
                 assemblers := AList.update peer_id b (assemblers g)\<rparr>
      in case r of
           Inl e \<Rightarrow> ([], g')
         | Inr packets \<Rightarrow> (if packet_cb g then map (Packet peer_id) packets else [], g'))"

definition peer_connected :: "gatt \<Rightarrow> pystr \<Rightarrow> gatt_event list \<times> gatt" where
  "peer_connected g peer_id =
     (let is_new = peer_id \<notin> connected_peers g
      in (if is_new \<and> connect_cb g then [Connected peer_id] else [],
          g\<lparr>connected_peers := insert peer_id (connected_peers g)\<rparr>))"

definition peer_disconnected :: "gatt \<Rightarrow> pystr \<Rightarrow> gatt_event list \<times> gatt" where
  "peer_disconnected g peer_id =
     (if disconnect_cb g then [Disconnected peer_id] else [],
      g\<lparr>connected_peers := connected_peers g - {peer_id}, assemblers := AList.delete peer_id (assemblers g)\<rparr>)"

definition gatt_peers :: "gatt \<Rightarrow> pystr list" where
  "gatt_peers g = sorted_list_of_set (connected_peers g)"

definition BLE_NOTIFY_CHUNK :: nat where
  "BLE_NOTIFY_CHUNK = 180"

text \<open>\<open>notify c\<close> is the exception the backend raises for chunk \<open>c\<close>, if any. The emitted list is
  the chunks handed to the radio; the peer is ignored, as the shared characteristic cannot
  unicast.\<close>

definition notify_chunk :: "(bytes \<Rightarrow> exn option) \<Rightarrow> bytes \<Rightarrow> bytes list \<times> exn option" where
  "notify_chunk notify c = (case notify c of None \<Rightarrow> ([c], None) | Some e \<Rightarrow> ([], Some e))"

definition send_packet ::
  "(bytes \<Rightarrow> exn option) \<Rightarrow> pystr \<Rightarrow> bytes \<Rightarrow> bytes list \<times> exn option" where
  "send_packet notify peer_id packet =
     (case frame packet of
        Inl e \<Rightarrow> ([], Some e)
      | Inr f \<Rightarrow> (case chunk f BLE_NOTIFY_CHUNK of
          Inl e \<Rightarrow> ([], Some e)
        | Inr pieces \<Rightarrow> for_each (notify_chunk notify) pieces))"

section \<open>BlueZ\<close>

text \<open>\<open>TxCharacteristic.notify_chunk\<close> drops the chunk unless a central subscribed.\<close>

definition bluez_notify_chunk :: "bool \<Rightarrow> bytes \<Rightarrow> bytes list" where
  "bluez_notify_chunk notifying data = (if \<not> notifying then [] else [data])"

definition start_notify :: "bool \<Rightarrow> bool" where
  "start_notify notifying = True"

definition stop_notify :: "bool \<Rightarrow> bool" where
  "stop_notify notifying = False"

text \<open>\<open>RxCharacteristic.WriteValue\<close>: the device path of the options, or \<open>"unknown"\<close>.\<close>

definition write_value :: "gatt \<Rightarrow> bytes \<Rightarrow> pystr option \<Rightarrow> gatt_event list \<times> gatt" where
  "write_value g value device =
     handle_chunk g (case device of None \<Rightarrow> lit ''unknown'' | Some d \<Rightarrow> d) value"

text \<open>\<open>changed\<close> is the value of \<open>Connected\<close> in the changed properties, if it is there.\<close>

definition device_properties_changed ::
  "gatt \<Rightarrow> bool option \<Rightarrow> pystr option \<Rightarrow> gatt_event list \<times> gatt" where
  "device_properties_changed g changed path =
     (case (changed, path) of
        (Some True, Some p) \<Rightarrow> peer_connected g p
      | (Some False, Some p) \<Rightarrow> peer_disconnected g p
      | _ \<Rightarrow> ([], g))"

section \<open>CoreBluetooth\<close>

text \<open>
  The backend keeps a queue of chunks the notification queue refused. \<open>accepted\<close> is what
  \<open>updateValue\<close> answers; in a flush the answers are indexed by the call.
\<close>

record cb_tx =
  tx_char :: bool
  pending :: "bytes list"

definition cb_notify_chunk :: "cb_tx \<Rightarrow> bytes \<Rightarrow> bool \<Rightarrow> bytes list \<times> cb_tx" where
  "cb_notify_chunk s data accepted =
     (if \<not> tx_char s then ([], s)
      else if pending s \<noteq> [] then ([], s\<lparr>pending := pending s @ [data]\<rparr>)
      else if \<not> accepted then ([], s\<lparr>pending := pending s @ [data]\<rparr>)
      else ([data], s))"

fun flush_queue :: "(nat \<Rightarrow> bool) \<Rightarrow> nat \<Rightarrow> bytes list \<Rightarrow> bytes list \<times> bytes list" where
  "flush_queue accepted i [] = ([], [])"
| "flush_queue accepted i (c # cs) =
     (if \<not> accepted i then ([], c # cs)
      else (case flush_queue accepted (Suc i) cs of (sent, rest) \<Rightarrow> (c # sent, rest)))"

definition cb_flush_pending :: "cb_tx \<Rightarrow> (nat \<Rightarrow> bool) \<Rightarrow> bytes list \<times> cb_tx" where
  "cb_flush_pending s accepted =
     (case flush_queue accepted 0 (pending s) of (sent, rest) \<Rightarrow> (sent, s\<lparr>pending := rest\<rparr>))"

text \<open>A write request: whether it is for the RX characteristic, its value, its central. The
  batch is answered through its first request, so an empty batch would raise.\<close>

record write_request =
  for_rx :: bool
  req_value :: "bytes option"
  req_central :: pystr

fun write_each :: "gatt \<Rightarrow> write_request list \<Rightarrow> gatt_event list \<times> gatt" where
  "write_each g [] = ([], g)"
| "write_each g (r # rs) =
     (if \<not> for_rx r then write_each g rs
      else (case req_value r of
          None \<Rightarrow> write_each g rs
        | Some v \<Rightarrow> (case handle_chunk g (req_central r) v of
            (ev, g') \<Rightarrow> (case write_each g' rs of (ev', g'') \<Rightarrow> (ev @ ev', g'')))))"

definition write_requests :: "gatt \<Rightarrow> write_request list \<Rightarrow> (gatt_event list \<times> gatt) \<times> exn option" where
  "write_requests g rs = (write_each g rs, if rs = [] then Some IndexError else None)"

section \<open>Runs\<close>

text \<open>What can happen to the shared core, in any order and for any peers.\<close>

datatype gatt_in = Chunk pystr bytes | Connect pystr | Disconnect pystr

fun gatt_step :: "gatt \<Rightarrow> gatt_in \<Rightarrow> gatt_event list \<times> gatt" where
  "gatt_step g (Chunk p d) = handle_chunk g p d"
| "gatt_step g (Connect p) = peer_connected g p"
| "gatt_step g (Disconnect p) = peer_disconnected g p"

fun gatt_run :: "gatt \<Rightarrow> gatt_in list \<Rightarrow> gatt_event list \<times> gatt" where
  "gatt_run g [] = ([], g)"
| "gatt_run g (e # es) =
     (case gatt_step g e of (ev, g') \<Rightarrow> (case gatt_run g' es of (ev', g'') \<Rightarrow> (ev @ ev', g'')))"

fun packets_from :: "pystr \<Rightarrow> gatt_event list \<Rightarrow> bytes list" where
  "packets_from p [] = []"
| "packets_from p (Packet q x # es) = (if q = p then x # packets_from p es else packets_from p es)"
| "packets_from p (_ # es) = packets_from p es"

fun chunks_from :: "pystr \<Rightarrow> gatt_in list \<Rightarrow> bytes list" where
  "chunks_from p [] = []"
| "chunks_from p (Chunk q d # es) = (if q = p then d # chunks_from p es else chunks_from p es)"
| "chunks_from p (_ # es) = chunks_from p es"

section \<open>Lemmas\<close>

lemmas gatt_defs = handle_chunk_def peer_connected_def peer_disconnected_def Let_def

lemma packets_from_append [simp]: "packets_from p (a @ b) = packets_from p a @ packets_from p b"
  by (induction p a rule: packets_from.induct) auto

lemma packets_from_map [simp]: "packets_from p (map (Packet q) xs) = (if p = q then xs else [])"
  by (induction xs) auto

text \<open>Bookkeeping: the assemblers belong to tracked peers and each keeps less than one frame.\<close>

definition gatt_inv :: "gatt \<Rightarrow> bool" where
  "gatt_inv g = (wf_dict (assemblers g) \<and> finite (connected_peers g) \<and>
     fst ` set (assemblers g) \<subseteq> connected_peers g \<and> (\<forall>b\<in>snd ` set (assemblers g). stalled b))"

lemma set_update_subset: "set (AList.update k v d) \<subseteq> insert (k, v) (set d)"
  by (induction d) auto

lemma set_delete_subset: "set (AList.delete k d) \<subseteq> {p \<in> set d. fst p \<noteq> k}"
  by (induction d) auto

lemma buffer_of_cases: "buffer_of g p = [] \<or> (p, buffer_of g p) \<in> set (assemblers g)"
  by (auto simp: buffer_of_def dest: map_of_SomeD split: option.splits)

lemma gatt_inv_buffer: "gatt_inv g \<Longrightarrow> stalled (buffer_of g p)"
  using buffer_of_cases [of g p] by (force simp: gatt_inv_def)

lemma gatt_inv_init: "gatt_inv gatt_init"
  by (simp add: gatt_inv_def gatt_init_def)

lemma handle_chunk_state:
  "snd (handle_chunk g p d) = g\<lparr>connected_peers := insert p (connected_peers g),
     assemblers := AList.update p (snd (feed (buffer_of g p) d)) (assemblers g)\<rparr>"
  by (auto simp: gatt_defs split: prod.splits sum.splits)

lemma gatt_inv_chunk: "gatt_inv g \<Longrightarrow> gatt_inv (snd (handle_chunk g p d))"
proof -
  assume g: "gatt_inv g"
  have b: "stalled (snd (feed (buffer_of g p) d))"
    by (cases "feed (buffer_of g p) d") (auto simp: feed_def intro: assemble_result_stalled)
  with g show ?thesis
    by (auto simp: handle_chunk_state gatt_inv_def dom_update dest!: subsetD [OF set_update_subset])
qed

lemma gatt_inv_connected: "gatt_inv g \<Longrightarrow> gatt_inv (snd (peer_connected g p))"
  by (auto simp: gatt_defs gatt_inv_def)

lemma gatt_inv_disconnected: "gatt_inv g \<Longrightarrow> gatt_inv (snd (peer_disconnected g p))"
  using set_delete_subset [of p "assemblers g"] by (fastforce simp: gatt_defs gatt_inv_def)

lemma gatt_inv_step: "gatt_inv g \<Longrightarrow> gatt_inv (snd (gatt_step g e))"
  by (cases e) (auto intro: gatt_inv_chunk gatt_inv_connected gatt_inv_disconnected)

lemma gatt_inv_run: "gatt_inv g \<Longrightarrow> gatt_inv (snd (gatt_run g es))"
proof (induction es arbitrary: g)
  case Nil
  then show ?case by simp
next
  case (Cons e es)
  have "snd (gatt_run g (e # es)) = snd (gatt_run (snd (gatt_step g e)) es)"
    by (simp split: prod.splits)
  with Cons gatt_inv_step [of g e] show ?case by simp
qed

text \<open>One peer's view of a run: reads are fed one by one, and a corrupt read only clears.\<close>

fun peer_stream :: "bytes \<Rightarrow> bytes list \<Rightarrow> bytes list \<times> bytes" where
  "peer_stream b [] = ([], b)"
| "peer_stream b (c # cs) =
     (case feed b c of
        (Inl e, b') \<Rightarrow> peer_stream b' cs
      | (Inr ps, b') \<Rightarrow> (case peer_stream b' cs of (qs, b'') \<Rightarrow> (ps @ qs, b'')))"

lemma peer_stream_feeds: "feeds feed b cs = (Inr ps, b') \<Longrightarrow> peer_stream b cs = (ps, b')"
  by (induction cs arbitrary: b ps) (auto split: prod.splits sum.splits)

lemma buffer_of_chunk:
  "buffer_of (snd (handle_chunk g q d)) p =
     (if p = q then snd (feed (buffer_of g p) d) else buffer_of g p)"
  by (simp add: handle_chunk_state) (simp add: buffer_of_def)

lemma packet_cb_step [simp]: "packet_cb (snd (gatt_step g e)) = packet_cb g"
  by (cases e) (simp_all add: handle_chunk_state peer_connected_def peer_disconnected_def Let_def)

lemma packets_from_chunk:
  "packet_cb g \<Longrightarrow> packets_from p (fst (handle_chunk g q d)) =
     (if p = q then (case fst (feed (buffer_of g q) d) of Inl e \<Rightarrow> [] | Inr ps \<Rightarrow> ps) else [])"
  by (auto simp: gatt_defs split: prod.splits sum.splits)

text \<open>The peers are isolated: what a peer's packets are depends on its own chunks only.\<close>

lemma gatt_run_peer_stream:
  assumes "packet_cb g" and "Disconnect p \<notin> set es"
  shows "packets_from p (fst (gatt_run g es)) = fst (peer_stream (buffer_of g p) (chunks_from p es))"
  using assms
proof (induction es arbitrary: g)
  case Nil
  then show ?case by simp
next
  case (Cons e es)
  have IH: "packets_from p (fst (gatt_run (snd (gatt_step g e)) es)) =
      fst (peer_stream (buffer_of (snd (gatt_step g e)) p) (chunks_from p es))"
    using Cons.prems by (intro Cons.IH) auto
  have run: "fst (gatt_run g (e # es)) = fst (gatt_step g e) @ fst (gatt_run (snd (gatt_step g e)) es)"
    by (simp split: prod.splits)
  show ?case
  proof (cases e)
    case (Chunk q d)
    with IH run Cons.prems show ?thesis
      by (cases "feed (buffer_of g q) d"; cases "fst (feed (buffer_of g q) d)")
        (auto simp: packets_from_chunk buffer_of_chunk split: prod.splits)
  next
    case (Connect q)
    with IH run show ?thesis by (simp add: gatt_defs buffer_of_def)
  next
    case (Disconnect q)
    with IH run Cons.prems show ?thesis
      by (auto simp: gatt_defs buffer_of_def map_of_delete_eq)
  qed
qed

lemma for_each_notify:
  "(\<And>c. c \<in> set cs \<Longrightarrow> notify c = None) \<Longrightarrow> for_each (notify_chunk notify) cs = (cs, None)"
  by (induction cs) (auto simp: notify_chunk_def)

lemma chunk_framed: "\<exists>cs. chunk f BLE_NOTIFY_CHUNK = Inr cs"
  by (simp add: chunk_def BLE_NOTIFY_CHUNK_def)

lemma send_packet_chunks:
  assumes "length packet < 65536" and "\<And>c. notify c = None"
  shows "\<exists>cs. send_packet notify p packet = (cs, None) \<and> concat cs = frame_of packet"
proof -
  obtain cs where cs: "chunk (frame_of packet) BLE_NOTIFY_CHUNK = Inr cs"
    using chunk_framed by blast
  have "frame packet = Inr (frame_of packet)" using assms(1) by (simp add: frame_Inr frame_of_def)
  then show ?thesis
    using cs assms(2) by (auto simp: send_packet_def for_each_notify chunk_concat)
qed

text \<open>CoreBluetooth: a flush sends a prefix of the queue.\<close>

lemma flush_queue_split: "flush_queue acc i cs = (sent, rest) \<Longrightarrow> sent @ rest = cs"
  by (induction acc i cs arbitrary: sent rest rule: flush_queue.induct) (auto split: if_splits prod.splits)

datatype cb_in = CbNotify bytes bool | CbReady "nat \<Rightarrow> bool"

fun cb_run :: "cb_tx \<Rightarrow> cb_in list \<Rightarrow> bytes list \<times> cb_tx" where
  "cb_run s [] = ([], s)"
| "cb_run s (CbNotify d a # es) =
     (case cb_notify_chunk s d a of (out, s') \<Rightarrow> (case cb_run s' es of (out', s'') \<Rightarrow> (out @ out', s'')))"
| "cb_run s (CbReady acc # es) =
     (case cb_flush_pending s acc of (out, s') \<Rightarrow> (case cb_run s' es of (out', s'') \<Rightarrow> (out @ out', s'')))"

fun cb_notified :: "cb_in list \<Rightarrow> bytes list" where
  "cb_notified [] = []"
| "cb_notified (CbNotify d a # es) = d # cb_notified es"
| "cb_notified (CbReady acc # es) = cb_notified es"

lemma cb_run_fifo:
  "tx_char s \<Longrightarrow> cb_run s es = (out, s') \<Longrightarrow> out @ pending s' = pending s @ cb_notified es"
proof (induction s es arbitrary: out s' rule: cb_run.induct)
  case (2 s d a es)
  then show ?case by (fastforce simp: cb_notify_chunk_def split: if_splits prod.splits)
next
  case (3 s acc es)
  obtain sent rest where f: "flush_queue acc 0 (pending s) = (sent, rest)" by fastforce
  then have "sent @ rest = pending s" by (rule flush_queue_split)
  with 3 f show ?case by (fastforce simp: cb_flush_pending_def split: prod.splits)
qed simp

section \<open>Properties\<close>

text \<open>C28. Whatever the other peers write in between, and however the writes are cut, the packets
  the server delivers for a peer are exactly the ones that peer framed.\<close>

theorem gatt_demux:
  assumes "packet_cb g" and "buffer_of g p = []" and "Disconnect p \<notin> set es"
    and "\<forall>x\<in>set ps. length x \<le> MAX_FRAME" and "map frame ps = map Inr fs"
    and "concat (chunks_from p es) = concat fs"
  shows "packets_from p (fst (gatt_run g es)) = ps"
proof -
  have fit: "\<And>x. x \<in> set ps \<Longrightarrow> fits x" using assms(4) by (simp add: fits_def)
  then have "fs = map frame_of ps" using assms(5) map_frame_fits [of ps] by (simp only: map_Inr_inject)
  then have "feeds feed [] (chunks_from p es) = (Inr ps, [])"
    using asm.feeds_encoded [OF fit] assms(6) by simp
  with gatt_run_peer_stream [OF assms(1,3)] assms(2) show ?thesis by (simp add: peer_stream_feeds)
qed

theorem gatt_demux_witness:
  "packets_from [1] (fst (gatt_run (gatt_init\<lparr>packet_cb := True\<rparr>)
     [Chunk [1] [0, 2], Chunk [2] [0, 9], Chunk [1] [7], Connect [2], Chunk [2] [255, 255],
      Chunk [1] [8, 0, 1, 5]])) = [[7, 8], [5]]"
  by (rule gatt_demux [where fs = "[[0, 2, 7, 8], [0, 1, 5]]"])
    (simp_all add: gatt_init_def buffer_of_def MAX_FRAME_def frame_def pack_u16_def)

text \<open>Whether a peer is up after a run: its last event was not a disconnect.\<close>

fun up_after :: "pystr \<Rightarrow> bool \<Rightarrow> gatt_in list \<Rightarrow> bool" where
  "up_after p u [] = u"
| "up_after p u (Chunk q d # es) = up_after p (p = q \<or> u) es"
| "up_after p u (Connect q # es) = up_after p (p = q \<or> u) es"
| "up_after p u (Disconnect q # es) = up_after p (u \<and> p \<noteq> q) es"

lemma gatt_run_connected:
  "p \<in> connected_peers (snd (gatt_run g es)) \<longleftrightarrow> up_after p (p \<in> connected_peers g) es"
proof (induction es arbitrary: g)
  case Nil
  then show ?case by simp
next
  case (Cons e es)
  have "snd (gatt_run g (e # es)) = snd (gatt_run (snd (gatt_step g e)) es)"
    by (simp split: prod.splits)
  moreover have "up_after p (p \<in> connected_peers g) (e # es) =
      up_after p (p \<in> connected_peers (snd (gatt_step g e))) es"
    by (cases e) (auto simp: handle_chunk_state peer_connected_def peer_disconnected_def Let_def)
  ultimately show ?case using Cons by simp
qed

text \<open>After any sequence of writes, connects and disconnects the server lists exactly the peers
  that are up, each once and sorted; it buffers less than one frame for each and nothing for a
  peer that is gone.\<close>

theorem gatt_tracks_peers:
  defines "g es \<equiv> snd (gatt_run gatt_init es)"
  shows "sorted (gatt_peers (g es)) \<and> distinct (gatt_peers (g es)) \<and>
    (p \<in> set (gatt_peers (g es)) \<longleftrightarrow> up_after p False es) \<and>
    length (buffer_of (g es) p) \<le> MAX_FRAME + 1 \<and>
    (buffer_of (g es) p = [] \<or> p \<in> set (gatt_peers (g es)))"
proof -
  have i: "gatt_inv (g es)" unfolding g_def by (rule gatt_inv_run) (rule gatt_inv_init)
  have "p \<in> connected_peers (g es) \<longleftrightarrow> up_after p False es"
    unfolding g_def using gatt_run_connected [of p gatt_init es] by (simp add: gatt_init_def)
  moreover have "set (gatt_peers (g es)) = connected_peers (g es)"
    using i by (simp add: gatt_peers_def gatt_inv_def)
  moreover have "buffer_of (g es) p = [] \<or> p \<in> connected_peers (g es)"
    using buffer_of_cases [of "g es" p] i by (force simp: gatt_inv_def)
  ultimately show ?thesis
    using stalled_length [OF gatt_inv_buffer [OF i]] by (simp add: gatt_peers_def)
qed

text \<open>A central whose first write arrives before its connect event is never announced: the
  connect callback does not fire for it.\<close>

theorem early_write_hides_connect:
  "fst (peer_connected (snd (handle_chunk g p data)) p) = []"
  by (simp add: handle_chunk_state peer_connected_def)

text \<open>What the node notifies reassembles at the phone: for any sequence of packets that fit, the
  notified chunks fed to an assembler give back the packets, and no chunk exceeds the ATT size.\<close>

theorem notify_roundtrip:
  assumes "\<forall>m\<in>set msgs. length (snd m) \<le> MAX_FRAME"
  defines "sent \<equiv> concat (map (\<lambda>(p, x). fst (send_packet (\<lambda>_. None) p x)) msgs)"
  shows "feeds feed [] sent = (Inr (map snd msgs), []) \<and> (\<forall>c\<in>set sent. length c \<le> BLE_NOTIFY_CHUNK)"
proof
  have one: "concat (fst (send_packet (\<lambda>_. None) p x)) = frame_of x \<and>
      (\<forall>c\<in>set (fst (send_packet (\<lambda>_. None) p x)). length c \<le> BLE_NOTIFY_CHUNK)"
    if "length x \<le> MAX_FRAME" for p x
  proof -
    have "frame x = Inr (frame_of x)" using that by (simp add: frame_fits fits_def)
    moreover obtain cs where "chunk (frame_of x) BLE_NOTIFY_CHUNK = Inr cs"
      using chunk_framed by blast
    ultimately show ?thesis
      by (simp add: send_packet_def for_each_notify chunk_concat chunk_bounds)
  qed
  have "concat sent = concat (map frame_of (map snd msgs))"
    using assms(1) unfolding sent_def by (induction msgs) (auto simp: one)
  then show "feeds feed [] sent = (Inr (map snd msgs), [])"
    using assms(1) by (intro asm.feeds_encoded) (auto simp: fits_def)
  show "\<forall>c\<in>set sent. length c \<le> BLE_NOTIFY_CHUNK"
    using assms(1) one by (auto simp: sent_def)
qed

theorem notify_roundtrip_witness:
  "feeds feed [] (concat (map (\<lambda>(p, x). fst (send_packet (\<lambda>_. None) p x)) [([1], [7, 8]), ([2], [])]))
     = (Inr [[7, 8], []], [])"
  using notify_roundtrip [of "[([1], [7, 8]), ([2], [])]"] by (simp add: MAX_FRAME_def)

text \<open>CoreBluetooth never reorders or loses a chunk: whatever the notification queue refuses,
  the chunks sent so far followed by the pending ones are the notified ones in order.\<close>

theorem cb_chunks_in_order:
  assumes "tx_char s" and "pending s = []" and "cb_run s es = (out, s')"
  shows "out @ pending s' = cb_notified es"
  using cb_run_fifo [OF assms(1,3)] assms(2) by simp

theorem cb_chunks_in_order_witness:
  "[[1], [2], [3]] @ pending \<lparr>tx_char = True, pending = [[4 :: byte]]\<rparr> =
     cb_notified [CbNotify [1] True, CbNotify [2] False, CbNotify [3] True,
       CbReady (\<lambda>i. i < 2), CbNotify [4] False]"
  by (rule cb_chunks_in_order [of "\<lparr>tx_char = True, pending = []\<rparr>"])
    (simp_all add: cb_notify_chunk_def cb_flush_pending_def)

end
