(* ===== verification/Transports.thy ===== *)
theory Transports
  imports Gatt
begin

text \<open>
  The phone-facing transports: \<open>node/transport/ble_transport.py\<close>, \<open>wifi_transport.py\<close> and
  \<open>multi_transport.py\<close>.

  \<open>MAX_PACKET\<close> belongs to meshlink-core and is the parameter \<open>max_packet\<close>. A receive operation
  returns the invocations of the registered callback (an exception of the callback is logged and
  dropped by the transport, so the invocations of one read are independent). A send returns what
  it puts on the radio and the exception that leaves it. \<open>faults\<close> says which radio calls fail.
\<close>

datatype radio = BleNotify bytes | TcpSend nat bytes

record faults =
  notify_fault :: "bytes \<Rightarrow> exn option"
  tcp_fault :: "nat \<Rightarrow> bytes \<Rightarrow> bool"

definition no_faults :: faults where
  "no_faults = \<lparr>notify_fault = (\<lambda>_. None), tcp_fault = (\<lambda>_ _. False)\<rparr>"

text \<open>What a transport calls in the layer above: the receive callback and the connect callback.\<close>

datatype upcall = Received pystr bytes | PeerUp pystr

section \<open>BLE\<close>

record ble =
  server :: gatt
  ble_cb :: bool
  ble_connect_cb :: bool

text \<open>\<open>__init__\<close> registers the transport's handlers with the server.\<close>

definition ble_init :: "gatt \<Rightarrow> ble" where
  "ble_init g = \<lparr>server = g\<lparr>packet_cb := True, connect_cb := True, disconnect_cb := True\<rparr>,
     ble_cb = False, ble_connect_cb = False\<rparr>"

definition ble_on_receive :: "ble \<Rightarrow> ble" where
  "ble_on_receive b = b\<lparr>ble_cb := True\<rparr>"

definition ble_on_connect :: "ble \<Rightarrow> ble" where
  "ble_on_connect b = b\<lparr>ble_connect_cb := True\<rparr>"

text \<open>\<open>BleTransport.send\<close> catches every exception of the server.\<close>

definition ble_send :: "faults \<Rightarrow> ble \<Rightarrow> pystr \<Rightarrow> bytes \<Rightarrow> radio list \<times> exn option" where
  "ble_send f b peer_id data =
     (case send_packet (notify_fault f) peer_id data of (out, _) \<Rightarrow> (map BleNotify out, None))"

definition ble_list_peers :: "ble \<Rightarrow> pystr list" where
  "ble_list_peers b = gatt_peers (server b)"

definition ble_handle_packet :: "nat \<Rightarrow> ble \<Rightarrow> pystr \<Rightarrow> bytes \<Rightarrow> upcall list" where
  "ble_handle_packet max_packet b peer_id packet =
     (if packet = [] \<or> length packet > max_packet then []
      else if \<not> ble_cb b then [] else [Received peer_id packet])"

definition ble_handle_connect :: "ble \<Rightarrow> pystr \<Rightarrow> upcall list" where
  "ble_handle_connect b peer_id = (if \<not> ble_connect_cb b then [] else [PeerUp peer_id])"

text \<open>\<open>_handle_disconnect\<close> only logs.\<close>

fun ble_server_event :: "nat \<Rightarrow> ble \<Rightarrow> gatt_event \<Rightarrow> upcall list" where
  "ble_server_event max_packet b (Packet p x) = ble_handle_packet max_packet b p x"
| "ble_server_event max_packet b (Connected p) = ble_handle_connect b p"
| "ble_server_event max_packet b (Disconnected p) = []"

text \<open>One event of the Bluetooth stack, through the server and its callbacks.\<close>

definition ble_input :: "nat \<Rightarrow> ble \<Rightarrow> gatt_in \<Rightarrow> upcall list \<times> ble" where
  "ble_input max_packet b e =
     (case gatt_step (server b) e of
        (evs, g) \<Rightarrow> (concat (map (ble_server_event max_packet b) evs), b\<lparr>server := g\<rparr>))"

section \<open>WiFi\<close>

text \<open>
  \<open>conns\<close> is \<open>_conns\<close> with a socket as its number; \<open>readers\<close> holds, per socket, the peer id and
  the assembler buffer of its reader thread. \<open>listening\<close> is whether \<open>_server\<close> is a listening socket.
\<close>

definition WIFI_PEER_PREFIX :: pystr where
  "WIFI_PEER_PREFIX = lit ''wifi:''"

record wifi =
  port :: int
  listening :: bool
  running :: bool
  conns :: "(pystr, nat) dict"
  readers :: "(nat, pystr \<times> bytes) dict"
  wifi_cb :: bool
  wifi_connect_cb :: bool

definition wifi_init :: "int \<Rightarrow> wifi" where
  "wifi_init p = \<lparr>port = p, listening = False, running = False, conns = [], readers = [],
     wifi_cb = False, wifi_connect_cb = False\<rparr>"

text \<open>\<open>bind\<close> is the port the listening socket got, or \<open>None\<close> when binding raised \<open>OSError\<close>.\<close>

definition wifi_start :: "wifi \<Rightarrow> int option \<Rightarrow> wifi" where
  "wifi_start w bind =
     (if running w then w
      else (case bind of
          None \<Rightarrow> w
        | Some p \<Rightarrow> w\<lparr>port := p, listening := True, running := True\<rparr>))"

text \<open>\<open>stop\<close> returns the sockets it closes.\<close>

definition wifi_stop :: "wifi \<Rightarrow> nat list \<times> wifi" where
  "wifi_stop w = (map snd (conns w), w\<lparr>running := False, listening := False, conns := []\<rparr>)"

definition wifi_send :: "faults \<Rightarrow> wifi \<Rightarrow> pystr \<Rightarrow> bytes \<Rightarrow> radio list \<times> exn option" where
  "wifi_send f w peer_id data =
     (case map_of (conns w) peer_id of
        None \<Rightarrow> ([], None)
      | Some c \<Rightarrow> (case frame data of
            Inl e \<Rightarrow> ([], Some e)
          | Inr fr \<Rightarrow> (if tcp_fault f c fr then ([], None) else ([TcpSend c fr], None))))"

definition wifi_on_receive :: "wifi \<Rightarrow> wifi" where
  "wifi_on_receive w = w\<lparr>wifi_cb := True\<rparr>"

definition wifi_on_connect :: "wifi \<Rightarrow> wifi" where
  "wifi_on_connect w = w\<lparr>wifi_connect_cb := True\<rparr>"

definition wifi_list_peers :: "wifi \<Rightarrow> pystr list" where
  "wifi_list_peers w = map fst (conns w)"

definition wifi_peer_id :: "pystr \<Rightarrow> int \<Rightarrow> pystr" where
  "wifi_peer_id host p = WIFI_PEER_PREFIX @ host @ lit '':'' @ str_int p"

text \<open>One turn of \<open>_accept_loop\<close> that accepted socket \<open>c\<close>: the connect callback and the state, with
  the new reader thread.\<close>

definition wifi_accept :: "wifi \<Rightarrow> pystr \<Rightarrow> int \<Rightarrow> nat \<Rightarrow> upcall list \<times> wifi" where
  "wifi_accept w host p c =
     (if \<not> running w then ([], w)
      else (let peer_id = wifi_peer_id host p
            in (if wifi_connect_cb w then [PeerUp peer_id] else [],
                w\<lparr>conns := AList.update peer_id c (conns w),
                  readers := AList.update c (peer_id, []) (readers w)\<rparr>)))"

definition wifi_dispatch :: "nat \<Rightarrow> wifi \<Rightarrow> pystr \<Rightarrow> bytes \<Rightarrow> upcall list" where
  "wifi_dispatch max_packet w peer_id packet =
     (if packet = [] \<or> length packet > max_packet then []
      else if \<not> wifi_cb w then [] else [Received peer_id packet])"

text \<open>The \<open>finally\<close> of \<open>_reader\<close>: the peer's entry goes, whatever socket it names.\<close>

definition wifi_reader_exit :: "wifi \<Rightarrow> nat \<Rightarrow> wifi" where
  "wifi_reader_exit w c =
     (case map_of (readers w) c of
        None \<Rightarrow> w
      | Some (peer_id, _) \<Rightarrow> w\<lparr>conns := AList.delete peer_id (conns w),
                                readers := AList.delete c (readers w)\<rparr>)"

text \<open>One turn of the \<open>_reader\<close> loop of socket \<open>c\<close>: \<open>None\<close> is an \<open>OSError\<close> of \<open>recv\<close>, the empty
  string the end of the stream.\<close>

definition wifi_recv :: "nat \<Rightarrow> wifi \<Rightarrow> nat \<Rightarrow> bytes option \<Rightarrow> upcall list \<times> wifi" where
  "wifi_recv max_packet w c data =
     (case map_of (readers w) c of
        None \<Rightarrow> ([], w)
      | Some (peer_id, buf) \<Rightarrow>
          (case data of
             None \<Rightarrow> ([], wifi_reader_exit w c)
           | Some d \<Rightarrow>
               (if d = [] then ([], wifi_reader_exit w c)
                else (case feed buf d of
                    (Inl e, b) \<Rightarrow> ([], wifi_reader_exit w c)
                  | (Inr packets, b) \<Rightarrow>
                      (concat (map (wifi_dispatch max_packet w peer_id) packets),
                       w\<lparr>readers := AList.update c (peer_id, b) (readers w)\<rparr>)))))"

section \<open>Both\<close>

text \<open>\<open>MultiTransport\<close>, or the bare \<open>BleTransport\<close> when \<open>WIFI_LISTEN\<close> is off (\<open>main.py\<close>).\<close>

datatype transport = BleOnly ble | Multi ble wifi

fun transport_send :: "faults \<Rightarrow> transport \<Rightarrow> pystr \<Rightarrow> bytes \<Rightarrow> radio list \<times> exn option" where
  "transport_send f (BleOnly b) peer_id data = ble_send f b peer_id data"
| "transport_send f (Multi b w) peer_id data =
     (if starts_with peer_id WIFI_PEER_PREFIX then wifi_send f w peer_id data
      else ble_send f b peer_id data)"

fun transport_list_peers :: "transport \<Rightarrow> pystr list" where
  "transport_list_peers (BleOnly b) = ble_list_peers b"
| "transport_list_peers (Multi b w) = ble_list_peers b @ wifi_list_peers w"

text \<open>\<open>on_receive\<close> and \<open>on_connect\<close> register with both children.\<close>

fun transport_on_receive :: "transport \<Rightarrow> transport" where
  "transport_on_receive (BleOnly b) = BleOnly (ble_on_receive b)"
| "transport_on_receive (Multi b w) = Multi (ble_on_receive b) (wifi_on_receive w)"

fun transport_on_connect :: "transport \<Rightarrow> transport" where
  "transport_on_connect (BleOnly b) = BleOnly (ble_on_connect b)"
| "transport_on_connect (Multi b w) = Multi (ble_on_connect b) (wifi_on_connect w)"

section \<open>The contract the relay relies on\<close>

text \<open>
  A phone transport never raises for a packet the length prefix can carry, whatever fails on the
  radio, and lists each peer once. Fan-out over the listed peers then reaches every one of them.
\<close>

locale phone_transport =
  fixes send :: "'f \<Rightarrow> 't \<Rightarrow> pystr \<Rightarrow> bytes \<Rightarrow> 'o list \<times> exn option"
    and peers :: "'t \<Rightarrow> pystr list"
    and ok :: "'t \<Rightarrow> bool"
  assumes send_quiet: "length d < 65536 \<Longrightarrow> snd (send f t p d) = None"
    and peers_distinct: "ok t \<Longrightarrow> distinct (peers t)"
begin

lemma fan_out:
  "length d < 65536 \<Longrightarrow>
   for_each (\<lambda>p. send f t p d) ps = (concat (map (\<lambda>p. fst (send f t p d)) ps), None)"
  by (simp add: for_each_total send_quiet)

text \<open>The relay's loop, with its \<open>continue\<close> for the peer the packet came from.\<close>

lemma fan_out_skip:
  "length d < 65536 \<Longrightarrow>
   for_each (\<lambda>p. if p = q then ([], None) else send f t p d) ps =
     (concat (map (\<lambda>p. fst (send f t p d)) (filter (\<lambda>p. p \<noteq> q) ps)), None)"
proof -
  assume d: "length d < 65536"
  then have "for_each (\<lambda>p. if p = q then ([], None) else send f t p d) ps =
      (concat (map (\<lambda>p. fst (if p = q then ([], None) else send f t p d)) ps), None)"
    by (intro for_each_total) (simp add: send_quiet)
  moreover have "concat (map (\<lambda>p. fst (if p = q then ([], None) else send f t p d)) ps) =
      concat (map (\<lambda>p. fst (send f t p d)) (filter (\<lambda>p. p \<noteq> q) ps))"
    by (induction ps) auto
  ultimately show ?thesis by simp
qed

lemma peers_skip_distinct: "ok t \<Longrightarrow> distinct (filter (\<lambda>p. p \<noteq> q) (peers t))"
  by (simp add: peers_distinct)

end

section \<open>Invariants\<close>

definition ble_inv :: "ble \<Rightarrow> bool" where
  "ble_inv b = gatt_inv (server b)"

lemma ble_input_inv: "ble_inv b \<Longrightarrow> ble_inv (snd (ble_input m b e))"
  using gatt_inv_step [of "server b" e] by (auto simp: ble_inv_def ble_input_def split: prod.splits)

definition wifi_inv :: "wifi \<Rightarrow> bool" where
  "wifi_inv w = (wf_dict (conns w) \<and> wf_dict (readers w) \<and>
     (\<forall>p\<in>fst ` set (conns w). starts_with p WIFI_PEER_PREFIX) \<and>
     (\<forall>r\<in>snd ` set (readers w). stalled (snd r)))"

lemma wifi_inv_init: "wifi_inv (wifi_init p)"
  by (simp add: wifi_inv_def wifi_init_def)

lemma wifi_inv_start: "wifi_inv w \<Longrightarrow> wifi_inv (wifi_start w b)"
  by (auto simp: wifi_inv_def wifi_start_def split: option.splits)

lemma wifi_inv_stop: "wifi_inv w \<Longrightarrow> wifi_inv (snd (wifi_stop w))"
  by (auto simp: wifi_inv_def wifi_stop_def)

lemma wifi_peer_id_prefix [simp]: "starts_with (wifi_peer_id h p) WIFI_PEER_PREFIX"
  by (simp add: wifi_peer_id_def)

lemma wifi_inv_accept: "wifi_inv w \<Longrightarrow> wifi_inv (snd (wifi_accept w h p c))"
  by (auto simp: wifi_inv_def wifi_accept_def Let_def dest!: subsetD [OF set_update_subset])

lemma wifi_inv_exit: "wifi_inv w \<Longrightarrow> wifi_inv (wifi_reader_exit w c)"
  by (auto simp: wifi_inv_def wifi_reader_exit_def dest!: subsetD [OF set_delete_subset]
      split: option.splits)

lemma wifi_inv_recv: "wifi_inv w \<Longrightarrow> wifi_inv (snd (wifi_recv m w c d))"
proof -
  assume w: "wifi_inv w"
  show ?thesis
  proof (cases "map_of (readers w) c")
    case None
    with w show ?thesis by (simp add: wifi_recv_def)
  next
    case (Some r)
    obtain p b where r: "r = (p, b)" by (cases r)
    have "stalled (snd (feed b x))" for x
      by (cases "feed b x") (auto simp: feed_def intro: assemble_result_stalled)
    then show ?thesis
      using w wifi_inv_exit [OF w, of c] Some r
      by (auto simp: wifi_recv_def wifi_inv_def dest!: subsetD [OF set_update_subset]
          split: option.splits sum.splits prod.splits) (metis snd_conv)+
  qed
qed

fun transport_inv :: "transport \<Rightarrow> bool" where
  "transport_inv (BleOnly b) = ble_inv b"
| "transport_inv (Multi b w) = (ble_inv b \<and> wifi_inv w \<and>
     (\<forall>p\<in>connected_peers (server b). \<not> starts_with p WIFI_PEER_PREFIX))"

lemma distinct_gatt_peers: "distinct (gatt_peers g)"
  by (simp add: gatt_peers_def)

lemma set_gatt_peers: "gatt_inv g \<Longrightarrow> set (gatt_peers g) = connected_peers g"
  by (simp add: gatt_peers_def gatt_inv_def)

lemma wifi_send_quiet: "length d < 65536 \<Longrightarrow> snd (wifi_send f w p d) = None"
  by (auto simp: wifi_send_def frame_error split: option.splits sum.splits)

lemma ble_send_quiet: "snd (ble_send f b p d) = None"
  by (simp add: ble_send_def split: prod.splits)

interpretation blet: phone_transport ble_send ble_list_peers ble_inv
  by unfold_locales (simp_all add: ble_send_quiet ble_list_peers_def distinct_gatt_peers)

interpretation wifit: phone_transport wifi_send wifi_list_peers wifi_inv
  by unfold_locales (simp_all add: wifi_send_quiet wifi_list_peers_def wifi_inv_def)

lemma transport_peers_distinct: "transport_inv t \<Longrightarrow> distinct (transport_list_peers t)"
  by (cases t) (auto simp: blet.peers_distinct wifit.peers_distinct ble_list_peers_def ble_inv_def
      wifi_list_peers_def wifi_inv_def distinct_gatt_peers set_gatt_peers)

lemma transport_send_quiet: "length d < 65536 \<Longrightarrow> snd (transport_send f t p d) = None"
  by (cases t) (simp_all add: blet.send_quiet wifit.send_quiet)

interpretation anyt: phone_transport transport_send transport_list_peers transport_inv
  by unfold_locales (simp_all add: transport_send_quiet transport_peers_distinct)

lemma oversized_send:
  assumes "65536 \<le> length data"
  shows "fst (transport_send f t peer_id data) = []"
proof -
  have "frame data = Inl StructError" using assms by (simp add: frame_error)
  then show ?thesis
    by (cases t) (auto simp: ble_send_def send_packet_def wifi_send_def split: option.splits)
qed

section \<open>A connection's reads\<close>

fun wifi_reads :: "nat \<Rightarrow> wifi \<Rightarrow> nat \<Rightarrow> bytes list \<Rightarrow> upcall list \<times> wifi" where
  "wifi_reads m w c [] = ([], w)"
| "wifi_reads m w c (d # ds) =
     (case wifi_recv m w c (Some d) of (u, w') \<Rightarrow>
        (case wifi_reads m w' c ds of (us, w'') \<Rightarrow> (u @ us, w'')))"

lemma wifi_reads_ok:
  assumes "feeds feed b ds = (Inr ps, b')" and "[] \<notin> set ds"
    and "map_of (readers w) c = Some (p, b)"
  shows "fst (wifi_reads m w c ds) = concat (map (wifi_dispatch m w p) ps)"
  using assms
proof (induction ds arbitrary: w b ps)
  case Nil
  then show ?case by simp
next
  case (Cons d ds)
  obtain qs b1 rs where f: "feed b d = (Inr qs, b1)" "feeds feed b1 ds = (Inr rs, b')" "ps = qs @ rs"
    using Cons.prems(1) by (auto split: prod.splits sum.splits)
  let ?w = "w\<lparr>readers := AList.update c (p, b1) (readers w)\<rparr>"
  have r: "wifi_recv m w c (Some d) = (concat (map (wifi_dispatch m w p) qs), ?w)"
    using Cons.prems f by (auto simp: wifi_recv_def)
  have "fst (wifi_reads m ?w c ds) = concat (map (wifi_dispatch m ?w p) rs)"
    using Cons.prems f by (intro Cons.IH) auto
  moreover have "wifi_dispatch m ?w p = wifi_dispatch m w p"
    by (simp add: fun_eq_iff wifi_dispatch_def)
  ultimately show ?case using r f by (auto split: prod.splits)
qed

section \<open>Properties\<close>



text \<open>Routing by peer id: a send to a WiFi peer only ever writes that peer's socket and a send to
  any other peer only notifies over BLE; no failure of the radio leaves \<open>send\<close> for a packet the
  length prefix can carry.\<close>

theorem multi_send_routes:
  assumes "length data < 65536"
  shows "snd (transport_send f (Multi b w) peer_id data) = None \<and>
    set (fst (transport_send f (Multi b w) peer_id data)) \<subseteq>
      (if starts_with peer_id WIFI_PEER_PREFIX
       then {TcpSend c (frame_of data) | c. map_of (conns w) peer_id = Some c}
       else range BleNotify)"
  using assms
  by (auto simp: anyt.send_quiet wifi_send_def ble_send_def frame_Inr frame_error frame_of_def
      split: option.splits sum.splits if_splits prod.splits)

theorem multi_send_routes_witness:
  "snd (transport_send no_faults (Multi (ble_init gatt_init) (wifi_init 1)) (lit ''wifi:x'') [1]) = None"
  using multi_send_routes [of "[1]" no_faults "ble_init gatt_init" "wifi_init 1" "lit ''wifi:x''"]
  by simp

text \<open>A packet longer than the length prefix can carry is never sent, on either radio: BLE drops
  it silently and WiFi raises \<open>struct.error\<close> for a connected peer.\<close>

theorem oversized_never_sent:
  assumes "65536 \<le> length data"
  shows "fst (transport_send f t peer_id data) = [] \<and>
    snd (transport_send f (Multi b w) peer_id data) =
      (if starts_with peer_id WIFI_PEER_PREFIX \<and> map_of (conns w) peer_id \<noteq> None
       then Some StructError else None)"
proof -
  have e: "frame data = Inl StructError" using assms by (simp add: frame_error)
  show ?thesis using oversized_send [OF assms]
    by (auto simp: e ble_send_def send_packet_def wifi_send_def split: option.splits)
qed

theorem oversized_never_sent_witness:
  "fst (transport_send no_faults (BleOnly (ble_init gatt_init)) [1] (replicate 65536 0)) = []"
  using oversized_never_sent [of "replicate 65536 0" no_faults "BleOnly (ble_init gatt_init)" "[1]"]
  by simp

text \<open>When a phone reconnects from the same address and port before the old reader thread has
  finished, that thread's clean-up removes the new connection: it is no longer listed and nothing
  can be sent to it.\<close>

theorem late_reader_drops_new_connection:
  assumes "map_of (readers w) c = Some (wifi_peer_id host p, buf)" and "running w" and "c' \<noteq> c"
    and "w' = snd (wifi_accept w host p c')"
  shows "map_of (conns w') (wifi_peer_id host p) = Some c' \<and>
    wifi_peer_id host p \<notin> set (wifi_list_peers (wifi_reader_exit w' c)) \<and>
    wifi_send f (wifi_reader_exit w' c) (wifi_peer_id host p) data = ([], None) \<and>
    map_of (readers (wifi_reader_exit w' c)) c' \<noteq> None"
  using assms
  by (auto simp: wifi_accept_def Let_def wifi_reader_exit_def wifi_list_peers_def wifi_send_def
      map_of_delete_eq dest: subsetD [OF set_delete_subset])

theorem late_reader_drops_new_connection_witness:
  "\<exists>w'. map_of (conns w') (wifi_peer_id [49] 5) = Some 4 \<and>
     wifi_peer_id [49] 5 \<notin> set (wifi_list_peers (wifi_reader_exit w' 3))"
proof -
  let ?w = "snd (wifi_accept ((wifi_init 7800)\<lparr>running := True\<rparr>) [49] 5 3)"
  have "map_of (readers ?w) 3 = Some (wifi_peer_id [49] 5, [])" "running ?w"
    by (simp_all add: wifi_accept_def wifi_init_def Let_def)
  with late_reader_drops_new_connection [of ?w 3 "[49]" 5 "[]" 4] show ?thesis by auto
qed

end
