(* ===== verification/LocationService.thy ===== *)
theory LocationService
  imports LocationAuthz Transports
begin

text \<open>
  \<open>node/location/service.py\<close>: the messages the node terminates itself. An operation returns what it
  puts on the radio, its result or exception, and the new state. The service is composed of the store, the
  authorisation state and the directory copy; the identity that signs a response is inside
  meshlink-core's \<open>build_signed_packet\<close>.
\<close>

definition RESPONSE_TTL :: int where
  "RESPONSE_TTL = 3"

definition RESPONSE_SPRAY_L :: int where
  "RESPONSE_SPRAY_L = 8"

record location_service =
  ls_store :: location_store
  ls_authz :: authz
  ls_directory :: directory
  ls_zone_id :: int
  ls_ephem_id :: bytes

text \<open>\<open>_who\<close> only makes text for the log, but its directory lookup can raise.\<close>

definition who :: "core \<Rightarrow> location_service \<Rightarrow> bytes \<Rightarrow> exn option" where
  "who c s key = (case account_for (pubkey_id c) (ls_directory s) key of Inl e \<Rightarrow> Some e | Inr _ \<Rightarrow> None)"

definition ingest_beacon :: "core \<Rightarrow> real \<Rightarrow> message \<Rightarrow> location_service \<Rightarrow> exn option \<times> location_service" where
  "ingest_beacon c snow msg s =
     (case decode_location_beacon c (msg_payload msg) of
        None \<Rightarrow> (None, s)
      | Some (lat, lon, acc) \<Rightarrow>
          (who c s (sender_key msg),
           s\<lparr>ls_store := store_update snow (sender_key msg) lat lon acc (msg_zone msg) (ls_store s)\<rparr>))"

definition send_response ::
  "core \<Rightarrow> faults \<Rightarrow> transport \<Rightarrow> pystr \<Rightarrow> bytes \<Rightarrow> location_service \<Rightarrow> radio list \<times> exn option" where
  "send_response c f t peer_id payload s =
     (case build_signed_packet c \<lparr>ps_ephem = ls_ephem_id s, ps_ttl = RESPONSE_TTL, ps_spray_l = RESPONSE_SPRAY_L,
        ps_zone = ls_zone_id s, ps_type = type_location_response c, ps_payload = payload\<rparr> of
        Inl e \<Rightarrow> ([], Some e)
      | Inr packet \<Rightarrow> transport_send f t peer_id packet)"

definition handle_node_terminated ::
  "core \<Rightarrow> faults \<Rightarrow> transport \<Rightarrow> real \<Rightarrow> real \<Rightarrow> pystr \<Rightarrow> message \<Rightarrow> location_service
   \<Rightarrow> (radio list \<times> (exn + bool)) \<times> location_service" where
  "handle_node_terminated c f t now snow peer_id msg s =
     (if msg_type msg = type_location c then
        (case ingest_beacon c snow msg s of (r, s') \<Rightarrow>
           (([], case r of None \<Rightarrow> Inr True | Some e \<Rightarrow> Inl e), s'))
      else if msg_type msg = type_location_query c then
        (case handle_query c (ls_directory s) (ls_store s) now snow msg (ls_authz s) of
           (Inl e, a) \<Rightarrow> (([], Inl e), s\<lparr>ls_authz := a\<rparr>)
         | (Inr None, a) \<Rightarrow> (([], Inr False), s\<lparr>ls_authz := a\<rparr>)
         | (Inr (Some payload), a) \<Rightarrow>
             (case send_response c f t peer_id payload s of
                (out, None) \<Rightarrow> ((out, Inr False), s\<lparr>ls_authz := a\<rparr>)
              | (out, Some e) \<Rightarrow> ((out, Inl e), s\<lparr>ls_authz := a\<rparr>)))
      else if msg_type msg = type_location_revoke c then
        (case handle_revoke c msg (ls_authz s) of
           (Inl e, a) \<Rightarrow> (([], Inl e), s\<lparr>ls_authz := a\<rparr>)
         | (Inr b, a) \<Rightarrow> (([], Inr False), s\<lparr>ls_authz := a\<rparr>))
      else (([], Inr False), s))"

section \<open>Lemmas\<close>

text \<open>The types are told apart by their numbers.\<close>

definition distinct_types :: "core \<Rightarrow> bool" where
  "distinct_types c = distinct [type_location c, type_location_query c, type_location_revoke c]"

lemma terminated_beacon:
  assumes "msg_type msg = type_location c"
  shows "fst (fst (handle_node_terminated c f t now snow peer_id msg s)) = [] \<and>
    snd (fst (handle_node_terminated c f t now snow peer_id msg s)) \<noteq> Inr False"
  using assms by (auto simp: handle_node_terminated_def split: prod.splits option.splits)

lemma terminated_true:
  assumes "handle_node_terminated c f t now snow peer_id msg s = ((out, Inr True), s')"
  shows "msg_type msg = type_location c"
  using assms
  by (auto simp: handle_node_terminated_def split: if_splits prod.splits sum.splits option.splits)

lemma terminated_emits:
  assumes "fst (fst (handle_node_terminated c f t now snow peer_id msg s)) \<noteq> []"
  shows "msg_type msg = type_location_query c \<and>
    (\<exists>p a. handle_query c (ls_directory s) (ls_store s) now snow msg (ls_authz s) = (Inr (Some p), a))"
  using assms
  by (auto simp: handle_node_terminated_def split: if_splits prod.splits sum.splits option.splits)

section \<open>Properties\<close>

text \<open>Refusals are silent and uniform: a query that is not served puts nothing on the radio and
  reports \<open>False\<close>, and the stored coordinates do not change; only the time of the last query may.\<close>

theorem refusal_is_silent:
  assumes "msg_type msg = type_location_query c" and "type_location_query c \<noteq> type_location c"
    and "handle_query c (ls_directory s) (ls_store s) now snow msg (ls_authz s) = (Inr None, a)"
  shows "handle_node_terminated c f t now snow peer_id msg s = (([], Inr False), s\<lparr>ls_authz := a\<rparr>) \<and>
    revoked a = revoked (ls_authz s)"
  using assms handle_query_state [of c "ls_directory s" "ls_store s" now snow msg "ls_authz s"]
  by (simp add: handle_node_terminated_def)

definition sample_service :: location_service where
  "sample_service = \<lparr>ls_store = [], ls_authz = authz_init 60, ls_directory = \<lparr>users_by_name = [],
     users_by_ed_id = [], disk = None, dir_url = []\<rparr>, ls_zone_id = 1, ls_ephem_id = []\<rparr>"

theorem refusal_is_silent_witness:
  "handle_node_terminated sample_core no_faults (BleOnly (ble_init gatt_init)) 100 100 [1] sample_query
     sample_service = (([], Inr False), sample_service\<lparr>ls_authz := authz_init 60\<rparr>)"
proof -
  have "handle_query sample_core (ls_directory sample_service) (ls_store sample_service) 100 100 sample_query
      (ls_authz sample_service) = (Inr None, authz_init 60)"
    by (simp add: handle_query_def admit_query_def sample_service_def sample_core_def sample_query_def
        by_ed25519_id_def)
  from refusal_is_silent [OF _ _ this] show ?thesis
    by (simp add: sample_core_def sample_query_def)
qed

text \<open>A response goes out only for a served query, as one signed packet of type
  \<open>LOCATION_RESPONSE\<close> that carries the served payload, over the session the query came in on.\<close>

theorem response_only_when_served:
  assumes "handle_node_terminated c f t now snow peer_id msg s = ((out, r), s')" and "out \<noteq> []"
  shows "\<exists>payload a packet. handle_query c (ls_directory s) (ls_store s) now snow msg (ls_authz s) = (Inr (Some payload), a) \<and>
    build_signed_packet c \<lparr>ps_ephem = ls_ephem_id s, ps_ttl = 3, ps_spray_l = 8, ps_zone = ls_zone_id s,
      ps_type = type_location_response c, ps_payload = payload\<rparr> = Inr packet \<and>
    out = fst (transport_send f t peer_id packet)"
  using assms
  by (auto simp: handle_node_terminated_def send_response_def RESPONSE_TTL_def RESPONSE_SPRAY_L_def
      split: if_splits prod.splits sum.splits option.splits)

theorem response_only_when_served_witness:
  "\<exists>payload a. handle_query sample_core sample_dir sample_store 100 100 sample_query (authz_init 60) = (Inr (Some payload), a)"
proof -
  let ?s = "sample_service\<lparr>ls_store := sample_store, ls_directory := sample_dir\<rparr>"
  let ?t = "BleOnly (ble_init gatt_init)"
  have h: "handle_query sample_core sample_dir sample_store 100 100 sample_query (authz_init 60) =
      (Inr (Some [3, 4, 170]), (authz_init 60)\<lparr>last_query :=
        AList.update ([3, 4], [1, 2]) 100 (last_query (authz_init 60))\<rparr>)"
    by (rule sample_served) (simp_all add: authz_init_def last_time_def)
  have "fst (transport_send no_faults ?t [1] [3, 4, 170]) \<noteq> []"
  proof -
    obtain cs where "send_packet (\<lambda>_. None) [1] [3, 4, 170] = (cs, None)" "concat cs = frame_of [3, 4, 170]"
      using send_packet_chunks [of "[3, 4, 170]" "\<lambda>_. None"] by auto
    then show ?thesis by (auto simp: ble_send_def no_faults_def frame_of_def)
  qed
  then have e: "fst (fst (handle_node_terminated sample_core no_faults ?t 100 100 [1] sample_query ?s)) \<noteq> []"
    using h by (simp add: handle_node_terminated_def sample_service_def send_response_def)
      (auto simp: sample_core_def sample_query_def split: prod.splits option.splits)
  obtain out r s' where "handle_node_terminated sample_core no_faults ?t 100 100 [1] sample_query ?s = ((out, r), s')"
    by (metis prod.exhaust)
  from response_only_when_served [OF this] this e show ?thesis
    by (simp add: sample_service_def) blast
qed

end
