(* ===== verification/PhonePing.thy ===== *)
theory PhonePing
  imports PyNum Transports
begin

text \<open>
  \<open>node/monitoring/phone_ping.py\<close>: the ping and pong frames, and \<open>PhonePingService\<close>. The state is
  the latest report per phone, the pending connect timers (peer and due time) and the stop flag.
  Operations that send return what goes on the radio. A \<open>None\<close> field of the code is \<open>JNull\<close> where it
  is any JSON value and \<open>None\<close> where its type is fixed.
\<close>

definition PHONE_PING_MAGIC :: bytes where
  "PHONE_PING_MAGIC = blit ''MLPP1''"

section \<open>Frames\<close>

definition optional_field :: "string \<Rightarrow> json \<Rightarrow> (pystr \<times> json) list" where
  "optional_field k v = (if v = JNull then [] else [(lit k, v)])"

definition tagged :: "bytes \<Rightarrow> (real \<Rightarrow> pystr) \<Rightarrow> json \<Rightarrow> exn + bytes" where
  "tagged magic frepr body =
     (case utf8_encode (dumps_compact frepr body) of Inl e \<Rightarrow> Inl e | Inr b \<Rightarrow> Inr (magic @ b))"

definition encode_ping :: "(real \<Rightarrow> pystr) \<Rightarrow> json \<Rightarrow> json \<Rightarrow> json \<Rightarrow> exn + bytes" where
  "encode_ping frepr node_name node_lat node_lon =
     tagged PHONE_PING_MAGIC frepr
       (JObj ([(lit ''t'', JStr (lit ''ping''))] @ optional_field ''node_name'' node_name @
              optional_field ''node_lat'' node_lat @ optional_field ''node_lon'' node_lon))"

definition pong_body :: "json \<Rightarrow> json \<Rightarrow> json \<Rightarrow> json \<Rightarrow> json" where
  "pong_body lat lon battery charging =
     JObj ([(lit ''t'', JStr (lit ''pong'')), (lit ''lat'', lat), (lit ''lon'', lon), (lit ''battery'', battery)] @
           optional_field ''charging'' charging)"

definition encode_pong :: "(real \<Rightarrow> pystr) \<Rightarrow> json \<Rightarrow> json \<Rightarrow> json \<Rightarrow> json \<Rightarrow> exn + bytes" where
  "encode_pong frepr lat lon battery charging =
     tagged PHONE_PING_MAGIC frepr (pong_body lat lon battery charging)"

definition is_telemetry_frame :: "bytes \<Rightarrow> bool" where
  "is_telemetry_frame fr = starts_with fr PHONE_PING_MAGIC"

text \<open>The lenient decoding both tagged protocols share: an object with a \<open>t\<close> key, or nothing.\<close>

definition decode_tagged :: "bytes \<Rightarrow> bytes \<Rightarrow> (pystr, json) dict option" where
  "decode_tagged magic fr =
     (if \<not> starts_with fr magic then None
      else (case Option.bind (decode_utf8 (drop (length magic) fr)) loads of
          Some (JObj d) \<Rightarrow> if map_of d (lit ''t'') = None then None else Some d
        | _ \<Rightarrow> None))"

definition decode :: "bytes \<Rightarrow> (pystr, json) dict option" where
  "decode fr = decode_tagged PHONE_PING_MAGIC fr"

text \<open>\<open>float()\<close> of an integer beyond the largest double overflows.\<close>

fun as_float :: "json \<Rightarrow> exn + pyfloat option" where
  "as_float (JInt n) =
     (if \<bar>n\<bar> < 2 ^ 1024 - 2 ^ 970 then Inr (Some (Fin (of_int n))) else Inl OverflowError)"
| "as_float (JFloat x) = Inr (Some x)"
| "as_float _ = Inr None"

fun as_int :: "json \<Rightarrow> exn + int option" where
  "as_int (JInt n) = Inr (Some n)"
| "as_int (JFloat x) = (case int_of_float x of Inl e \<Rightarrow> Inl e | Inr n \<Rightarrow> Inr (Some n))"
| "as_int _ = Inr None"

fun as_bool :: "json \<Rightarrow> bool option" where
  "as_bool (JBool b) = Some b"
| "as_bool _ = None"

section \<open>The service\<close>

record report =
  rep_lat :: "pyfloat option"
  rep_lon :: "pyfloat option"
  rep_battery :: "int option"
  rep_charging :: "bool option"
  received_at :: real

record phone_ping =
  pp_interval_s :: real
  connect_delay_s :: real
  pp_node_name :: json
  pp_node_lat :: json
  pp_node_lon :: json
  pp_reports :: "(pystr, report) dict"
  connect_timers :: "(pystr \<times> real) list"
  pp_stopped :: bool

definition phone_ping_init :: "real \<Rightarrow> real \<Rightarrow> json \<Rightarrow> json \<Rightarrow> json \<Rightarrow> phone_ping" where
  "phone_ping_init interval delay name lat lon =
     \<lparr>pp_interval_s = interval, connect_delay_s = delay, pp_node_name = name, pp_node_lat = lat,
      pp_node_lon = lon, pp_reports = [], connect_timers = [], pp_stopped = False\<rparr>"

definition report_ttl_s :: "phone_ping \<Rightarrow> real" where
  "report_ttl_s s = 3 * pp_interval_s s"

definition ping_peer ::
  "(real \<Rightarrow> pystr) \<Rightarrow> faults \<Rightarrow> transport \<Rightarrow> phone_ping \<Rightarrow> pystr \<Rightarrow> radio list \<times> exn option" where
  "ping_peer frepr f t s peer_id =
     (case encode_ping frepr (pp_node_name s) (pp_node_lat s) (pp_node_lon s) of
        Inl e \<Rightarrow> ([], Some e)
      | Inr ping \<Rightarrow> (fst (transport_send f t peer_id ping), None))"

definition ping_all ::
  "(real \<Rightarrow> pystr) \<Rightarrow> faults \<Rightarrow> transport \<Rightarrow> phone_ping \<Rightarrow> radio list \<times> exn option" where
  "ping_all frepr f t s = for_each (ping_peer frepr f t s) (transport_list_peers t)"

text \<open>A connect starts a timer; timers that have fired are no longer in the list.\<close>

definition on_peer_connected :: "real \<Rightarrow> pystr \<Rightarrow> phone_ping \<Rightarrow> phone_ping" where
  "on_peer_connected now peer_id s =
     s\<lparr>connect_timers := connect_timers s @ [(peer_id, now + connect_delay_s s)]\<rparr>"

definition fire_connect_ping ::
  "(real \<Rightarrow> pystr) \<Rightarrow> faults \<Rightarrow> transport \<Rightarrow> phone_ping \<Rightarrow> pystr \<Rightarrow> radio list \<times> exn option" where
  "fire_connect_ping frepr f t s peer_id = (if pp_stopped s then ([], None) else ping_peer frepr f t s peer_id)"

text \<open>The timers due at \<open>now\<close> fire, in the order they were started.\<close>

definition fire_timers ::
  "(real \<Rightarrow> pystr) \<Rightarrow> faults \<Rightarrow> transport \<Rightarrow> real \<Rightarrow> phone_ping \<Rightarrow> radio list \<times> phone_ping" where
  "fire_timers frepr f t now s =
     (concat (map (\<lambda>(p, due). fst (fire_connect_ping frepr f t s p))
        (filter (\<lambda>(p, due). due \<le> now) (connect_timers s))),
      s\<lparr>connect_timers := filter (\<lambda>(p, due). \<not> due \<le> now) (connect_timers s)\<rparr>)"

definition pp_stop :: "phone_ping \<Rightarrow> phone_ping" where
  "pp_stop s = s\<lparr>pp_stopped := True, connect_timers := []\<rparr>"

text \<open>The report of a pong body, built in the code's order.\<close>

definition pong_report :: "real \<Rightarrow> (pystr, json) dict \<Rightarrow> exn + report" where
  "pong_report now body =
     (case as_float (dict_get body (lit ''lat'')) of
        Inl e \<Rightarrow> Inl e
      | Inr lat \<Rightarrow>
          (case as_float (dict_get body (lit ''lon'')) of
             Inl e \<Rightarrow> Inl e
           | Inr lon \<Rightarrow>
               (case as_int (dict_get body (lit ''battery'')) of
                  Inl e \<Rightarrow> Inl e
                | Inr battery \<Rightarrow>
                    Inr \<lparr>rep_lat = lat, rep_lon = lon, rep_battery = battery,
                         rep_charging = as_bool (dict_get body (lit ''charging'')), received_at = now\<rparr>)))"

definition handle_frame :: "real \<Rightarrow> pystr \<Rightarrow> bytes \<Rightarrow> phone_ping \<Rightarrow> exn option \<times> phone_ping" where
  "handle_frame now peer_id fr s =
     (case decode fr of
        None \<Rightarrow> (None, s)
      | Some body \<Rightarrow>
          (if dict_get body (lit ''t'') \<noteq> JStr (lit ''pong'') then (None, s)
           else (case pong_report now body of
               Inl e \<Rightarrow> (Some e, s)
             | Inr r \<Rightarrow> (None, s\<lparr>pp_reports := AList.update peer_id r (pp_reports s)\<rparr>))))"

record aged_report =
  ag_peer_id :: pystr
  ag_report :: report
  age_s :: int

definition reports :: "real \<Rightarrow> phone_ping \<Rightarrow> aged_report list \<times> phone_ping" where
  "reports now s =
     (let cutoff = now - report_ttl_s s;
          stale = map fst (filter (\<lambda>(p, r). received_at r < cutoff) (pp_reports s));
          kept = fold AList.delete stale (pp_reports s)
      in (map (\<lambda>(p, r). \<lparr>ag_peer_id = p, ag_report = r, age_s = py_trunc (now - received_at r)\<rparr>)
            (sort_key fst kept),
          s\<lparr>pp_reports := kept\<rparr>))"

section \<open>Lemmas\<close>

lemma tagged_ok:
  "json_ok frepr v \<Longrightarrow> tagged magic frepr v = Inr (magic @ ascii_bytes (dumps_compact frepr v))"
  by (simp add: tagged_def utf8_encode_printable printable_dumps_compact)

lemma decode_tagged_printed:
  assumes "json_ok frepr (JObj d)"
  shows "decode_tagged magic (magic @ ascii_bytes (dumps_compact frepr (JObj d))) =
    (if map_of d (lit ''t'') = None then None else Some d)"
proof -
  have "decode_utf8 (ascii_bytes (dumps_compact frepr (JObj d))) = Some (dumps_compact frepr (JObj d))"
    using printable_ascii [OF printable_dumps_compact [OF assms]] by (simp add: decode_utf8_ascii)
  then show ?thesis
    using loads_dumps_compact [OF assms] by (simp add: decode_tagged_def)
qed

lemma decode_tagged_starts: "decode_tagged magic fr = Some d \<Longrightarrow> starts_with fr magic"
  by (simp add: decode_tagged_def split: if_splits)

definition valid_pong :: "real \<Rightarrow> bytes \<Rightarrow> report option" where
  "valid_pong now fr =
     (case decode fr of
        None \<Rightarrow> None
      | Some body \<Rightarrow> if dict_get body (lit ''t'') \<noteq> JStr (lit ''pong'') then None
                      else (case pong_report now body of Inl e \<Rightarrow> None | Inr r \<Rightarrow> Some r))"

lemma handle_frame_state:
  "snd (handle_frame now p fr s) =
     (case valid_pong now fr of None \<Rightarrow> s | Some r \<Rightarrow> s\<lparr>pp_reports := AList.update p r (pp_reports s)\<rparr>)"
  by (auto simp: handle_frame_def valid_pong_def split: option.splits sum.splits)

text \<open>Frames from several phones, each with the time it is handled.\<close>

definition pp_run :: "(real \<times> pystr \<times> bytes) list \<Rightarrow> phone_ping \<Rightarrow> phone_ping" where
  "pp_run fs s = fold (\<lambda>(now, p, fr) s. snd (handle_frame now p fr s)) fs s"

definition latest_pong :: "pystr \<Rightarrow> (real \<times> pystr \<times> bytes) list \<Rightarrow> report option \<Rightarrow> report option" where
  "latest_pong p fs r = fold (\<lambda>(now, q, fr) r. if q = p then
      (case valid_pong now fr of None \<Rightarrow> r | Some r' \<Rightarrow> Some r') else r) fs r"

lemma pp_run_reports:
  "map_of (pp_reports (pp_run fs s)) p = latest_pong p fs (map_of (pp_reports s) p) \<and>
   pp_interval_s (pp_run fs s) = pp_interval_s s \<and>
   (wf_dict (pp_reports s) \<longrightarrow> wf_dict (pp_reports (pp_run fs s)))"
proof (induction fs arbitrary: s)
  case Nil
  then show ?case by (simp add: pp_run_def latest_pong_def)
next
  case (Cons x fs)
  obtain now q fr where x: "x = (now, q, fr)" by (metis prod.exhaust)
  have "pp_run (x # fs) s = pp_run fs (snd (handle_frame now q fr s))"
    by (simp add: pp_run_def x)
  with Cons.IH [of "snd (handle_frame now q fr s)"] show ?case
    by (auto simp: x latest_pong_def handle_frame_state split: option.splits)
qed

lemma reports_kept:
  assumes "wf_dict (pp_reports s)"
  shows "pp_reports (snd (reports now s)) =
    filter (\<lambda>(p, r). \<not> received_at r < now - report_ttl_s s) (pp_reports s)"
  using fold_delete_keys [OF assms, of "\<lambda>(p, r). received_at r < now - report_ttl_s s"]
  by (simp add: reports_def Let_def case_prod_unfold)

lemma reports_list:
  "fst (reports now s) = map (\<lambda>(p, r). \<lparr>ag_peer_id = p, ag_report = r, age_s = py_trunc (now - received_at r)\<rparr>)
     (sort_key fst (pp_reports (snd (reports now s))))"
  by (simp add: reports_def Let_def)

section \<open>Properties\<close>

text \<open>What a phone answers is what the node keeps: a pong made by the reference encoder, handled
  by the service, replaces the phone's report by exactly its values.\<close>

theorem pong_roundtrip:
  assumes "json_ok frepr (JFloat lat)" and "json_ok frepr (JFloat lon)" and "json_ok frepr (JInt battery)"
  shows "\<exists>fr. encode_pong frepr (JFloat lat) (JFloat lon) (JInt battery) (JBool charging) = Inr fr \<and>
    handle_frame now peer_id fr s =
      (None, s\<lparr>pp_reports := AList.update peer_id
        \<lparr>rep_lat = Some lat, rep_lon = Some lon, rep_battery = Some battery, rep_charging = Some charging,
         received_at = now\<rparr> (pp_reports s)\<rparr>)"
proof -
  let ?d = "[(lit ''t'', JStr (lit ''pong'')), (lit ''lat'', JFloat lat), (lit ''lon'', JFloat lon),
      (lit ''battery'', JInt battery), (lit ''charging'', JBool charging)]"
  have b: "pong_body (JFloat lat) (JFloat lon) (JInt battery) (JBool charging) = JObj ?d"
    by (simp add: pong_body_def optional_field_def)
  have ok: "json_ok frepr (JObj ?d)"
    using assms by (simp add: encodable_def lit_def is_surrogate_def)
  let ?f = "PHONE_PING_MAGIC @ ascii_bytes (dumps_compact frepr (JObj ?d))"
  have "encode_pong frepr (JFloat lat) (JFloat lon) (JInt battery) (JBool charging) = Inr ?f"
    unfolding encode_pong_def b by (rule tagged_ok [OF ok])
  moreover have "decode ?f = Some ?d"
    using decode_tagged_printed [OF ok, of PHONE_PING_MAGIC] by (simp add: decode_def)
  then have "handle_frame now peer_id ?f s = (None, s\<lparr>pp_reports := AList.update peer_id
        \<lparr>rep_lat = Some lat, rep_lon = Some lon, rep_battery = Some battery, rep_charging = Some charging,
         received_at = now\<rparr> (pp_reports s)\<rparr>)"
    by (simp add: handle_frame_def dict_get_def pong_report_def)
  ultimately show ?thesis by blast
qed

theorem pong_roundtrip_witness:
  "\<exists>fr. encode_pong (\<lambda>_. []) (JFloat NaN) (JFloat PInf) (JInt 87) (JBool True) = Inr fr \<and>
     pp_reports (snd (handle_frame 5 [1] fr (phone_ping_init 90 3 JNull JNull JNull))) =
       [([1], \<lparr>rep_lat = Some NaN, rep_lon = Some PInf, rep_battery = Some 87, rep_charging = Some True,
               received_at = 5\<rparr>)]"
proof -
  have "json_ok (\<lambda>_. []) (JInt 87)" by (simp add: INT_MAX_STR_DIGITS_def nat_digits.simps)
  from pong_roundtrip [OF _ _ this, of NaN PInf True 5 "[1]" "phone_ping_init 90 3 JNull JNull JNull"]
  show ?thesis by (auto simp: phone_ping_init_def)
qed

text \<open>C33. The heartbeat sees exactly the latest live report of each phone: after any sequence of frames
  \<open>reports\<close> lists, once and in order of the peer id, the phones whose last valid pong is at most three
  intervals old, with that pong and its age.\<close>

theorem reports_are_latest_and_live:
  fixes fs :: "(real \<times> pystr \<times> bytes) list" and interval delay :: real and name lat lon :: json
  defines "s \<equiv> pp_run fs (phone_ping_init interval delay name lat lon)"
  shows "sorted (map ag_peer_id (fst (reports now s))) \<and> distinct (map ag_peer_id (fst (reports now s))) \<and>
    set (fst (reports now s)) =
      {\<lparr>ag_peer_id = p, ag_report = r, age_s = py_trunc (now - received_at r)\<rparr> | p r.
         latest_pong p fs None = Some r \<and> now - received_at r \<le> 3 * interval}"
proof -
  note run = pp_run_reports [of fs "phone_ping_init interval delay name lat lon", folded s_def]
  have wf: "wf_dict (pp_reports s)" using run by (simp add: phone_ping_init_def)
  have latest: "map_of (pp_reports s) p = latest_pong p fs None" for p
    using run by (simp add: phone_ping_init_def)
  have ttl: "report_ttl_s s = 3 * interval" using run by (simp add: report_ttl_s_def phone_ping_init_def)
  let ?k = "filter (\<lambda>(p, r). \<not> received_at r < now - 3 * interval) (pp_reports s)"
  have l: "fst (reports now s) = map (\<lambda>(p, r). \<lparr>ag_peer_id = p, ag_report = r,
      age_s = py_trunc (now - received_at r)\<rparr>) (sort_key fst ?k)"
    unfolding reports_list reports_kept [OF wf] ttl ..
  have ids: "map ag_peer_id (fst (reports now s)) = map fst (sort_key fst ?k)"
    unfolding l by (simp add: case_prod_beta)
  have "distinct (map fst ?k)" using wf by (rule wf_dict_filter)
  then have d: "distinct (map fst (sort_key fst ?k))"
    by (simp add: distinct_map)
  have m: "(p, r) \<in> set ?k \<longleftrightarrow> latest_pong p fs None = Some r \<and> now - received_at r \<le> 3 * interval" for p r
    using wf by (auto simp: latest [symmetric] dest: map_of_is_SomeI map_of_SomeD)
  have "set (fst (reports now s)) = (\<lambda>(p, r). \<lparr>ag_peer_id = p, ag_report = r,
      age_s = py_trunc (now - received_at r)\<rparr>) ` set ?k" unfolding l set_map set_sort ..
  also have "\<dots> = {\<lparr>ag_peer_id = p, ag_report = r, age_s = py_trunc (now - received_at r)\<rparr> | p r. (p, r) \<in> set ?k}"
    by (auto simp del: set_filter)
  finally have "set (fst (reports now s)) =
      {\<lparr>ag_peer_id = p, ag_report = r, age_s = py_trunc (now - received_at r)\<rparr> | p r.
         latest_pong p fs None = Some r \<and> now - received_at r \<le> 3 * interval}"
    unfolding m .
  with d show ?thesis unfolding ids by simp
qed

text \<open>A sweep sends one and the same ping to every listed phone, in order, and raises nothing,
  whatever fails on the radio.\<close>

theorem ping_all_reaches_every_phone:
  assumes "encode_ping frepr (pp_node_name s) (pp_node_lat s) (pp_node_lon s) = Inr ping"
  shows "ping_all frepr f t s =
    (concat (map (\<lambda>p. fst (transport_send f t p ping)) (transport_list_peers t)), None)"
proof -
  have "ping_peer frepr f t s p = (fst (transport_send f t p ping), None)" for p
    by (simp add: ping_peer_def assms)
  then show ?thesis by (simp add: ping_all_def for_each_total)
qed

theorem ping_all_reaches_every_phone_witness:
  "\<exists>ping. ping_all (\<lambda>_. []) no_faults (Multi (ble_init gatt_init) (snd (wifi_accept ((wifi_init 1)\<lparr>running := True\<rparr>) [49] 5 3)))
     (phone_ping_init 90 3 (JStr [65]) JNull JNull) = ([TcpSend 3 (frame_of ping)], None)"
proof -
  let ?s = "phone_ping_init 90 3 (JStr [65]) JNull JNull"
  let ?t = "Multi (ble_init gatt_init) (snd (wifi_accept ((wifi_init 1)\<lparr>running := True\<rparr>) [49] 5 3))"
  have "json_ok (\<lambda>_. []) (JObj ([(lit ''t'', JStr (lit ''ping''))] @ optional_field ''node_name'' (JStr [65])))"
    by (simp add: optional_field_def encodable_def lit_def is_surrogate_def)
  then obtain ping where p: "encode_ping (\<lambda>_. []) (pp_node_name ?s) (pp_node_lat ?s) (pp_node_lon ?s) = Inr ping"
    and l: "length ping < 65536"
    by (simp add: encode_ping_def phone_ping_init_def optional_field_def tagged_ok)
      (simp add: PHONE_PING_MAGIC_def blit_def ascii_bytes_def dumps_compact_def dump_string_def lit_def escape_char_def)
  have peers: "transport_list_peers ?t = [wifi_peer_id [49] 5]"
    by (simp add: ble_list_peers_def ble_init_def gatt_init_def gatt_peers_def wifi_list_peers_def
        wifi_accept_def wifi_init_def Let_def)
  have "fst (transport_send no_faults ?t (wifi_peer_id [49] 5) ping) = [TcpSend 3 (frame_of ping)]"
    using l by (simp add: wifi_send_def wifi_accept_def wifi_init_def Let_def no_faults_def frame_of_def frame_def
        pack_u16_def)
  then have "ping_all (\<lambda>_. []) no_faults ?t ?s = ([TcpSend 3 (frame_of ping)], None)"
    unfolding ping_all_reaches_every_phone [OF p, of no_faults ?t] peers by (simp del: transport_send.simps)
  then show ?thesis ..
qed

text \<open>A mistyped field is not always stored as \<open>None\<close>: a pong whose battery is the number
  \<open>Infinity\<close>, which \<open>json.loads\<close> accepts, makes \<open>handle_frame\<close> raise \<open>OverflowError\<close>, and the
  phone's earlier report stays.\<close>

theorem pong_with_infinite_battery_raises:
  "\<exists>fr. encode_pong frepr JNull JNull (JFloat PInf) JNull = Inr fr \<and>
    handle_frame now peer_id fr s = (Some OverflowError, s)"
proof -
  let ?d = "[(lit ''t'', JStr (lit ''pong'')), (lit ''lat'', JNull), (lit ''lon'', JNull),
      (lit ''battery'', JFloat PInf)]"
  have b: "pong_body JNull JNull (JFloat PInf) JNull = JObj ?d"
    by (simp add: pong_body_def optional_field_def)
  have ok: "json_ok frepr (JObj ?d)" by (simp add: encodable_def lit_def is_surrogate_def)
  have "decode (PHONE_PING_MAGIC @ ascii_bytes (dumps_compact frepr (JObj ?d))) = Some ?d"
    using decode_tagged_printed [OF ok, of PHONE_PING_MAGIC] by (simp add: decode_def)
  then show ?thesis
    unfolding encode_pong_def b tagged_ok [OF ok]
    by (simp add: handle_frame_def dict_get_def pong_report_def)
qed

end
