(* ===== verification/BackendProxy.thy ===== *)
theory BackendProxy
  imports PhonePing
begin

text \<open>
  \<open>node/backend_proxy.py\<close>: the frame codec, the path allow-list and \<open>BackendProxyService\<close>. Requests
  wait in \<open>bp_jobs\<close> for a worker. \<open>execute\<close> returns the HTTP request it made, if any, and the reply
  frame or the exception that ends the job without a reply. \<open>uplink\<close> is the HTTP client of the
  standard library with the backend behind it; \<open>rp\<close> is \<open>repr\<close> of a float or container.
\<close>

definition BACKEND_PROXY_MAGIC :: bytes where
  "BACKEND_PROXY_MAGIC = blit ''MLBP1''"

definition ALLOWED_PATH_PREFIXES :: "pystr list" where
  "ALLOWED_PATH_PREFIXES = map lit [''/auth/'', ''/tickets'', ''/attestation/'', ''/events'', ''/account'',
     ''/directory/'', ''/friendships'', ''/health'']"

definition ALLOWED_REST_PATHS :: "pystr list" where
  "ALLOWED_REST_PATHS = map lit [''/rest/v1/directory'', ''/rest/v1/friendships'', ''/rest/v1/relay_messages'',
     ''/rest/v1/rpc/send_friend_request'', ''/rest/v1/rpc/get_friend_requests'',
     ''/rest/v1/rpc/accept_friend_request'', ''/rest/v1/rpc/decline_friend_request'',
     ''/rest/v1/rpc/send_message'', ''/rest/v1/rpc/ack_messages'', ''/rest/v1/rpc/put_location_blobs'',
     ''/rest/v1/rpc/get_location'', ''/rest/v1/rpc/mirror_friendship'']"

definition ALLOWED_METHODS :: "pystr list" where
  "ALLOWED_METHODS = [lit ''GET'', lit ''POST'']"

definition MAX_RESPONSE_BYTES :: nat where
  "MAX_RESPONSE_BYTES = 256 * 1024"

section \<open>Frames\<close>

definition is_backend_proxy_frame :: "bytes \<Rightarrow> bool" where
  "is_backend_proxy_frame fr = starts_with fr BACKEND_PROXY_MAGIC"

definition proxy_decode :: "bytes \<Rightarrow> (pystr, json) dict option" where
  "proxy_decode fr = decode_tagged BACKEND_PROXY_MAGIC fr"

text \<open>A \<open>None\<close> body and an empty or absent header dictionary leave their key out.\<close>

definition encode_request ::
  "(real \<Rightarrow> pystr) \<Rightarrow> pystr \<Rightarrow> pystr \<Rightarrow> pystr \<Rightarrow> pystr option \<Rightarrow> (pystr, json) dict option \<Rightarrow> exn + bytes" where
  "encode_request frepr req_id method path body headers =
     tagged BACKEND_PROXY_MAGIC frepr
       (JObj ([(lit ''t'', JStr (lit ''req'')), (lit ''id'', JStr req_id), (lit ''method'', JStr method),
               (lit ''path'', JStr path)] @
              (case headers of None \<Rightarrow> [] | Some h \<Rightarrow> if h = [] then [] else [(lit ''headers'', JObj h)]) @
              (case body of None \<Rightarrow> [] | Some b \<Rightarrow> [(lit ''body'', JStr b)])))"

definition response_fields :: "json \<Rightarrow> int \<Rightarrow> pystr option \<Rightarrow> pystr option \<Rightarrow> (pystr, json) dict" where
  "response_fields req_id status body error =
     [(lit ''t'', JStr (lit ''res'')), (lit ''id'', req_id), (lit ''status'', JInt status)] @
     (case body of None \<Rightarrow> [] | Some b \<Rightarrow> [(lit ''body'', JStr b)]) @
     (case error of None \<Rightarrow> [] | Some e \<Rightarrow> [(lit ''error'', JStr e)])"

definition encode_response ::
  "(real \<Rightarrow> pystr) \<Rightarrow> json \<Rightarrow> int \<Rightarrow> pystr option \<Rightarrow> pystr option \<Rightarrow> exn + bytes" where
  "encode_response frepr req_id status body error =
     tagged BACKEND_PROXY_MAGIC frepr (JObj (response_fields req_id status body error))"

section \<open>The allow-list\<close>

definition contains_dotdot :: "pystr \<Rightarrow> bool" where
  "contains_dotdot path = list_ex (\<lambda>i. starts_with (drop i path) (lit ''..'')) [0..<length path]"

fun path_allowed :: "json \<Rightarrow> bool" where
  "path_allowed (JStr path) =
     (starts_with path (lit ''/'') \<and> \<not> contains_dotdot path \<and>
      (list_ex (starts_with path) ALLOWED_PATH_PREFIXES \<or>
       takeWhile (\<lambda>c. c \<noteq> 63) path \<in> set ALLOWED_REST_PATHS))"
| "path_allowed v = False"

section \<open>Serving a request\<close>

record http_request =
  rq_url :: pystr
  rq_data :: "bytes option"
  rq_headers :: "(pystr, pystr) dict"
  rq_method :: pystr

text \<open>What \<open>urlopen\<close> and reading the answer gave: a response, an HTTP error with its body (whose
  reading can itself fail), or any other exception.\<close>

datatype http_result = Response int bytes | Rejection int "exn + bytes" | NoResponse

text \<open>\<open>str.lower()\<close> as far as the header names can tell: besides the ASCII capitals only the Kelvin
  sign lowers to ASCII text.\<close>

definition header_lower :: "pystr \<Rightarrow> pystr" where
  "header_lower s = map (\<lambda>c. if 65 \<le> c \<and> c \<le> 90 then c + 32 else if c = 8490 then 107 else c) s"

definition canonical_headers :: "(pystr, pystr) dict" where
  "canonical_headers = [(lit ''authorization'', lit ''Authorization''), (lit ''apikey'', lit ''apikey''),
     (lit ''prefer'', lit ''Prefer'')]"

definition pass_header :: "pystr \<times> json \<Rightarrow> (pystr, pystr) dict \<Rightarrow> (pystr, pystr) dict" where
  "pass_header kv headers =
     (case (map_of canonical_headers (header_lower (fst kv)), snd kv) of
        (Some canonical, JStr v) \<Rightarrow> AList.update canonical v headers
      | _ \<Rightarrow> headers)"

definition build_headers :: "bool \<Rightarrow> json \<Rightarrow> (pystr, pystr) dict" where
  "build_headers has_data raw_headers =
     (let start = (if has_data then [(lit ''Content-Type'', lit ''application/json'')] else [])
      in case raw_headers of JObj d \<Rightarrow> fold pass_header d start | _ \<Rightarrow> start)"

text \<open>\<open>body.encode()\<close> of a text body; any other body is dropped.\<close>

definition request_data :: "json \<Rightarrow> exn + bytes option" where
  "request_data body =
     (case body of
        JStr s \<Rightarrow> (case utf8_encode s of Inl e \<Rightarrow> Inl e | Inr b \<Rightarrow> Inr (Some b))
      | _ \<Rightarrow> Inr None)"

definition finish_reply :: "(real \<Rightarrow> pystr) \<Rightarrow> json \<Rightarrow> int \<Rightarrow> bytes \<Rightarrow> exn + bytes" where
  "finish_reply frepr req_id status text =
     (if length text > MAX_RESPONSE_BYTES
      then encode_response frepr req_id 0 None (Some (lit ''response too large''))
      else encode_response frepr req_id status (Some (decode_utf8_replace text)) None)"

definition call_backend ::
  "(real \<Rightarrow> pystr) \<Rightarrow> (http_request \<Rightarrow> http_result) \<Rightarrow> json \<Rightarrow> http_request \<Rightarrow> exn + bytes" where
  "call_backend frepr uplink req_id rq =
     (case uplink rq of
        Response status body \<Rightarrow> finish_reply frepr req_id status (take (MAX_RESPONSE_BYTES + 1) body)
      | Rejection code (Inr body) \<Rightarrow> finish_reply frepr req_id code (take (MAX_RESPONSE_BYTES + 1) body)
      | Rejection code (Inl e) \<Rightarrow> Inl e
      | NoResponse \<Rightarrow> encode_response frepr req_id 0 None (Some (lit ''backend unreachable'')))"

definition json_text :: "json \<Rightarrow> pystr" where
  "json_text v = (case v of JStr s \<Rightarrow> s | _ \<Rightarrow> [])"

definition execute ::
  "(real \<Rightarrow> pystr) \<Rightarrow> (json \<Rightarrow> pystr) \<Rightarrow> (http_request \<Rightarrow> http_result) \<Rightarrow> pystr \<Rightarrow> (pystr, json) dict
   \<Rightarrow> http_request option \<times> (exn + bytes)" where
  "execute frepr rp uplink base_url req =
     (let req_id = dict_get req (lit ''id''); method = dict_get req (lit ''method'');
          path = dict_get req (lit ''path'')
      in if method \<notin> JStr ` set ALLOWED_METHODS
         then (None, encode_response frepr req_id 0 None (Some (lit ''method not allowed: '' @ py_str rp method)))
         else if \<not> path_allowed path
         then (None, encode_response frepr req_id 0 None (Some (lit ''path not allowed'')))
         else (case request_data (dict_get req (lit ''body'')) of
             Inl e \<Rightarrow> (None, Inl e)
           | Inr data \<Rightarrow>
               (let rq = \<lparr>rq_url = base_url @ json_text path, rq_data = data,
                          rq_headers = build_headers (data \<noteq> None) (dict_get req (lit ''headers'')),
                          rq_method = json_text method\<rparr>
                in (Some rq, call_backend frepr uplink req_id rq))))"

text \<open>\<open>_serve\<close>: an exception of \<open>_execute\<close> ends the job; one of \<open>send\<close> is logged.\<close>

definition serve ::
  "(real \<Rightarrow> pystr) \<Rightarrow> (json \<Rightarrow> pystr) \<Rightarrow> (http_request \<Rightarrow> http_result) \<Rightarrow> pystr \<Rightarrow> faults \<Rightarrow> transport
   \<Rightarrow> pystr \<Rightarrow> (pystr, json) dict \<Rightarrow> radio list" where
  "serve frepr rp uplink base_url f t peer_id req =
     (case snd (execute frepr rp uplink base_url req) of
        Inl e \<Rightarrow> []
      | Inr reply \<Rightarrow> fst (transport_send f t peer_id reply))"

section \<open>The service\<close>

record proxy =
  bp_base_url :: pystr
  bp_jobs :: "(pystr \<times> (pystr, json) dict) list"
  bp_shut :: bool

definition proxy_init :: "pystr \<Rightarrow> proxy" where
  "proxy_init base_url = \<lparr>bp_base_url = rstrip_char 47 base_url, bp_jobs = [], bp_shut = False\<rparr>"

text \<open>\<open>submit\<close> on a pool that is shut down raises \<open>RuntimeError\<close>, which is ignored.\<close>

definition proxy_handle_frame :: "pystr \<Rightarrow> bytes \<Rightarrow> proxy \<Rightarrow> proxy" where
  "proxy_handle_frame peer_id fr s =
     (case proxy_decode fr of
        None \<Rightarrow> s
      | Some body \<Rightarrow>
          (if dict_get body (lit ''t'') \<noteq> JStr (lit ''req'') then s
           else if bp_shut s then s
           else s\<lparr>bp_jobs := bp_jobs s @ [(peer_id, body)]\<rparr>))"

text \<open>A worker takes the next job.\<close>

definition proxy_work ::
  "(real \<Rightarrow> pystr) \<Rightarrow> (json \<Rightarrow> pystr) \<Rightarrow> (http_request \<Rightarrow> http_result) \<Rightarrow> faults \<Rightarrow> transport \<Rightarrow> proxy
   \<Rightarrow> radio list \<times> proxy" where
  "proxy_work frepr rp uplink f t s =
     (case bp_jobs s of
        [] \<Rightarrow> ([], s)
      | (peer_id, req) # rest \<Rightarrow>
          (serve frepr rp uplink (bp_base_url s) f t peer_id req, s\<lparr>bp_jobs := rest\<rparr>))"

definition proxy_stop :: "proxy \<Rightarrow> proxy" where
  "proxy_stop s = s\<lparr>bp_jobs := [], bp_shut := True\<rparr>"

section \<open>Lemmas\<close>

lemma starts_with_comparable:
  "starts_with s p \<Longrightarrow> starts_with s q \<Longrightarrow> starts_with p q \<or> starts_with q p"
  unfolding starts_with_iff_prefix by (rule prefix_same_cases) auto

text \<open>Every path the list lets through begins like one of these.\<close>

lemma rest_path_start: "p \<in> set ALLOWED_REST_PATHS \<Longrightarrow> starts_with p (lit ''/rest/v1/'')"
  by (auto simp: ALLOWED_REST_PATHS_def lit_def starts_with_def)

lemma takeWhile_starts: "starts_with (takeWhile P s) p \<Longrightarrow> starts_with s p"
  unfolding starts_with_iff_prefix by (meson prefix_order.trans takeWhile_is_prefix)

lemma path_allowed_start:
  assumes "path_allowed (JStr path)"
  shows "\<exists>p\<in>set (lit ''/rest/v1/'' # ALLOWED_PATH_PREFIXES). starts_with path p"
  using assms by (auto simp: list_ex_iff dest: rest_path_start takeWhile_starts)

lemma pass_header_keys:
  "fst ` set (pass_header kv h) \<subseteq> fst ` set h \<union> {lit ''Authorization'', lit ''apikey'', lit ''Prefer''}"
proof (cases "map_of canonical_headers (header_lower (fst kv))")
  case (Some c)
  then have "c \<in> snd ` set canonical_headers" by (force dest: map_of_SomeD)
  then have "c \<in> {lit ''Authorization'', lit ''apikey'', lit ''Prefer''}" by (auto simp: canonical_headers_def)
  with Some show ?thesis by (cases "snd kv") (auto simp: pass_header_def dom_update)
qed (auto simp: pass_header_def)

lemma fold_pass_header_keys:
  "fst ` set (fold pass_header d h) \<subseteq> fst ` set h \<union> {lit ''Authorization'', lit ''apikey'', lit ''Prefer''}"
proof (induction d arbitrary: h)
  case (Cons kv d)
  show ?case using Cons.IH [of "pass_header kv h"] pass_header_keys [of kv h] by auto
qed auto

lemma build_headers_keys:
  "fst ` set (build_headers b raw) \<subseteq>
     {lit ''Content-Type'', lit ''Authorization'', lit ''apikey'', lit ''Prefer''}"
  using fold_pass_header_keys by (cases raw) (fastforce simp: build_headers_def Let_def)+

lemma execute_request:
  assumes "execute frepr rp uplink base_url req = (Some rq, r)"
  obtains path m data where "dict_get req (lit ''path'') = JStr path" "path_allowed (JStr path)"
    "m \<in> set ALLOWED_METHODS" "rq = \<lparr>rq_url = base_url @ path, rq_data = data,
      rq_headers = build_headers (data \<noteq> None) (dict_get req (lit ''headers'')), rq_method = m\<rparr>"
proof -
  obtain m where m: "dict_get req (lit ''method'') = JStr m" "m \<in> set ALLOWED_METHODS"
    using assms by (auto simp: execute_def Let_def split: if_splits)
  have a: "path_allowed (dict_get req (lit ''path''))"
    using assms by (auto simp: execute_def Let_def split: if_splits)
  then obtain path where path: "dict_get req (lit ''path'') = JStr path"
    by (cases "dict_get req (lit ''path'')") auto
  from assms obtain data where "rq = \<lparr>rq_url = base_url @ path, rq_data = data,
      rq_headers = build_headers (data \<noteq> None) (dict_get req (lit ''headers'')), rq_method = m\<rparr>"
    using m a unfolding execute_def Let_def path
    by (auto simp del: path_allowed.simps simp: json_text_def m split: sum.splits)
  with that path a m(2) show thesis by simp
qed

text \<open>The reply goes out under the id of the request.\<close>

lemma encode_response_decodes:
  assumes "json_ok frepr (JObj (response_fields req_id status body error))"
    and "encode_response frepr req_id status body error = Inr reply"
  shows "proxy_decode reply = Some (response_fields req_id status body error)"
proof -
  have "reply = BACKEND_PROXY_MAGIC @ ascii_bytes (dumps_compact frepr (JObj (response_fields req_id status body error)))"
    using assms by (simp add: encode_response_def tagged_ok)
  moreover have "map_of (response_fields req_id status body error) (lit ''t'') \<noteq> None"
    by (simp add: response_fields_def)
  ultimately show ?thesis
    using decode_tagged_printed [OF assms(1), of BACKEND_PROXY_MAGIC] by (auto simp: proxy_decode_def)
qed

lemma length_escaped: "length s \<le> length (concat (map escape_char s))"
proof (induction s)
  case (Cons c s)
  have "1 \<le> length (escape_char c)" by (simp add: escape_char_def)
  with Cons show ?case by simp
qed simp

section \<open>Properties\<close>

text \<open>C26. Nothing outside the allow-list reaches the uplink: a request that \<open>execute\<close> makes is a GET or
  POST of the base URL followed by a text path that begins with an app-facing prefix or is an exact
  REST path, has no \<open>..\<close>, and carries no header but the three that may cross and the content type.\<close>

theorem uplink_sees_allowed_requests_only:
  assumes "execute frepr rp uplink base_url req = (Some rq, r)"
  shows "\<exists>path. dict_get req (lit ''path'') = JStr path \<and> rq_url rq = base_url @ path \<and>
    path_allowed (JStr path) \<and> \<not> contains_dotdot path \<and> rq_method rq \<in> set ALLOWED_METHODS \<and>
    (\<exists>p\<in>set (lit ''/rest/v1/'' # ALLOWED_PATH_PREFIXES). starts_with path p) \<and>
    fst ` set (rq_headers rq) \<subseteq>
      {lit ''Content-Type'', lit ''Authorization'', lit ''apikey'', lit ''Prefer''}"
proof -
  obtain path m data where path: "dict_get req (lit ''path'') = JStr path" "path_allowed (JStr path)"
    and m: "m \<in> set ALLOWED_METHODS" and rq: "rq = \<lparr>rq_url = base_url @ path, rq_data = data,
      rq_headers = build_headers (data \<noteq> None) (dict_get req (lit ''headers'')), rq_method = m\<rparr>"
    using assms by (rule execute_request)
  show ?thesis
    using path path_allowed_start [OF path(2)] m build_headers_keys by (simp add: rq)
qed

definition sample_request :: "(pystr, json) dict" where
  "sample_request = [(lit ''t'', JStr (lit ''req'')), (lit ''id'', JStr (lit ''a3'')),
     (lit ''method'', JStr (lit ''GET'')), (lit ''path'', JStr (lit ''/tickets?x=1''))]"

lemma sample_path: "path_allowed (JStr (lit ''/tickets?x=1''))"
  by (simp add: contains_dotdot_def ALLOWED_PATH_PREFIXES_def starts_with_def lit_def upt_rec)

lemma sample_execute:
  "execute frepr rp uplink base_url sample_request =
    (Some \<lparr>rq_url = base_url @ lit ''/tickets?x=1'', rq_data = None, rq_headers = [], rq_method = lit ''GET''\<rparr>,
     call_backend frepr uplink (JStr (lit ''a3''))
       \<lparr>rq_url = base_url @ lit ''/tickets?x=1'', rq_data = None, rq_headers = [], rq_method = lit ''GET''\<rparr>)"
proof -
  have g: "dict_get sample_request (lit ''id'') = JStr (lit ''a3'')"
    "dict_get sample_request (lit ''method'') = JStr (lit ''GET'')"
    "dict_get sample_request (lit ''path'') = JStr (lit ''/tickets?x=1'')"
    "dict_get sample_request (lit ''body'') = JNull" "dict_get sample_request (lit ''headers'') = JNull"
    by (simp_all add: dict_get_def sample_request_def)
  show ?thesis
    unfolding execute_def Let_def g
    by (simp only: sample_path) (simp add: ALLOWED_METHODS_def request_data_def build_headers_def json_text_def)
qed

theorem uplink_sees_allowed_requests_only_witness:
  "\<exists>path. dict_get sample_request (lit ''path'') = JStr path \<and> \<not> contains_dotdot path"
  using uplink_sees_allowed_requests_only [OF sample_execute [of "\<lambda>_. []" "\<lambda>_. []" "\<lambda>_. NoResponse" "[]"]]
  by blast

text \<open>The operator surface is closed: no path that begins with \<open>/heartbeat\<close>, \<open>/admin\<close>,
  \<open>/dashboard\<close> or \<open>/noc\<close> is allowed, and a request for one is answered without using the uplink.\<close>

theorem operator_surface_refused:
  assumes "starts_with path p" and "p \<in> lit ` {''/heartbeat'', ''/admin'', ''/dashboard'', ''/noc''}"
    and "dict_get req (lit ''path'') = JStr path"
  shows "\<not> path_allowed (JStr path) \<and> fst (execute frepr rp uplink base_url req) = None"
proof -
  have "\<not> starts_with path q" if q: "q \<in> set (lit ''/rest/v1/'' # ALLOWED_PATH_PREFIXES)" for q
  proof
    assume "starts_with path q"
    with assms(1) have "starts_with p q \<or> starts_with q p" by (rule starts_with_comparable)
    with q assms(2) show False by (auto simp: ALLOWED_PATH_PREFIXES_def starts_with_def lit_def)
  qed
  then have n: "\<not> path_allowed (JStr path)" using path_allowed_start by blast
  then have "fst (execute frepr rp uplink base_url req) = None"
    by (simp only: execute_def Let_def assms(3)) simp
  with n show ?thesis by blast
qed

theorem operator_surface_refused_witness:
  "fst (execute (\<lambda>_. []) (\<lambda>_. []) (\<lambda>_. NoResponse) [] [(lit ''method'', JStr (lit ''GET'')),
     (lit ''path'', JStr (lit ''/admin/keys''))]) = None"
proof -
  have "starts_with (lit ''/admin/keys'') (lit ''/admin'')" by (simp add: starts_with_def lit_def)
  from operator_surface_refused [OF this, of "[(lit ''method'', JStr (lit ''GET'')), (lit ''path'', JStr (lit ''/admin/keys''))]"]
  show ?thesis by (simp add: dict_get_def)
qed

text \<open>The \<open>..\<close> test is textual: a path whose dots are percent-encoded passes the allow-list, so
  whether it stays inside the allowed prefix depends on how the backend resolves it.\<close>

theorem encoded_dots_pass:
  "path_allowed (JStr (lit ''/events/%2e%2e/admin'')) \<and> \<not> path_allowed (JStr (lit ''/events/../admin''))"
  by (simp add: contains_dotdot_def ALLOWED_PATH_PREFIXES_def starts_with_def lit_def upt_rec)

text \<open>Every served request is answered once, under its own id: when the call reaches the backend
  with a readable answer, the reply decodes to a \<open>res\<close> object with the request's id and the backend's
  status and text, or to the refusal of an answer above the size limit.\<close>

theorem reply_carries_request_id:
  assumes "execute frepr rp uplink base_url req = (Some rq, Inr reply)" and "uplink rq = Response status body"
    and "json_ok frepr (dict_get req (lit ''id''))" and "json_ok frepr (JInt status)"
  shows "proxy_decode reply = Some
    (if length body > MAX_RESPONSE_BYTES
     then response_fields (dict_get req (lit ''id'')) 0 None (Some (lit ''response too large''))
     else response_fields (dict_get req (lit ''id'')) status (Some (decode_utf8_replace body)) None)"
proof -
  let ?id = "dict_get req (lit ''id'')"
  have r: "call_backend frepr uplink ?id rq = Inr reply"
    using assms(1) by (auto simp: execute_def Let_def split: if_splits sum.splits)
  have ok: "json_ok frepr (JObj (response_fields ?id st b e))"
    if "json_ok frepr (JInt st)" "\<forall>s. b = Some s \<or> e = Some s \<longrightarrow> encodable s" for st b e
    using that assms(3) by (auto simp: response_fields_def encodable_lit split: option.splits)
  have zero: "json_ok frepr (JInt 0)" by (simp add: INT_MAX_STR_DIGITS_def nat_digits_0)
  show ?thesis
  proof (cases "length body > MAX_RESPONSE_BYTES")
    case True
    then have "encode_response frepr ?id 0 None (Some (lit ''response too large'')) = Inr reply"
      using r assms(2) by (simp add: call_backend_def finish_reply_def)
    with encode_response_decodes [OF ok [OF zero]] True show ?thesis by (simp add: encodable_lit)
  next
    case False
    then have "encode_response frepr ?id status (Some (decode_utf8_replace body)) None = Inr reply"
      using r assms(2) by (simp add: call_backend_def finish_reply_def)
    with encode_response_decodes [OF ok [OF assms(4)]] False show ?thesis
      by (simp add: decode_utf8_replace_def encodable_replace)
  qed
qed

theorem reply_carries_request_id_witness:
  "\<exists>reply. snd (execute (\<lambda>_. []) (\<lambda>_. []) (\<lambda>_. Response 200 [79, 75]) [] sample_request) = Inr reply \<and>
     proxy_decode reply = Some (response_fields (JStr (lit ''a3'')) 200 (Some [79, 75]) None)"
proof -
  have id: "dict_get sample_request (lit ''id'') = JStr (lit ''a3'')"
    by (simp add: dict_get_def sample_request_def)
  have dec: "decode_utf8_replace [79, 75] = [79, 75]"
    by (simp add: decode_utf8_replace_def utf8_replace_ascii ascii_text_def)
  have ok: "json_ok (\<lambda>_. []) (JObj (response_fields (JStr (lit ''a3'')) 200 (Some [79, 75]) None))"
    by (simp add: response_fields_def encodable_lit INT_MAX_STR_DIGITS_def nat_digits.simps)
      (simp add: encodable_def is_surrogate_def)
  obtain rq where rq: "execute (\<lambda>_. []) (\<lambda>_. []) (\<lambda>_. Response 200 [79, 75]) [] sample_request =
      (Some rq, encode_response (\<lambda>_. []) (JStr (lit ''a3'')) 200 (Some [79, 75]) None)"
    by (simp add: sample_execute call_backend_def finish_reply_def MAX_RESPONSE_BYTES_def dec)
  moreover obtain reply where "encode_response (\<lambda>_. []) (JStr (lit ''a3'')) 200 (Some [79, 75]) None = Inr reply"
    by (simp add: encode_response_def tagged_ok [OF ok])
  ultimately have e: "execute (\<lambda>_. []) (\<lambda>_. []) (\<lambda>_. Response 200 [79, 75]) [] sample_request = (Some rq, Inr reply)"
    by simp
  have "json_ok (\<lambda>_. []) (JInt 200)" by (simp add: INT_MAX_STR_DIGITS_def nat_digits.simps)
  with reply_carries_request_id [OF e refl] have
    "proxy_decode reply = Some (response_fields (JStr (lit ''a3'')) 200 (Some [79, 75]) None)"
    by (simp add: id dec encodable_lit MAX_RESPONSE_BYTES_def)
  with e show ?thesis by simp
qed

text \<open>A large answer is lost: a readable backend answer of ASCII text between 65536 bytes and the
  declared limit of 256 KiB gives a reply frame longer than the length prefix can carry, so nothing
  at all is sent to the phone.\<close>

theorem large_response_never_sent:
  assumes "execute frepr rp uplink base_url req = (Some rq, Inr reply)" and "uplink rq = Response status body"
    and "65536 \<le> length body" and "length body \<le> MAX_RESPONSE_BYTES" and "\<forall>b\<in>set body. 32 \<le> unat b \<and> unat b < 127"
    and "json_ok frepr (dict_get req (lit ''id''))" and "json_ok frepr (JInt status)"
  shows "serve frepr rp uplink base_url f t peer_id req = []"
proof -
  let ?id = "dict_get req (lit ''id'')"
  have a: "ascii_text (map unat body)" using assms(5) by (auto simp: ascii_text_def list_all_iff)
  have dec: "decode_utf8_replace body = map unat body"
    by (simp add: decode_utf8_replace_def utf8_replace_ascii a)
  have r: "call_backend frepr uplink ?id rq = Inr reply"
    using assms(1) by (auto simp: execute_def Let_def split: if_splits sum.splits)
  then have e: "encode_response frepr ?id status (Some (map unat body)) None = Inr reply"
    using assms(2,4) by (simp add: call_backend_def finish_reply_def dec)
  have "json_ok frepr (JObj (response_fields ?id status (Some (map unat body)) None))"
    using assms(6,7) ascii_encodable [OF a] by (simp add: response_fields_def encodable_lit)
  from tagged_ok [OF this] e have "reply = BACKEND_PROXY_MAGIC @ ascii_bytes
      (dumps_compact frepr (JObj (response_fields ?id status (Some (map unat body)) None)))"
    by (simp add: encode_response_def)
  moreover have "length body \<le> length (concat (map (escape_char \<circ> unat) body))"
    using length_escaped [of "map unat body"] by simp
  ultimately have "length body \<le> length reply"
    by (simp add: ascii_bytes_def dumps_compact_def response_fields_def dump_string_def)
  then have "fst (transport_send f t peer_id reply) = []"
    using assms(3) oversized_send [of reply f t peer_id] by simp
  then show ?thesis using assms(1) by (simp add: serve_def)
qed

theorem large_response_never_sent_witness:
  "serve (\<lambda>_. []) (\<lambda>_. []) (\<lambda>_. Response 200 (replicate 70000 65)) [] no_faults (BleOnly (ble_init gatt_init)) [1]
     sample_request = []"
proof -
  let ?b = "replicate 70000 (65 :: byte)"
  have id: "dict_get sample_request (lit ''id'') = JStr (lit ''a3'')"
    by (simp add: dict_get_def sample_request_def)
  have s: "json_ok (\<lambda>_. []) (JInt 200)" by (simp add: INT_MAX_STR_DIGITS_def nat_digits.simps)
  have ok: "json_ok (\<lambda>_. []) (JObj (response_fields (JStr (lit ''a3'')) 200 (Some (decode_utf8_replace ?b)) None))"
    using s by (simp add: response_fields_def encodable_lit decode_utf8_replace_def encodable_replace)
  obtain rq where rq: "execute (\<lambda>_. []) (\<lambda>_. []) (\<lambda>_. Response 200 ?b) [] sample_request =
      (Some rq, encode_response (\<lambda>_. []) (JStr (lit ''a3'')) 200 (Some (decode_utf8_replace ?b)) None)"
    by (simp add: sample_execute call_backend_def finish_reply_def MAX_RESPONSE_BYTES_def)
  moreover obtain reply where
    "encode_response (\<lambda>_. []) (JStr (lit ''a3'')) 200 (Some (decode_utf8_replace ?b)) None = Inr reply"
    by (simp add: encode_response_def tagged_ok [OF ok])
  ultimately have "execute (\<lambda>_. []) (\<lambda>_. []) (\<lambda>_. Response 200 ?b) [] sample_request = (Some rq, Inr reply)"
    by simp
  from large_response_never_sent [OF this refl] show ?thesis
    using s by (simp add: id encodable_lit MAX_RESPONSE_BYTES_def)
qed

text \<open>On the Bluetooth side a reply is not addressed: whatever peer it is meant for, the same
  notifications go out, to every subscribed phone.\<close>

theorem ble_reply_is_unaddressed:
  "serve frepr rp uplink base_url f (BleOnly b) p req = serve frepr rp uplink base_url f (BleOnly b) q req"
  by (simp add: serve_def ble_send_def send_packet_def split: sum.split)

text \<open>A request whose body text cannot be encoded gets no reply: \<open>body.encode()\<close> raises outside
  the \<open>try\<close>, so the worker ends and the phone hears nothing.\<close>

theorem surrogate_body_gets_no_reply:
  assumes "dict_get req (lit ''method'') = JStr m" and "m \<in> set ALLOWED_METHODS"
    and "path_allowed (dict_get req (lit ''path''))"
    and "dict_get req (lit ''body'') = JStr s" and "\<not> encodable s"
  shows "execute frepr rp uplink base_url req = (None, Inl UnicodeError) \<and>
    serve frepr rp uplink base_url f t peer_id req = []"
proof -
  have "execute frepr rp uplink base_url req = (None, Inl UnicodeError)"
    using assms by (simp add: execute_def Let_def request_data_def utf8_encode_def)
  then show ?thesis by (simp add: serve_def)
qed

theorem surrogate_body_gets_no_reply_witness:
  "serve (\<lambda>_. []) (\<lambda>_. []) (\<lambda>_. NoResponse) [] no_faults (BleOnly (ble_init gatt_init)) [1]
     (sample_request @ [(lit ''body'', JStr [55357])]) = []"
proof -
  have g: "dict_get (sample_request @ [(lit ''body'', JStr [55357])]) (lit ''method'') = JStr (lit ''GET'')"
    "dict_get (sample_request @ [(lit ''body'', JStr [55357])]) (lit ''path'') = JStr (lit ''/tickets?x=1'')"
    "dict_get (sample_request @ [(lit ''body'', JStr [55357])]) (lit ''body'') = JStr [55357]"
    by (simp_all add: dict_get_def sample_request_def)
  from surrogate_body_gets_no_reply [OF g(1) _ _ g(3)] sample_path show ?thesis
    unfolding g(2) by (simp add: ALLOWED_METHODS_def encodable_def is_surrogate_def)
qed

end
