(* ===== verification/ZoneTable.thy ===== *)
theory ZoneTable
  imports Prelude
begin

text \<open>
  \<open>node/backhaul/dynamic_zone_table.py\<close>: the zone table filled by gossip. \<open>learned\<close> holds the last
  announcement per zone with the clock reading it was recorded at, \<open>pinned\<close> the operator's seed.
  Every operation takes the clock reading \<open>now\<close> as an argument; the code reads the clock once per
  entry inside a locked operation, which is taken to be one reading.
\<close>

record 'addr ztable =
  own_zone_id :: int
  entry_ttl_s :: real
  pinned :: "(int, 'addr) dict"
  learned :: "(int, 'addr \<times> real) dict"

definition ztable_init :: "int \<Rightarrow> (int, 'addr) dict \<Rightarrow> real \<Rightarrow> 'addr ztable" where
  "ztable_init own seed ttl = \<lparr>own_zone_id = own, entry_ttl_s = ttl, pinned = seed, learned = []\<rparr>"

definition expired :: "real \<Rightarrow> 'addr ztable \<Rightarrow> real \<Rightarrow> bool" where
  "expired now t last_seen = (now - last_seen > entry_ttl_s t)"

definition learn :: "real \<Rightarrow> int \<Rightarrow> 'addr \<Rightarrow> 'addr ztable \<Rightarrow> 'addr ztable" where
  "learn now zone_id addr t = t\<lparr>learned := AList.update zone_id (addr, now) (learned t)\<rparr>"

definition addr_for :: "real \<Rightarrow> int \<Rightarrow> 'addr ztable \<Rightarrow> 'addr option" where
  "addr_for now zone_id t =
     (case map_of (learned t) zone_id of
        Some (addr, seen) \<Rightarrow> if \<not> expired now t seen then Some addr else map_of (pinned t) zone_id
      | None \<Rightarrow> map_of (pinned t) zone_id)"

definition forget_stale :: "real \<Rightarrow> 'addr ztable \<Rightarrow> int list \<times> 'addr ztable" where
  "forget_stale now t =
     (let gone = map fst (filter (\<lambda>(z, (_, seen)). expired now t seen) (learned t))
      in (gone, t\<lparr>learned := fold AList.delete gone (learned t)\<rparr>))"

definition known_zones :: "real \<Rightarrow> 'addr ztable \<Rightarrow> int set" where
  "known_zones now t =
     set (map fst (filter (\<lambda>(z, (_, seen)). \<not> expired now t seen) (learned t))) \<union>
     set (map fst (pinned t))"

definition peer_count :: "real \<Rightarrow> 'addr ztable \<Rightarrow> nat" where
  "peer_count now t = card (known_zones now t - {own_zone_id t})"

definition snapshot :: "real \<Rightarrow> 'addr ztable \<Rightarrow> (int, 'addr) dict" where
  "snapshot now t =
     dict_update (pinned t)
       (map (\<lambda>(z, (addr, _)). (z, addr)) (filter (\<lambda>(z, (_, seen)). \<not> expired now t seen) (learned t)))"

section \<open>The contract of a routing table\<close>

text \<open>
  What the backhaul and zone-sync rely on: a fresh announcement is the route, an expired one leaves
  the fallback, other zones are untouched and pruning is invisible to later lookups.
\<close>

locale routing_table =
  fixes record_route :: "real \<Rightarrow> int \<Rightarrow> 'a \<Rightarrow> 't \<Rightarrow> 't"
    and route :: "real \<Rightarrow> int \<Rightarrow> 't \<Rightarrow> 'a option"
    and prune :: "real \<Rightarrow> 't \<Rightarrow> 't"
    and fallback :: "'t \<Rightarrow> int \<Rightarrow> 'a option"
    and ttl :: "'t \<Rightarrow> real"
    and ok :: "'t \<Rightarrow> bool"
  assumes ok_record: "ok t \<Longrightarrow> ok (record_route n z a t)"
    and ok_prune: "ok t \<Longrightarrow> ok (prune n t)"
    and ttl_record: "ttl (record_route n z a t) = ttl t"
    and ttl_prune: "ttl (prune n t) = ttl t"
    and fallback_record: "fallback (record_route n z a t) = fallback t"
    and fallback_prune: "fallback (prune n t) = fallback t"
    and route_fresh: "ok t \<Longrightarrow> m - n \<le> ttl t \<Longrightarrow> route m z (record_route n z a t) = Some a"
    and route_expired: "ok t \<Longrightarrow> m - n > ttl t \<Longrightarrow> route m z (record_route n z a t) = fallback t z"
    and route_other: "ok t \<Longrightarrow> z' \<noteq> z \<Longrightarrow> route m z' (record_route n z a t) = route m z' t"
    and route_prune: "ok t \<Longrightarrow> n \<le> m \<Longrightarrow> route m z (prune n t) = route m z t"

datatype 'a table_event = Learn real int 'a | Prune real

fun table_run :: "(real \<Rightarrow> int \<Rightarrow> 'a \<Rightarrow> 't \<Rightarrow> 't) \<Rightarrow> (real \<Rightarrow> 't \<Rightarrow> 't) \<Rightarrow> 't \<Rightarrow> 'a table_event list \<Rightarrow> 't" where
  "table_run rec prn t [] = t"
| "table_run rec prn t (Learn n z a # es) = table_run rec prn (rec n z a t) es"
| "table_run rec prn t (Prune n # es) = table_run rec prn (prn n t) es"

text \<open>The last announcement of a zone in a history, if any.\<close>

fun last_learn :: "int \<Rightarrow> ('a \<times> real) option \<Rightarrow> 'a table_event list \<Rightarrow> ('a \<times> real) option" where
  "last_learn z l [] = l"
| "last_learn z l (Learn n z' a # es) = last_learn z (if z' = z then Some (a, n) else l) es"
| "last_learn z l (Prune n # es) = last_learn z l es"

fun prunes_until :: "real \<Rightarrow> 'a table_event list \<Rightarrow> bool" where
  "prunes_until m [] = True"
| "prunes_until m (Learn n z a # es) = prunes_until m es"
| "prunes_until m (Prune n # es) = (n \<le> m \<and> prunes_until m es)"

text \<open>What a history of announcements says about a zone at time \<open>m\<close>, with \<open>d\<close> for a zone nobody
  announced: the abstract routing table.\<close>

definition announced_route :: "real \<Rightarrow> 'a option \<Rightarrow> real \<Rightarrow> 'a option \<Rightarrow> ('a \<times> real) option \<Rightarrow> 'a option" where
  "announced_route ttl seed m d l =
     (case l of None \<Rightarrow> d | Some (a, n) \<Rightarrow> if m - n \<le> ttl then Some a else seed)"

context routing_table
begin

lemma route_record:
  "ok t \<Longrightarrow> route m z (record_route n z' a t) =
     (if z' = z then (if m - n \<le> ttl t then Some a else fallback t z) else route m z t)"
  using route_fresh route_expired route_other by force

lemma route_history:
  assumes "ok t" and "prunes_until m es"
    and "route m z t = announced_route (ttl t) (fallback t z) m d l"
  shows "route m z (table_run record_route prune t es) =
    announced_route (ttl t) (fallback t z) m d (last_learn z l es)"
  using assms
proof (induction es arbitrary: t l)
  case Nil
  then show ?case by simp
next
  case (Cons e es)
  show ?case
  proof (cases e)
    case (Learn n z' a)
    let ?t = "record_route n z' a t"
    have "route m z ?t = announced_route (ttl ?t) (fallback ?t z) m d (if z' = z then Some (a, n) else l)"
      using Cons.prems by (simp add: route_record ttl_record fallback_record announced_route_def)
    with Cons.IH [of ?t] Cons.prems Learn ok_record show ?thesis
      by (simp add: ttl_record fallback_record)
  next
    case (Prune n)
    with Cons.IH [of "prune n t" l] Cons.prems ok_prune show ?thesis
      by (simp add: ttl_prune fallback_prune route_prune)
  qed
qed

end

section \<open>The dynamic table provides it\<close>

definition ztable_ok :: "'addr ztable \<Rightarrow> bool" where
  "ztable_ok t = (wf_dict (learned t) \<and> wf_dict (pinned t))"

lemma expired_learned_update [simp]: "expired m (t\<lparr>learned := l\<rparr>) s = expired m t s"
  by (simp add: expired_def)

lemma forget_stale_learned:
  "wf_dict (learned t) \<Longrightarrow> learned (snd (forget_stale now t)) =
     filter (\<lambda>(z, (_, seen)). \<not> expired now t seen) (learned t)"
  by (simp add: forget_stale_def Let_def fold_delete_keys case_prod_unfold)

lemma forget_stale_frame:
  "pinned (snd (forget_stale now t)) = pinned t" "entry_ttl_s (snd (forget_stale now t)) = entry_ttl_s t"
  "own_zone_id (snd (forget_stale now t)) = own_zone_id t"
  by (simp_all add: forget_stale_def Let_def)

lemma ztable_ok_init: "wf_dict seed \<Longrightarrow> ztable_ok (ztable_init own seed ttl)"
  by (simp add: ztable_ok_def ztable_init_def)

lemma ztable_ok_learn: "ztable_ok t \<Longrightarrow> ztable_ok (learn now z a t)"
  by (simp add: ztable_ok_def learn_def)

lemma ztable_ok_forget: "ztable_ok t \<Longrightarrow> ztable_ok (snd (forget_stale now t))"
  by (simp add: ztable_ok_def forget_stale_learned forget_stale_frame)

lemma addr_for_forget:
  assumes "ztable_ok t" and "now \<le> m"
  shows "addr_for m z (snd (forget_stale now t)) = addr_for m z t"
proof -
  have w: "wf_dict (learned t)" using assms(1) by (simp add: ztable_ok_def)
  show ?thesis
    using assms(2)
    by (auto simp: addr_for_def forget_stale_learned [OF w] forget_stale_frame map_of_filter_wf [OF w]
        expired_def split: option.splits)
qed

lemma addr_for_learn:
  "addr_for m z' (learn n z a t) =
     (if z' = z then (if m - n \<le> entry_ttl_s t then Some a else map_of (pinned t) z)
      else addr_for m z' t)"
  by (auto simp: addr_for_def learn_def expired_def split: option.splits)

lemma learn_frame:
  "pinned (learn n z a t) = pinned t" "entry_ttl_s (learn n z a t) = entry_ttl_s t"
  by (simp_all add: learn_def)

interpretation ztab: routing_table learn addr_for "\<lambda>n t. snd (forget_stale n t)"
  "\<lambda>t. map_of (pinned t)" entry_ttl_s ztable_ok
  by unfold_locales
    (simp_all add: ztable_ok_learn ztable_ok_forget addr_for_forget forget_stale_frame
      learn_frame addr_for_learn)

lemma map_fst_strip [simp]: "map fst (map (\<lambda>(z, (a, _)). (z, a)) d) = map fst d"
  by (induction d) auto

lemma map_of_strip [simp]: "map_of (map (\<lambda>(z, (a, _)). (z, a)) d) k = map_option fst (map_of d k)"
  by (induction d) auto

lemma snapshot_addr_for: "ztable_ok t \<Longrightarrow> map_of (snapshot now t) z = addr_for now z t"
proof -
  assume "ztable_ok t"
  then have w: "wf_dict (learned t)" by (simp add: ztable_ok_def)
  then have "map_of (snapshot now t) z =
      (case map_option fst (map_of (filter (\<lambda>(z, (_, seen)). \<not> expired now t seen) (learned t)) z) of
         None \<Rightarrow> map_of (pinned t) z | Some a \<Rightarrow> Some a)"
    unfolding snapshot_def by (subst map_of_dict_update) (simp_all only: map_fst_strip wf_dict_filter map_of_strip)
  then show ?thesis by (auto simp: map_of_filter_wf [OF w] addr_for_def split: option.splits)
qed

lemma known_zones_addr_for: "ztable_ok t \<Longrightarrow> z \<in> known_zones now t \<longleftrightarrow> addr_for now z t \<noteq> None"
  unfolding known_zones_def Un_iff mem_keys_map_of
  by (auto simp: ztable_ok_def map_of_filter_wf addr_for_def split: option.splits)

lemma forget_stale_gone:
  assumes "wf_dict (learned t)"
  shows "set (fst (forget_stale now t)) =
    {z. \<exists>a seen. map_of (learned t) z = Some (a, seen) \<and> expired now t seen}"
proof -
  have "z \<in> set (fst (forget_stale now t)) \<longleftrightarrow>
      (\<exists>a seen. map_of (learned t) z = Some (a, seen) \<and> expired now t seen)" for z
    unfolding forget_stale_def Let_def fst_conv mem_keys_map_of
    by (auto simp: map_of_filter_wf [OF assms] split: option.splits)
  then show ?thesis by blast
qed

section \<open>Properties\<close>

text \<open>C25. The table implements its contract: after any history of announcements and prunings, the
  address of a zone is the last one announced for it while that announcement is within its time to
  live, and the pinned seed otherwise.\<close>

theorem zone_table_history:
  assumes "wf_dict seed" and "prunes_until now es"
  shows "addr_for now z (table_run learn (\<lambda>n t. snd (forget_stale n t)) (ztable_init own seed ttl) es) =
    announced_route ttl (map_of seed z) now (map_of seed z) (last_learn z None es)"
proof -
  let ?t = "ztable_init own seed ttl"
  have init: "addr_for now z ?t = announced_route ttl (map_of seed z) now (map_of seed z) None"
    by (simp add: ztable_init_def addr_for_def announced_route_def)
  have "entry_ttl_s ?t = ttl" "pinned ?t = seed" by (simp_all add: ztable_init_def)
  with ztab.route_history [OF ztable_ok_init [OF assms(1)] assms(2)] init show ?thesis by metis
qed

theorem zone_table_history_witness:
  "addr_for 200 (2::int) (table_run learn (\<lambda>n t. snd (forget_stale n t)) (ztable_init 1 [(2, ''pin'')] 180)
     [Learn 10 2 ''a'', Learn 30 3 ''b'', Prune 100, Learn 90 2 ''c'']) = Some ''c''"
  using zone_table_history [of "[(2, ''pin'')]" 200
      "[Learn 10 2 ''a'', Learn 30 3 ''b'', Prune 100, Learn 90 2 ''c'']" 2 1 180]
  by (simp add: announced_route_def)

text \<open>Pruning reports exactly the learned zones whose announcement has expired, keeps no expired
  entry, and changes no lookup, count or snapshot from then on.\<close>

theorem forget_stale_invisible:
  assumes "ztable_ok t" and "forget_stale now t = (gone, t')" and "now \<le> m"
  shows "set gone = {z. \<exists>a seen. map_of (learned t) z = Some (a, seen) \<and> expired now t seen} \<and>
    list_all (\<lambda>(z, (_, seen)). \<not> expired now t seen) (learned t') \<and>
    (\<forall>z. addr_for m z t' = addr_for m z t) \<and> known_zones m t' = known_zones m t \<and>
    peer_count m t' = peer_count m t \<and> map_of (snapshot m t') = map_of (snapshot m t)"
proof -
  have t': "t' = snd (forget_stale now t)" "gone = fst (forget_stale now t)" using assms(2) by simp_all
  have w: "wf_dict (learned t)" using assms(1) by (simp add: ztable_ok_def)
  have ok': "ztable_ok t'" by (simp add: t' ztable_ok_forget assms(1))
  have a: "addr_for m z t' = addr_for m z t" for z
    by (simp add: t' addr_for_forget assms(1,3))
  have k: "known_zones m t' = known_zones m t"
    by (rule set_eqI) (simp only: known_zones_addr_for [OF assms(1)] known_zones_addr_for [OF ok'] a)
  have f: "list_all (\<lambda>(z, (_, seen)). \<not> expired now t seen) (learned t')"
    by (auto simp: t' forget_stale_learned [OF w] list_all_iff)
  have p: "peer_count m t' = peer_count m t"
    unfolding peer_count_def k by (simp add: t' forget_stale_frame)
  have s: "map_of (snapshot m t') = map_of (snapshot m t)"
    by (rule ext) (simp only: snapshot_addr_for [OF assms(1)] snapshot_addr_for [OF ok'] a)
  show ?thesis
    unfolding t'(2) by (intro conjI allI forget_stale_gone [OF w] f a k p s)
qed

theorem forget_stale_invisible_witness:
  "\<forall>z. addr_for 200 z (snd (forget_stale 195 (learn 10 2 ''a'' (ztable_init 1 [] 180)))) =
   addr_for 200 z (learn 10 2 ''a'' (ztable_init 1 [] 180))"
proof -
  have "ztable_ok (learn 10 2 ''a'' (ztable_init 1 [] 180))"
    by (simp add: ztable_ok_learn ztable_ok_init)
  from forget_stale_invisible [OF this surjective_pairing, of 195 200] show ?thesis by simp
qed

text \<open>The views agree: a zone is known exactly when it has an address, the snapshot is the lookup
  as a dictionary, and the peer count is the number of other zones with an address.\<close>

theorem zone_views_agree:
  assumes "ztable_ok t"
  shows "known_zones now t = {z. addr_for now z t \<noteq> None} \<and>
    map_of (snapshot now t) = (\<lambda>z. addr_for now z t) \<and> wf_dict (snapshot now t) \<and>
    peer_count now t = card {z. z \<noteq> own_zone_id t \<and> addr_for now z t \<noteq> None}"
proof -
  have "known_zones now t = {z. addr_for now z t \<noteq> None}"
    using known_zones_addr_for [OF assms] by blast
  moreover from this have "known_zones now t - {own_zone_id t} =
      {z. z \<noteq> own_zone_id t \<and> addr_for now z t \<noteq> None}" by blast
  ultimately show ?thesis
    using snapshot_addr_for [OF assms] assms wf_dict_dict_update [of "pinned t"]
    by (auto simp: fun_eq_iff peer_count_def snapshot_def ztable_ok_def)
qed

theorem zone_views_agree_witness:
  "map_of (snapshot 50 (learn 10 2 ''a'' (ztable_init 1 [(2, ''p''), (3, ''q'')] 180))) =
     (\<lambda>z. addr_for 50 z (learn 10 2 ''a'' (ztable_init 1 [(2, ''p''), (3, ''q'')] 180)))"
proof -
  have "ztable_ok (learn 10 2 ''a'' (ztable_init 1 [(2, ''p''), (3, ''q'')] 180))"
    by (simp add: ztable_ok_learn ztable_ok_init)
  from zone_views_agree [OF this] show ?thesis by blast
qed

end
