(* ===== verification/ZoneSync.thy ===== *)
theory ZoneSync
  imports PyNum ZoneTable
begin

text \<open>
  \<open>node/backhaul/zone_sync.py\<close>: the announcement codec and the handling of a received control
  frame. An address is whatever JSON value was announced, except that a list becomes a tuple, as in
  the code: a host name is a \<open>JStr\<close>, a host and port the tuple of a \<open>JStr\<close> and a \<open>JInt\<close>.
\<close>

datatype addr = AValue json | ATuple "json list"

abbreviation host_addr :: "pystr \<Rightarrow> addr" where
  "host_addr h \<equiv> AValue (JStr h)"

abbreviation pair_addr :: "pystr \<Rightarrow> int \<Rightarrow> addr" where
  "pair_addr h p \<equiv> ATuple [JStr h, JInt p]"

definition ZONE_SYNC_MAGIC :: bytes where
  "ZONE_SYNC_MAGIC = blit ''MLZS1''"

record announcement =
  ann_node_id :: pystr
  ann_zone_id :: int
  ann_addr :: addr

fun wire_addr :: "addr \<Rightarrow> json" where
  "wire_addr (ATuple vs) = JArr vs"
| "wire_addr (AValue v) = v"

definition announcement_body :: "pystr \<Rightarrow> int \<Rightarrow> addr \<Rightarrow> json" where
  "announcement_body node_id zone_id addr =
     JObj [(lit ''node_id'', JStr node_id), (lit ''zone_id'', JInt zone_id), (lit ''addr'', wire_addr addr)]"

definition encode_announcement :: "(real \<Rightarrow> pystr) \<Rightarrow> pystr \<Rightarrow> int \<Rightarrow> addr \<Rightarrow> exn + bytes" where
  "encode_announcement frepr node_id zone_id addr =
     (case utf8_encode (dumps_default frepr (announcement_body node_id zone_id addr)) of
        Inl e \<Rightarrow> Inl e
      | Inr b \<Rightarrow> Inr (ZONE_SYNC_MAGIC @ b))"

text \<open>The body of the \<open>try\<close>: the node id, the zone and the raw address, or the exception.\<close>

definition read_body :: "(json \<Rightarrow> pystr) \<Rightarrow> bytes \<Rightarrow> exn + pystr \<times> int \<times> json" where
  "read_body rp b =
     (case loads_bytes b of
        None \<Rightarrow> Inl ValueError
      | Some body \<Rightarrow>
          (case subscript body (lit ''node_id'') of
             Inl e \<Rightarrow> Inl e
           | Inr nid \<Rightarrow>
               (case subscript body (lit ''zone_id'') of
                  Inl e \<Rightarrow> Inl e
                | Inr z \<Rightarrow>
                    (case py_int z of
                       Inl e \<Rightarrow> Inl e
                     | Inr zone_id \<Rightarrow>
                         (case subscript body (lit ''addr'') of
                            Inl e \<Rightarrow> Inl e
                          | Inr raw \<Rightarrow> Inr (py_str rp nid, zone_id, raw))))))"

fun tuple_addr :: "json \<Rightarrow> addr" where
  "tuple_addr (JArr vs) = ATuple vs"
| "tuple_addr v = AValue v"

text \<open>\<open>except (ValueError, KeyError, TypeError)\<close>: anything else leaves the function.\<close>

definition decode_announcement :: "(json \<Rightarrow> pystr) \<Rightarrow> bytes \<Rightarrow> exn + announcement option" where
  "decode_announcement rp frame =
     (if \<not> starts_with frame ZONE_SYNC_MAGIC then Inr None
      else (case read_body rp (drop (length ZONE_SYNC_MAGIC) frame) of
          Inl e \<Rightarrow> if is_value_error e \<or> e = KeyError \<or> e = TypeError then Inr None else Inl e
        | Inr (node_id, zone_id, raw) \<Rightarrow>
            Inr (Some \<lparr>ann_node_id = node_id, ann_zone_id = zone_id, ann_addr = tuple_addr raw\<rparr>)))"

record zone_sync =
  zs_node_id :: pystr
  zs_zone_id :: int
  zs_own_addr :: addr

definition on_control ::
  "(json \<Rightarrow> pystr) \<Rightarrow> real \<Rightarrow> zone_sync \<Rightarrow> bytes \<Rightarrow> addr ztable \<Rightarrow> exn option \<times> addr ztable" where
  "on_control rp now zs frame table =
     (case decode_announcement rp frame of
        Inl e \<Rightarrow> (Some e, table)
      | Inr None \<Rightarrow> (None, table)
      | Inr (Some ann) \<Rightarrow>
          (if ann_node_id ann = zs_node_id zs then (None, table)
           else (None, learn now (ann_zone_id ann) (ann_addr ann) table)))"

section \<open>Lemmas\<close>

text \<open>The announcements the encoder is meant for.\<close>

definition announceable :: "(real \<Rightarrow> pystr) \<Rightarrow> pystr \<Rightarrow> int \<Rightarrow> addr \<Rightarrow> bool" where
  "announceable frepr node_id zone_id addr =
     (encodable node_id \<and> length (nat_digits (nat \<bar>zone_id\<bar>)) \<le> INT_MAX_STR_DIGITS \<and>
      json_ok frepr (wire_addr addr) \<and> (\<forall>vs. addr \<noteq> AValue (JArr vs)))"

lemma body_ok: "announceable frepr n z a \<Longrightarrow> json_ok frepr (announcement_body n z a)"
  by (simp add: announceable_def announcement_body_def encodable_lit)

lemma encode_announcement_ok:
  assumes "announceable frepr n z a"
  shows "encode_announcement frepr n z a =
    Inr (ZONE_SYNC_MAGIC @ ascii_bytes (dumps_default frepr (announcement_body n z a)))"
  using utf8_encode_printable [OF printable_dumps_default [OF body_ok [OF assms]]]
  by (simp add: encode_announcement_def)

lemma tuple_wire_addr: "(\<forall>vs. a \<noteq> AValue (JArr vs)) \<Longrightarrow> tuple_addr (wire_addr a) = a"
  by (cases a; cases "wire_addr a") auto

lemma announced_decodes:
  assumes "announceable frepr n z a" and "encode_announcement frepr n z a = Inr f"
  shows "decode_announcement rp f =
    Inr (Some \<lparr>ann_node_id = n, ann_zone_id = z, ann_addr = a\<rparr>)"
proof -
  let ?s = "dumps_default frepr (announcement_body n z a)"
  have f: "f = ZONE_SYNC_MAGIC @ ascii_bytes ?s" using encode_announcement_ok assms by simp
  have "loads_bytes (ascii_bytes ?s) = Some (announcement_body n z a)"
    using loads_bytes_printable printable_dumps_default loads_dumps_default body_ok [OF assms(1)] by simp
  then have "read_body rp (ascii_bytes ?s) = Inr (n, z, wire_addr a)"
    by (simp add: read_body_def announcement_body_def)
  then show ?thesis using assms(1) by (simp add: f decode_announcement_def tuple_wire_addr announceable_def)
qed

lemma on_control_frame:
  "pinned (snd (on_control rp now zs f t)) = pinned t \<and>
   own_zone_id (snd (on_control rp now zs f t)) = own_zone_id t \<and>
   entry_ttl_s (snd (on_control rp now zs f t)) = entry_ttl_s t"
  by (auto simp: on_control_def learn_def split: sum.splits option.splits)

lemma ztable_ok_control: "ztable_ok t \<Longrightarrow> ztable_ok (snd (on_control rp now zs f t))"
  by (auto simp: on_control_def ztable_ok_learn split: sum.splits option.splits)

section \<open>Properties\<close>

text \<open>A node's announcement arrives as it was sent: decoding what \<open>encode_announcement\<close> makes
  gives the node id, the zone and the address, a host-and-port pair as a tuple again.\<close>

theorem announcement_roundtrip:
  assumes "announceable frepr node_id zone_id addr"
  shows "\<exists>f. encode_announcement frepr node_id zone_id addr = Inr f \<and>
    decode_announcement rp f =
      Inr (Some \<lparr>ann_node_id = node_id, ann_zone_id = zone_id, ann_addr = addr\<rparr>)"
  using encode_announcement_ok [OF assms] announced_decodes [OF assms] by blast

theorem announcement_roundtrip_witness:
  "\<exists>f. encode_announcement (\<lambda>x. []) (lit ''pi-3'') 3 (pair_addr (lit ''10.77.0.3'') 19788) = Inr f \<and>
    decode_announcement (\<lambda>v. []) f =
      Inr (Some \<lparr>ann_node_id = lit ''pi-3'', ann_zone_id = 3, ann_addr = pair_addr (lit ''10.77.0.3'') 19788\<rparr>)"
  by (rule announcement_roundtrip)
    (simp add: announceable_def encodable_lit INT_MAX_STR_DIGITS_def nat_digits.simps)

definition infinite_zone :: bytes where
  "infinite_zone = blit ''MLZS1{\"node_id\":\"x\",\"zone_id\":Infinity,\"addr\":\"h\"}''"

text \<open>A malformed frame is not always dropped: with \<open>"zone_id": Infinity\<close>, which
  \<open>json.loads\<close> accepts, \<open>decode_announcement\<close> raises \<open>OverflowError\<close>, which its \<open>except\<close> does not
  name. The table is not changed by it.\<close>

theorem decode_raises_on_infinite_zone:
  "decode_announcement rp infinite_zone = Inl OverflowError \<and>
   on_control rp now zs infinite_zone table = (Some OverflowError, table)"
proof -
  let ?v = "JObj [(lit ''node_id'', JStr (lit ''x'')), (lit ''zone_id'', JFloat PInf), (lit ''addr'', JStr (lit ''h''))]"
  have "json_ok (\<lambda>x. []) ?v" by (simp add: encodable_lit)
  from loads_dumps_compact [OF this] printable_dumps_compact [OF this]
  have "loads_bytes (ascii_bytes (dumps_compact (\<lambda>x. []) ?v)) = Some ?v"
    by (simp only: loads_bytes_printable)
  moreover have "infinite_zone = ZONE_SYNC_MAGIC @ ascii_bytes (dumps_compact (\<lambda>x. []) ?v)"
    by (simp add: infinite_zone_def ZONE_SYNC_MAGIC_def blit_def dumps_compact_def lit_def dump_string_def
        escape_char_def ascii_bytes_def)
  ultimately obtain b where b: "loads_bytes b = Some ?v" and f: "infinite_zone = ZONE_SYNC_MAGIC @ b" by blast
  have "decode_announcement rp infinite_zone = Inl OverflowError"
    unfolding f decode_announcement_def by (simp add: read_body_def b)
  then show ?thesis by (simp add: on_control_def)
qed

end
