(* ===== verification/Backhaul.thy ===== *)
theory Backhaul
  imports ZoneSync
begin

text \<open>
  \<open>node/backhaul/batman_backhaul.py\<close>, the stub of \<open>node/backhaul/base.py\<close>, and the sending half of
  \<open>ZoneSync\<close>. The state is \<open>BatmanBackhaul\<close>'s with the shared zone table in it. A send returns the
  datagrams it hands to the network and the exception that leaves it; \<open>net\<close> is what the operating
  system does with a host name and a datagram. A received datagram goes to one of two callbacks.
\<close>

record net =
  idna_fault :: "pystr \<Rightarrow> exn option"
  unresolvable :: "pystr \<Rightarrow> bool"
  transmit_fails :: "pystr \<Rightarrow> int \<Rightarrow> bytes \<Rightarrow> bool"

definition quiet_net :: net where
  "quiet_net = \<lparr>idna_fault = (\<lambda>_. None), unresolvable = (\<lambda>_. False), transmit_fails = (\<lambda>_ _ _. False)\<rparr>"

datatype datagram = Datagram pystr int bytes

record backhaul =
  bh_zone_id :: int
  bh_table :: "addr ztable"
  bh_own_addr :: addr
  bh_broadcast_addr :: addr
  bh_port :: int
  data_cb :: bool
  control_cb :: bool
  bh_running :: bool

definition bh_init :: "int \<Rightarrow> addr ztable option \<Rightarrow> addr option \<Rightarrow> addr \<Rightarrow> int \<Rightarrow> backhaul" where
  "bh_init zone_id table own broadcast_addr udp_port =
     \<lparr>bh_zone_id = zone_id,
      bh_table = (case table of Some t \<Rightarrow> t | None \<Rightarrow> ztable_init zone_id [] 180),
      bh_own_addr = (case own of Some a \<Rightarrow> a | None \<Rightarrow> host_addr (lit ''10.77.0.'' @ str_int zone_id)),
      bh_broadcast_addr = broadcast_addr, bh_port = udp_port,
      data_cb = False, control_cb = False, bh_running = False\<rparr>"

section \<open>Sending\<close>

fun endpoint :: "int \<Rightarrow> addr \<Rightarrow> addr" where
  "endpoint udp_port (AValue (JStr h)) = ATuple [JStr h, JInt udp_port]"
| "endpoint udp_port a = a"

text \<open>\<open>socket.sendto\<close> on an \<open>AF_INET\<close> socket: the address must be a tuple of a host and an integer
  port (a \<open>bool\<close> is one), the host resolve, and the port be in range.\<close>

definition sendto_pair :: "net \<Rightarrow> pystr \<Rightarrow> int \<Rightarrow> bytes \<Rightarrow> datagram list \<times> exn option" where
  "sendto_pair n h p packet =
     (case idna_fault n h of
        Some e \<Rightarrow> ([], Some e)
      | None \<Rightarrow>
          if p < - (2 ^ 31) \<or> 2 ^ 31 \<le> p then ([], Some OverflowError)
          else if unresolvable n h then ([], Some OSError)
          else if p < 0 \<or> 65535 < p then ([], Some OverflowError)
          else if transmit_fails n h p packet then ([], Some OSError)
          else ([Datagram h p packet], None))"

fun sendto :: "net \<Rightarrow> addr \<Rightarrow> bytes \<Rightarrow> datagram list \<times> exn option" where
  "sendto n (ATuple [JStr h, JInt p]) packet = sendto_pair n h p packet"
| "sendto n (ATuple [JStr h, JBool b]) packet = sendto_pair n h (if b then 1 else 0) packet"
| "sendto n _ packet = ([], Some TypeError)"

text \<open>\<open>_send\<close> catches \<open>OSError\<close> only.\<close>

definition bh_send :: "net \<Rightarrow> addr \<Rightarrow> bytes \<Rightarrow> datagram list \<times> exn option" where
  "bh_send n ep packet =
     (case sendto n ep packet of
        (out, Some e) \<Rightarrow> (out, if e = OSError then None else Some e)
      | (out, None) \<Rightarrow> (out, None))"

definition broadcast_to_all_nodes :: "net \<Rightarrow> backhaul \<Rightarrow> bytes \<Rightarrow> datagram list \<times> exn option" where
  "broadcast_to_all_nodes n bh packet = bh_send n (endpoint (bh_port bh) (bh_broadcast_addr bh)) packet"

definition broadcast_control :: "net \<Rightarrow> backhaul \<Rightarrow> bytes \<Rightarrow> datagram list \<times> exn option" where
  "broadcast_control n bh frame = bh_send n (endpoint (bh_port bh) (bh_broadcast_addr bh)) frame"

text \<open>The table answers \<open>None\<close> for an unknown zone, and also for a zone announced at \<open>null\<close>.\<close>

definition forward_to_zone :: "real \<Rightarrow> net \<Rightarrow> backhaul \<Rightarrow> int \<Rightarrow> bytes \<Rightarrow> datagram list \<times> exn option" where
  "forward_to_zone now n bh zone_id packet =
     (if zone_id = bh_zone_id bh then ([], None)
      else (case addr_for now zone_id (bh_table bh) of
          None \<Rightarrow> broadcast_to_all_nodes n bh packet
        | Some a \<Rightarrow> if a = AValue JNull then broadcast_to_all_nodes n bh packet
                     else bh_send n (endpoint (bh_port bh) a) packet))"

definition bh_peer_count :: "real \<Rightarrow> backhaul \<Rightarrow> nat" where
  "bh_peer_count now bh = peer_count now (bh_table bh)"

text \<open>The stub of \<open>base.py\<close> only logs, and counts no peers.\<close>

definition stub_forward_to_zone :: "int \<Rightarrow> bytes \<Rightarrow> datagram list \<times> exn option" where
  "stub_forward_to_zone zone_id packet = ([], None)"

definition stub_broadcast_to_all_nodes :: "bytes \<Rightarrow> datagram list \<times> exn option" where
  "stub_broadcast_to_all_nodes packet = ([], None)"

section \<open>Receiving\<close>

definition bh_on_receive :: "backhaul \<Rightarrow> backhaul" where
  "bh_on_receive bh = bh\<lparr>data_cb := True\<rparr>"

definition bh_on_control :: "backhaul \<Rightarrow> backhaul" where
  "bh_on_control bh = bh\<lparr>control_cb := True\<rparr>"

definition bh_start :: "backhaul \<Rightarrow> backhaul" where
  "bh_start bh = bh\<lparr>bh_running := True\<rparr>"

definition bh_stop :: "backhaul \<Rightarrow> backhaul" where
  "bh_stop bh = bh\<lparr>bh_running := False\<rparr>"

datatype delivery = ToControl pystr bytes | ToRelay pystr bytes

definition bh_peer_id :: "pystr \<Rightarrow> int \<Rightarrow> pystr" where
  "bh_peer_id host p = lit ''backhaul:'' @ host @ lit '':'' @ str_int p"

text \<open>\<open>_deliver\<close> calls a registered callback and drops whatever it raises.\<close>

definition bh_deliver :: "bool \<Rightarrow> delivery \<Rightarrow> delivery list" where
  "bh_deliver registered d = (if registered then [d] else [])"

text \<open>One turn of \<open>_recv_loop\<close>: the datagram \<open>data\<close> from \<open>(host, p)\<close>.\<close>

definition bh_recv :: "backhaul \<Rightarrow> pystr \<Rightarrow> int \<Rightarrow> bytes \<Rightarrow> delivery list" where
  "bh_recv bh host p data =
     (if \<not> bh_running bh then []
      else if pair_addr host p = endpoint (bh_port bh) (bh_own_addr bh) then []
      else if starts_with data ZONE_SYNC_MAGIC
           then bh_deliver (control_cb bh) (ToControl (bh_peer_id host p) data)
           else bh_deliver (data_cb bh) (ToRelay (bh_peer_id host p) data))"

section \<open>Gossip\<close>

definition announce_now :: "(real \<Rightarrow> pystr) \<Rightarrow> net \<Rightarrow> zone_sync \<Rightarrow> backhaul \<Rightarrow> datagram list \<times> exn option" where
  "announce_now frepr n zs bh =
     (case encode_announcement frepr (zs_node_id zs) (zs_zone_id zs) (zs_own_addr zs) of
        Inl e \<Rightarrow> ([], Some e)
      | Inr frame \<Rightarrow> broadcast_control n bh frame)"

text \<open>One turn of \<open>ZoneSync._loop\<close>; an exception of the announcement ends the thread before the
  pruning.\<close>

definition zone_sync_tick ::
  "(real \<Rightarrow> pystr) \<Rightarrow> real \<Rightarrow> net \<Rightarrow> zone_sync \<Rightarrow> backhaul \<Rightarrow> (datagram list \<times> exn option) \<times> backhaul" where
  "zone_sync_tick frepr now n zs bh =
     (case announce_now frepr n zs bh of
        (out, Some e) \<Rightarrow> ((out, Some e), bh)
      | (out, None) \<Rightarrow> ((out, None), bh\<lparr>bh_table := snd (forget_stale now (bh_table bh))\<rparr>))"

text \<open>What a received control frame does to the backhaul's shared table.\<close>

definition bh_control ::
  "(json \<Rightarrow> pystr) \<Rightarrow> real \<Rightarrow> zone_sync \<Rightarrow> bytes \<Rightarrow> backhaul \<Rightarrow> exn option \<times> backhaul" where
  "bh_control rp now zs frame bh =
     (case on_control rp now zs frame (bh_table bh) of (r, t) \<Rightarrow> (r, bh\<lparr>bh_table := t\<rparr>))"

text \<open>A datagram received by a node whose gossip layer is registered: what reaches the relay, and
  the node's backhaul afterwards.\<close>

definition bh_input ::
  "(json \<Rightarrow> pystr) \<Rightarrow> real \<Rightarrow> zone_sync \<Rightarrow> backhaul \<Rightarrow> pystr \<Rightarrow> int \<Rightarrow> bytes \<Rightarrow> (pystr \<times> bytes) list \<times> backhaul" where
  "bh_input rp now zs bh host p data =
     (case bh_recv bh host p data of
        [ToControl _ frame] \<Rightarrow> ([], snd (bh_control rp now zs frame bh))
      | [ToRelay peer_id packet] \<Rightarrow> ([(peer_id, packet)], bh)
      | _ \<Rightarrow> ([], bh))"

section \<open>What the relay relies on\<close>

text \<open>
  The interface of a backhaul: it carries the packet it is given and nothing else, sends nothing for
  the node's own zone, and raises nothing while its addresses are good. \<open>fwd\<close> and \<open>bc\<close> return
  what is sent; \<open>cargo\<close> is the payload of a sent datagram.
\<close>

locale node_backhaul =
  fixes fwd :: "'b \<Rightarrow> int \<Rightarrow> 'p \<Rightarrow> 'd list \<times> 'e option"
    and bc :: "'b \<Rightarrow> 'p \<Rightarrow> 'd list \<times> 'e option"
    and cargo :: "'d \<Rightarrow> 'p"
    and own :: "'b \<Rightarrow> int"
    and good :: "'b \<Rightarrow> bool"
  assumes bc_cargo: "d \<in> set (fst (bc b x)) \<Longrightarrow> cargo d = x"
    and bc_quiet: "good b \<Longrightarrow> snd (bc b x) = None"
    and fwd_cargo: "d \<in> set (fst (fwd b z x)) \<Longrightarrow> cargo d = x"
    and fwd_quiet: "good b \<Longrightarrow> snd (fwd b z x) = None"
    and fwd_own: "fwd b (own b) x = ([], None)"
begin

text \<open>Routing by zone, as the relay does it: the broadcast zone floods, the own zone is silent.\<close>

definition route_packet :: "int \<Rightarrow> 'b \<Rightarrow> int \<Rightarrow> 'p \<Rightarrow> 'd list \<times> 'e option" where
  "route_packet bzone b z x =
     (if z = bzone then bc b x else if z \<noteq> own b then fwd b z x else ([], None))"

lemma route_packet_quiet: "good b \<Longrightarrow> snd (route_packet bz b z x) = None"
  by (simp add: route_packet_def bc_quiet fwd_quiet)

lemma route_packet_cargo: "d \<in> set (fst (route_packet bz b z x)) \<Longrightarrow> cargo d = x"
  by (auto simp: route_packet_def dest: bc_cargo fwd_cargo split: if_splits)

lemma route_packet_own: "z = own b \<Longrightarrow> z \<noteq> bz \<Longrightarrow> route_packet bz b z x = ([], None)"
  by (simp add: route_packet_def)

end

fun cargo :: "datagram \<Rightarrow> bytes" where
  "cargo (Datagram h p x) = x"

text \<open>An address \<open>sendto\<close> accepts, up to failures of the network itself.\<close>

definition sendable :: "net \<Rightarrow> int \<Rightarrow> addr \<Rightarrow> bool" where
  "sendable n udp_port a = (\<exists>h p. endpoint udp_port a = pair_addr h p \<and> 0 \<le> p \<and> p \<le> 65535 \<and>
     (idna_fault n h = None \<or> idna_fault n h = Some OSError))"

definition bh_good :: "real \<Rightarrow> net \<Rightarrow> backhaul \<Rightarrow> bool" where
  "bh_good now n bh = (sendable n (bh_port bh) (bh_broadcast_addr bh) \<and>
     (\<forall>z a. addr_for now z (bh_table bh) = Some a \<longrightarrow> a = AValue JNull \<or> sendable n (bh_port bh) a))"

lemma sendto_pair_cases:
  "sendto_pair n h p x = ([Datagram h p x], None) \<and> idna_fault n h = None \<or>
   (\<exists>e. sendto_pair n h p x = ([], Some e))"
  by (auto simp: sendto_pair_def split: option.splits)

lemma sendto_cargo: "d \<in> set (fst (sendto n a x)) \<Longrightarrow> cargo d = x"
proof (induction n a x rule: sendto.induct)
  case (1 n h p x)
  then show ?case using sendto_pair_cases [of n h p x] by auto
next
  case (2 n h b x)
  then show ?case using sendto_pair_cases [of n h "if b then 1 else 0" x] by auto
qed auto

lemma bh_send_cargo: "d \<in> set (fst (bh_send n a x)) \<Longrightarrow> cargo d = x"
  using sendto_cargo [of d n a x] by (simp add: bh_send_def split: prod.splits option.splits)

lemma sendable_quiet: "sendable n q a \<Longrightarrow> snd (bh_send n (endpoint q a) x) = None"
  by (auto simp: sendable_def bh_send_def sendto_pair_def split: option.splits)

lemma broadcast_laws:
  "d \<in> set (fst (broadcast_to_all_nodes n bh x)) \<Longrightarrow> cargo d = x"
  "bh_good now n bh \<Longrightarrow> snd (broadcast_to_all_nodes n bh x) = None"
  by (auto simp: broadcast_to_all_nodes_def bh_good_def sendable_quiet dest: bh_send_cargo)

lemma forward_cargo: "d \<in> set (fst (forward_to_zone now n bh z x)) \<Longrightarrow> cargo d = x"
  by (auto simp: forward_to_zone_def broadcast_laws dest: bh_send_cargo split: if_splits option.splits)

lemma forward_quiet: "bh_good now n bh \<Longrightarrow> snd (forward_to_zone now n bh z x) = None"
  using sendable_quiet [of n "bh_port bh"]
  by (auto simp: forward_to_zone_def broadcast_laws bh_good_def split: option.splits)

lemma forward_own: "forward_to_zone now n bh (bh_zone_id bh) x = ([], None)"
  by (simp add: forward_to_zone_def)

interpretation batman: node_backhaul "forward_to_zone now n" "broadcast_to_all_nodes n" cargo
  bh_zone_id "bh_good now n"
  by unfold_locales (simp_all add: broadcast_laws forward_cargo forward_quiet forward_own)

interpretation stub: node_backhaul "\<lambda>_. stub_forward_to_zone" "\<lambda>_. stub_broadcast_to_all_nodes" cargo
  "id :: int \<Rightarrow> int" "\<lambda>_. True"
  by unfold_locales (simp_all add: stub_forward_to_zone_def stub_broadcast_to_all_nodes_def)

section \<open>Runs of received datagrams\<close>

datatype received = From pystr int bytes

fun bh_inputs ::
  "(json \<Rightarrow> pystr) \<Rightarrow> zone_sync \<Rightarrow> backhaul \<Rightarrow> (real \<times> received) list \<Rightarrow> (pystr \<times> bytes) list \<times> backhaul" where
  "bh_inputs rp zs bh [] = ([], bh)"
| "bh_inputs rp zs bh ((now, From h p d) # rs) =
     (case bh_input rp now zs bh h p d of
        (out, bh') \<Rightarrow> (case bh_inputs rp zs bh' rs of (out', bh'') \<Rightarrow> (out @ out', bh'')))"

definition meant_for_relay :: "addr \<Rightarrow> received \<Rightarrow> bool" where
  "meant_for_relay own r =
     (case r of From h p d \<Rightarrow> pair_addr h p \<noteq> own \<and> \<not> starts_with d ZONE_SYNC_MAGIC)"

fun as_packet :: "received \<Rightarrow> pystr \<times> bytes" where
  "as_packet (From h p d) = (bh_peer_id h p, d)"

lemma bh_control_frame:
  "bh_zone_id (snd (bh_control rp now zs f bh)) = bh_zone_id bh \<and>
   bh_own_addr (snd (bh_control rp now zs f bh)) = bh_own_addr bh \<and>
   bh_port (snd (bh_control rp now zs f bh)) = bh_port bh \<and>
   bh_running (snd (bh_control rp now zs f bh)) = bh_running bh \<and>
   data_cb (snd (bh_control rp now zs f bh)) = data_cb bh \<and>
   control_cb (snd (bh_control rp now zs f bh)) = control_cb bh"
  by (simp add: bh_control_def split: prod.splits)

lemma bh_input_cases:
  assumes "bh_running bh" "data_cb bh" "control_cb bh"
  shows "bh_input rp now zs bh h p d =
    (if meant_for_relay (endpoint (bh_port bh) (bh_own_addr bh)) (From h p d) then ([as_packet (From h p d)], bh)
     else if pair_addr h p = endpoint (bh_port bh) (bh_own_addr bh) then ([], bh)
     else ([], snd (bh_control rp now zs d bh)))"
  using assms by (simp add: bh_input_def bh_recv_def bh_deliver_def meant_for_relay_def)

section \<open>Properties\<close>

text \<open>Whatever arrives, in any order, the relay gets exactly the datagrams that are not tagged as
  zone-sync and do not come from the node's own endpoint, in order and under the sender's id; in
  particular no announcement ever reaches it.\<close>

theorem relay_sees_mesh_packets_only:
  assumes "bh_running bh" and "data_cb bh" and "control_cb bh"
  shows "fst (bh_inputs rp zs bh rs) =
    map as_packet (filter (meant_for_relay (endpoint (bh_port bh) (bh_own_addr bh))) (map snd rs))"
  using assms
proof (induction rs arbitrary: bh)
  case Nil
  then show ?case by simp
next
  case (Cons r rs)
  obtain now h p d where r: "r = (now, From h p d)" by (cases r; cases "snd r") auto
  let ?bh = "snd (bh_input rp now zs bh h p d)"
  have f: "bh_running ?bh \<and> data_cb ?bh \<and> control_cb ?bh \<and> bh_port ?bh = bh_port bh \<and>
      bh_own_addr ?bh = bh_own_addr bh"
    using Cons.prems bh_control_frame [of rp now zs d bh] by (simp add: bh_input_cases)
  have "fst (bh_inputs rp zs bh (r # rs)) = fst (bh_input rp now zs bh h p d) @ fst (bh_inputs rp zs ?bh rs)"
    by (simp add: r split: prod.splits)
  also have "fst (bh_inputs rp zs ?bh rs) =
      map as_packet (filter (meant_for_relay (endpoint (bh_port bh) (bh_own_addr bh))) (map snd rs))"
    using Cons.IH [of ?bh] f by simp
  finally show ?case using Cons.prems by (simp add: bh_input_cases r)
qed

theorem relay_sees_mesh_packets_only_witness:
  "fst (bh_inputs (\<lambda>_. []) \<lparr>zs_node_id = [65], zs_zone_id = 1, zs_own_addr = host_addr [49]\<rparr>
     (bh_start (bh_on_control (bh_on_receive (bh_init 1 None (Some (host_addr [49])) (host_addr [50]) 7))))
     [(0, From [51] 7 [1, 2]), (1, From [49] 7 [3]), (2, From [51] 7 ZONE_SYNC_MAGIC), (3, From [51] 8 [4])]) =
   [(bh_peer_id [51] 7, [1, 2]), (bh_peer_id [51] 8, [4])]"
  by (subst relay_sees_mesh_packets_only)
    (simp_all add: bh_start_def bh_on_control_def bh_on_receive_def bh_init_def meant_for_relay_def
      starts_with_def ZONE_SYNC_MAGIC_def blit_def)

text \<open>Gossip teaches routes: when a node announces and another node receives that datagram
  from an address that is not its own, then from that moment until the entry expires the receiver
  forwards the announced zone by one datagram, with the packet as it is, to the announced address.\<close>

theorem gossip_teaches_route:
  assumes "announceable frepr (zs_node_id za) (zs_zone_id za) (zs_own_addr za)"
    and "endpoint (bh_port bh) (zs_own_addr za) = pair_addr ha pa" and "0 \<le> pa" and "pa \<le> 65535"
    and "Datagram dh dp f \<in> set (fst (announce_now frepr net_a za bh_a))"
    and "bh_running bh" and "control_cb bh" and "pair_addr host p \<noteq> endpoint (bh_port bh) (bh_own_addr bh)"
    and "zs_node_id zb \<noteq> zs_node_id za" and "bh_zone_id bh \<noteq> zs_zone_id za"
    and "ztable_ok (bh_table bh)" and "m - now \<le> entry_ttl_s (bh_table bh)"
  shows "bh_input rp now zb bh host p f = ([], snd (bh_control rp now zb f bh)) \<and>
    forward_to_zone m quiet_net (snd (bh_control rp now zb f bh)) (zs_zone_id za) packet =
      ([Datagram ha pa packet], None)"
proof -
  obtain f' where f': "encode_announcement frepr (zs_node_id za) (zs_zone_id za) (zs_own_addr za) = Inr f'"
    using encode_announcement_ok [OF assms(1)] by blast
  then have "f' = f"
    using assms(5) by (auto simp: announce_now_def broadcast_control_def dest: bh_send_cargo)
  with f' have e: "encode_announcement frepr (zs_node_id za) (zs_zone_id za) (zs_own_addr za) = Inr f" by simp
  then have magic: "starts_with f ZONE_SYNC_MAGIC" using encode_announcement_ok [OF assms(1)] by auto
  let ?bh = "snd (bh_control rp now zb f bh)"
  have t: "bh_table ?bh = learn now (zs_zone_id za) (zs_own_addr za) (bh_table bh)"
    using announced_decodes [OF assms(1) e] assms(9) by (simp add: bh_control_def on_control_def)
  have r: "addr_for m (zs_zone_id za) (bh_table ?bh) = Some (zs_own_addr za)"
    unfolding t by (rule ztab.route_fresh [OF assms(11,12)])
  have n: "zs_own_addr za \<noteq> AValue JNull" using assms(2) by auto
  have "forward_to_zone m quiet_net ?bh (zs_zone_id za) packet =
      bh_send quiet_net (endpoint (bh_port bh) (zs_own_addr za)) packet"
    using r n assms(10) bh_control_frame [of rp now zb f bh] by (simp add: forward_to_zone_def)
  also have "\<dots> = ([Datagram ha pa packet], None)"
    using assms(3,4) by (simp add: assms(2) bh_send_def sendto_pair_def quiet_net_def)
  finally show ?thesis
    using assms(6,7,8) magic by (simp add: bh_input_def bh_recv_def bh_deliver_def)
qed

theorem gossip_teaches_route_witness:
  "\<exists>f. forward_to_zone 100 quiet_net (snd (bh_control (\<lambda>_. []) 10
       \<lparr>zs_node_id = [66], zs_zone_id = 2, zs_own_addr = host_addr [50]\<rparr> f
       (bh_start (bh_on_control (bh_init 2 None (Some (host_addr [50])) (host_addr [57]) 7))))) 1 [1, 2, 3] =
     ([Datagram [49] 7 [1, 2, 3]], None)"
proof -
  let ?za = "\<lparr>zs_node_id = [65], zs_zone_id = 1, zs_own_addr = host_addr [49]\<rparr>"
  let ?a = "bh_init 1 None None (host_addr [57]) 7"
  let ?b = "bh_start (bh_on_control (bh_init 2 None (Some (host_addr [50])) (host_addr [57]) 7))"
  have a: "announceable (\<lambda>_. []) (zs_node_id ?za) (zs_zone_id ?za) (zs_own_addr ?za)"
    by (simp add: announceable_def encodable_def is_surrogate_def INT_MAX_STR_DIGITS_def nat_digits.simps)
  obtain f where f: "encode_announcement (\<lambda>_. []) (zs_node_id ?za) (zs_zone_id ?za) (zs_own_addr ?za) = Inr f"
    using encode_announcement_ok [OF a] by blast
  then have "Datagram [57] 7 f \<in> set (fst (announce_now (\<lambda>_. []) quiet_net ?za ?a))"
    by (simp add: announce_now_def broadcast_control_def bh_init_def bh_send_def sendto_pair_def quiet_net_def)
  from gossip_teaches_route [OF a _ _ _ this, of ?b "[49]" 7 "[49]" 7
      "\<lparr>zs_node_id = [66], zs_zone_id = 2, zs_own_addr = host_addr [50]\<rparr>" 100 10 "\<lambda>_. []" "[1, 2, 3]"]
  show ?thesis
    by (auto simp: bh_start_def bh_on_control_def bh_init_def ztable_ok_init) (auto simp: ztable_init_def)
qed

text \<open>A bad announcement poisons a route: once a peer has announced a zone at an address that is
  neither a host name, \<open>null\<close>, nor a tuple of a host and an integer, forwarding to that zone raises
  \<open>TypeError\<close> (which \<open>_send\<close> does not catch) and sends nothing, until the entry expires.\<close>

theorem bad_announcement_poisons_route:
  assumes "decode_announcement rp f = Inr (Some ann)" and "ann_node_id ann \<noteq> zs_node_id zs"
    and "ann_zone_id ann \<noteq> bh_zone_id bh" and "ann_addr ann \<noteq> AValue JNull"
    and "\<forall>h. ann_addr ann \<noteq> host_addr h"
    and "\<forall>h v. ann_addr ann = ATuple [JStr h, v] \<longrightarrow> (\<forall>p. v \<noteq> JInt p) \<and> (\<forall>b. v \<noteq> JBool b)"
    and "ztable_ok (bh_table bh)" and "m - now \<le> entry_ttl_s (bh_table bh)"
  shows "forward_to_zone m n (snd (bh_control rp now zs f bh)) (ann_zone_id ann) packet = ([], Some TypeError)"
proof -
  let ?bh = "snd (bh_control rp now zs f bh)"
  have t: "bh_table ?bh = learn now (ann_zone_id ann) (ann_addr ann) (bh_table bh)"
    using assms(1,2) by (simp add: bh_control_def on_control_def)
  have r: "addr_for m (ann_zone_id ann) (bh_table ?bh) = Some (ann_addr ann)"
    unfolding t by (rule ztab.route_fresh [OF assms(7,8)])
  have e: "endpoint (bh_port ?bh) (ann_addr ann) = ann_addr ann"
    using assms(5) by (cases "(bh_port ?bh, ann_addr ann)" rule: endpoint.cases) auto
  have "sendto n (ann_addr ann) packet = ([], Some TypeError)"
    using assms(6) by (cases "(n, ann_addr ann, packet)" rule: sendto.cases) auto
  then show ?thesis
    using r e assms(3,4) bh_control_frame [of rp now zs f bh] by (simp add: forward_to_zone_def bh_send_def)
qed

theorem bad_announcement_poisons_route_witness:
  "\<exists>f. forward_to_zone 20 quiet_net (snd (bh_control (\<lambda>_. []) 10
       \<lparr>zs_node_id = [66], zs_zone_id = 2, zs_own_addr = host_addr [50]\<rparr> f
       (bh_init 2 None None (host_addr [57]) 7))) 1 [9] = ([], Some TypeError)"
proof -
  have a: "announceable (\<lambda>_. []) [65] 1 (ATuple [JInt 5])"
    by (simp add: announceable_def encodable_def is_surrogate_def INT_MAX_STR_DIGITS_def nat_digits.simps)
  obtain f where "encode_announcement (\<lambda>_. []) [65] 1 (ATuple [JInt 5]) = Inr f"
    using encode_announcement_ok [OF a] by blast
  from bad_announcement_poisons_route [OF announced_decodes [OF a this, of "\<lambda>_. []"], where
      zs = "\<lparr>zs_node_id = [66], zs_zone_id = 2, zs_own_addr = host_addr [50]\<rparr>" and
      bh = "bh_init 2 None None (host_addr [57]) 7" and m = 20 and now = 10 and n = quiet_net and packet = "[9]"]
  have "ztable_ok (ztable_init 2 [] 180 :: addr ztable) \<longrightarrow> ?thesis"
    by (auto simp: bh_init_def ztable_init_def)
  then show ?thesis by (simp add: ztable_ok_init)
qed

text \<open>With good addresses a packet for another zone leaves as exactly one datagram: to the known
  address of the zone, or to the broadcast address when none is known; nothing is raised.\<close>

theorem forward_reaches_zone:
  assumes "bh_good now quiet_net bh" and "zone_id \<noteq> bh_zone_id bh"
  shows "\<exists>h p. forward_to_zone now quiet_net bh zone_id packet = ([Datagram h p packet], None) \<and>
    endpoint (bh_port bh)
      (case addr_for now zone_id (bh_table bh) of
         Some a \<Rightarrow> if a = AValue JNull then bh_broadcast_addr bh else a
       | None \<Rightarrow> bh_broadcast_addr bh) = pair_addr h p"
proof -
  have send: "\<exists>h p. bh_send quiet_net (endpoint q a) packet = ([Datagram h p packet], None) \<and>
      endpoint q a = pair_addr h p" if "sendable quiet_net q a" for q a
    using that by (auto simp: sendable_def bh_send_def sendto_pair_def quiet_net_def)
  let ?a = "case addr_for now zone_id (bh_table bh) of
      Some a \<Rightarrow> if a = AValue JNull then bh_broadcast_addr bh else a | None \<Rightarrow> bh_broadcast_addr bh"
  have "sendable quiet_net (bh_port bh) ?a"
    using assms(1) by (auto simp: bh_good_def split: option.splits)
  moreover have "forward_to_zone now quiet_net bh zone_id packet =
      bh_send quiet_net (endpoint (bh_port bh) ?a) packet"
    using assms(2) by (auto simp: forward_to_zone_def broadcast_to_all_nodes_def split: option.splits)
  ultimately show ?thesis using send by simp
qed

theorem forward_reaches_zone_witness:
  "\<exists>h p. forward_to_zone 5 quiet_net (bh_init 2 None None (host_addr [57]) 7) 1 [9] =
     ([Datagram h p [9]], None)"
proof -
  have "bh_good 5 quiet_net (bh_init 2 None None (host_addr [57]) 7)"
    by (simp add: bh_good_def bh_init_def sendable_def quiet_net_def ztable_init_def addr_for_def)
  from forward_reaches_zone [OF this, of 1 "[9]"] show ?thesis by (auto simp: bh_init_def)
qed

end
