(* ===== verification/Relay.thy ===== *)
theory Relay
  imports LocationService BackendProxy Backhaul
begin

text \<open>
  \<open>node/relay.py\<close>: \<open>NodeRelay\<close>, which every packet of a phone or another node goes through. The
  8-step pipeline and the attestation cache are meshlink-core's: their states are the type parameters
  \<open>'p\<close> and \<open>'c\<close>, their operations the record \<open>pipeline\<close>. Handling a packet returns the effects in
  order (what goes on the radio, what goes to other nodes), the exception that leaves the handler,
  and the new state.
\<close>

datatype outcome = Drop | Deliver message "bytes option"

record ('p, 'c) pipeline =
  process :: "real \<Rightarrow> 'c option \<Rightarrow> 'p \<Rightarrow> bytes \<Rightarrow> outcome \<times> 'p"
  add_token :: "real \<Rightarrow> pystr \<Rightarrow> 'c \<Rightarrow> bytes option \<times> 'c"
  fresh_pipeline :: 'p

definition BROADCAST_ZONE :: int where
  "BROADCAST_ZONE = 65535"

definition TTL_OFFSET :: nat where
  "TTL_OFFSET = 68"

definition SPRAY_OFFSET :: nat where
  "SPRAY_OFFSET = 69"

definition MSG_TYPE_ATTESTATION_PRESENT :: int where
  "MSG_TYPE_ATTESTATION_PRESENT = 6"

text \<open>The text for the log. \<open>pyrepr\<close> is \<open>repr\<close> of a string, \<open>why\<close> the text of the \<open>ValueError\<close> that
  \<open>parse_packet\<close> raises. Both are total: what is logged before a verdict never raises.\<close>

definition describe_payload :: "(pystr \<Rightarrow> pystr) \<Rightarrow> bytes \<Rightarrow> pystr" where
  "describe_payload pyrepr payload =
     (case decode_utf8 payload of
        Some s \<Rightarrow> pyrepr s
      | None \<Rightarrow> lit ''<'' @ str_int (int (length payload)) @ lit '' bytes: '' @ hex_of (take 32 payload) @
                (if 32 < length payload then [8230] else []) @ lit ''>'')"

definition summarize_packet :: "(pystr \<Rightarrow> pystr) \<Rightarrow> (bytes \<Rightarrow> pystr) \<Rightarrow> core \<Rightarrow> real \<Rightarrow> bytes \<Rightarrow> pystr" where
  "summarize_packet pyrepr why c now raw =
     (case parse_packet c raw of
        None \<Rightarrow> lit ''<unparseable, '' @ str_int (int (length raw)) @ lit '' bytes: '' @ why raw @ lit ''>''
      | Some m \<Rightarrow>
          lit ''msg_id='' @ take 8 (hex_of (msg_id m)) @ lit '' sender='' @ take 16 (hex_of (sender_key m)) @
          lit '' ephem='' @ take 8 (hex_of (ephem_id m)) @ lit '' ttl='' @ str_int (msg_ttl m) @
          lit '' zone='' @ str_int (msg_zone m) @ lit '' msg_type='' @ str_int (msg_type m) @
          lit '' age='' @ str_int (py_trunc now - msg_timestamp m) @ lit ''s payload='' @
          describe_payload pyrepr (msg_payload m))"

text \<open>\<open>raw[68]\<close> raises on a short packet, \<open>bytes([ttl - 1])\<close> on a ttl of 0.\<close>

definition decrement_ttl :: "bytes \<Rightarrow> exn + bytes" where
  "decrement_ttl raw =
     (if length raw \<le> TTL_OFFSET then Inl IndexError
      else if raw ! TTL_OFFSET = 0 then Inl ValueError
      else Inr (take TTL_OFFSET raw @ [raw ! TTL_OFFSET - 1] @ drop (TTL_OFFSET + 1) raw))"

definition is_attestation_presentation :: "core \<Rightarrow> bytes \<Rightarrow> bool" where
  "is_attestation_presentation c raw =
     (case parse_packet c raw of None \<Rightarrow> False | Some m \<Rightarrow> msg_type m = MSG_TYPE_ATTESTATION_PRESENT)"

record stats =
  received :: nat
  accepted :: nat
  dropped :: nat
  relayed_to_phones :: nat
  forwarded_cross_zone :: nat
  broadcast_to_nodes :: nat
  attestations_cached :: nat
  location_terminated :: nat

definition no_traffic :: stats where
  "no_traffic = \<lparr>received = 0, accepted = 0, dropped = 0, relayed_to_phones = 0, forwarded_cross_zone = 0,
     broadcast_to_nodes = 0, attestations_cached = 0, location_terminated = 0\<rparr>"

record ('p, 'c) relay =
  r_zone_id :: int
  r_transport :: transport
  r_backhaul :: backhaul
  r_attestation :: "'c option"
  r_phone_ping :: "phone_ping option"
  r_location :: "location_service option"
  r_backend_proxy :: "proxy option"
  r_pipeline :: 'p
  r_presentation :: 'p
  r_stats :: stats

text \<open>\<open>__init__\<close>: two pipelines, and the handler registered with both sources.\<close>

definition relay_init ::
  "('p, 'c) pipeline \<Rightarrow> transport \<Rightarrow> backhaul \<Rightarrow> int \<Rightarrow> 'c option \<Rightarrow> phone_ping option
   \<Rightarrow> location_service option \<Rightarrow> proxy option \<Rightarrow> ('p, 'c) relay" where
  "relay_init pl t bh zone_id attestation ping loc prox =
     \<lparr>r_zone_id = zone_id, r_transport = transport_on_receive t, r_backhaul = bh_on_receive bh,
      r_attestation = attestation, r_phone_ping = ping, r_location = loc, r_backend_proxy = prox,
      r_pipeline = fresh_pipeline pl, r_presentation = fresh_pipeline pl, r_stats = no_traffic\<rparr>"

abbreviation count :: "(stats \<Rightarrow> stats) \<Rightarrow> ('p, 'c) relay \<Rightarrow> ('p, 'c) relay" where
  "count f s \<equiv> s\<lparr>r_stats := f (r_stats s)\<rparr>"

text \<open>The world a packet is handled in: the failures of radio and network, and the clock readings:
  the monotonic one of the zone table and the phone reports, and the two wall-clock ones, of the
  pipeline and the authorisation layer and of the store.\<close>

record world =
  w_core :: core
  w_faults :: faults
  w_net :: net
  w_mono :: real
  w_now :: real
  w_snow :: real

datatype effect = OnAir radio | ToNode datagram

section \<open>The steps of \<open>_handle_packet\<close>\<close>

text \<open>The cross-node step: what is sent, the exception, and the counter it bumps.\<close>

definition cross_node ::
  "world \<Rightarrow> message \<Rightarrow> bytes \<Rightarrow> ('p, 'c) relay \<Rightarrow> (effect list \<times> exn option) \<times> ('p, 'c) relay" where
  "cross_node w msg raw s =
     (if msg_zone msg = BROADCAST_ZONE then
        (case broadcast_to_all_nodes (w_net w) (r_backhaul s) raw of
           (out, Some e) \<Rightarrow> ((map ToNode out, Some e), s)
         | (out, None) \<Rightarrow> ((map ToNode out, None), count (broadcast_to_nodes_update Suc) s))
      else if msg_zone msg \<noteq> r_zone_id s then
        (case forward_to_zone (w_mono w) (w_net w) (r_backhaul s) (msg_zone msg) raw of
           (out, Some e) \<Rightarrow> ((map ToNode out, Some e), s)
         | (out, None) \<Rightarrow> ((map ToNode out, None), count (forwarded_cross_zone_update Suc) s))
      else (([], None), s))"

text \<open>The local step: the pipeline's forward copy, or the packet with one hop less. The log line after
  the loop reads the spray byte.\<close>

definition relayed_copy :: "bytes \<Rightarrow> bytes option \<Rightarrow> exn + bytes" where
  "relayed_copy raw fwd = (case fwd of Some b \<Rightarrow> Inr b | None \<Rightarrow> decrement_ttl raw)"

definition local_cell ::
  "world \<Rightarrow> pystr \<Rightarrow> bytes \<Rightarrow> bytes option \<Rightarrow> ('p, 'c) relay \<Rightarrow> (effect list \<times> exn option) \<times> ('p, 'c) relay" where
  "local_cell w peer_id raw fwd s =
     (case relayed_copy raw fwd of
        Inl e \<Rightarrow> (([], Some e), s)
      | Inr copy \<Rightarrow>
          (if length copy \<le> TTL_OFFSET then (([], Some IndexError), s)
           else if copy ! TTL_OFFSET = 0 then (([], None), s)
           else (case for_each (\<lambda>peer. if peer = peer_id then ([], None)
                                else transport_send (w_faults w) (r_transport s) peer copy)
                        (transport_list_peers (r_transport s)) of
               (out, Some e) \<Rightarrow> ((map OnAir out, Some e), s)
             | (out, None) \<Rightarrow> ((map OnAir out, if length copy \<le> SPRAY_OFFSET then Some IndexError else None),
                               count (relayed_to_phones_update Suc) s))))"

definition relay_onward ::
  "world \<Rightarrow> pystr \<Rightarrow> bytes \<Rightarrow> message \<Rightarrow> bytes option \<Rightarrow> ('p, 'c) relay \<Rightarrow> (effect list \<times> exn option) \<times> ('p, 'c) relay" where
  "relay_onward w peer_id raw msg fwd s =
     (case cross_node w msg raw s of
        ((out, Some e), s') \<Rightarrow> ((out, Some e), s')
      | ((out, None), s') \<Rightarrow>
          (case local_cell w peer_id raw fwd s' of ((out', r), s'') \<Rightarrow> ((out @ out', r), s'')))"

text \<open>The location hook; \<open>None\<close> is a node without the service.\<close>

definition terminate_here ::
  "world \<Rightarrow> pystr \<Rightarrow> message \<Rightarrow> ('p, 'c) relay \<Rightarrow> (effect list \<times> (exn + bool)) \<times> ('p, 'c) relay" where
  "terminate_here w peer_id msg s =
     (case r_location s of
        None \<Rightarrow> (([], Inr False), s)
      | Some ls \<Rightarrow>
          (case handle_node_terminated (w_core w) (w_faults w) (r_transport s) (w_now w) (w_snow w) peer_id msg ls of
             ((out, r), ls') \<Rightarrow> ((map OnAir out, r), s\<lparr>r_location := Some ls'\<rparr>)))"

definition handle_accepted ::
  "world \<Rightarrow> pystr \<Rightarrow> bytes \<Rightarrow> message \<Rightarrow> bytes option \<Rightarrow> ('p, 'c) relay \<Rightarrow> (effect list \<times> exn option) \<times> ('p, 'c) relay" where
  "handle_accepted w peer_id raw msg fwd s =
     (case terminate_here w peer_id msg s of
        ((out, Inl e), s') \<Rightarrow> ((out, Some e), s')
      | ((out, Inr True), s') \<Rightarrow> ((out, None), count (location_terminated_update Suc) s')
      | ((out, Inr False), s') \<Rightarrow>
          (case relay_onward w peer_id raw msg fwd s' of ((out', r), s'') \<Rightarrow> ((out @ out', r), s'')))"

definition handle_presentation ::
  "('p, 'c) pipeline \<Rightarrow> world \<Rightarrow> bytes \<Rightarrow> 'c \<Rightarrow> ('p, 'c) relay \<Rightarrow> (effect list \<times> exn option) \<times> ('p, 'c) relay" where
  "handle_presentation pl w raw cache s =
     (case process pl (w_now w) None (r_presentation s) raw of
        (Drop, p) \<Rightarrow> (([], None), count (dropped_update Suc) (s\<lparr>r_presentation := p\<rparr>))
      | (Deliver msg fwd, p) \<Rightarrow>
          (let s' = s\<lparr>r_presentation := p\<rparr>
           in case decode_ascii (msg_payload msg) of
                None \<Rightarrow> (([], None), count (dropped_update Suc) s')
              | Some token \<Rightarrow>
                  (case add_token pl (w_now w) token cache of
                     (None, cache') \<Rightarrow> (([], None), count (dropped_update Suc) (s'\<lparr>r_attestation := Some cache'\<rparr>))
                   | (Some key, cache') \<Rightarrow>
                       (let s'' = count (attestations_cached_update Suc) (s'\<lparr>r_attestation := Some cache'\<rparr>);
                            (out, r) = (if msg_zone msg = BROADCAST_ZONE
                                        then broadcast_to_all_nodes (w_net w) (r_backhaul s) raw
                                        else if msg_zone msg \<noteq> r_zone_id s
                                        then forward_to_zone (w_mono w) (w_net w) (r_backhaul s) (msg_zone msg) raw
                                        else ([], None))
                        in ((map ToNode out, r), s'')))))"

definition handle_packet ::
  "('p, 'c) pipeline \<Rightarrow> world \<Rightarrow> pystr \<Rightarrow> bytes \<Rightarrow> ('p, 'c) relay \<Rightarrow> (effect list \<times> exn option) \<times> ('p, 'c) relay" where
  "handle_packet pl w peer_id raw s =
     (if is_telemetry_frame raw then
        (case r_phone_ping s of
           None \<Rightarrow> (([], None), s)
         | Some pp \<Rightarrow> (case handle_frame (w_mono w) peer_id raw pp of
             (r, pp') \<Rightarrow> (([], r), s\<lparr>r_phone_ping := Some pp'\<rparr>)))
      else if is_backend_proxy_frame raw then
        (case r_backend_proxy s of
           None \<Rightarrow> (([], None), s)
         | Some bp \<Rightarrow> (([], None), s\<lparr>r_backend_proxy := Some (proxy_handle_frame peer_id raw bp)\<rparr>))
      else
        (let s1 = count (received_update Suc) s
         in case (if is_attestation_presentation (w_core w) raw then r_attestation s else None) of
              Some cache \<Rightarrow> handle_presentation pl w raw cache s1
            | None \<Rightarrow>
                (case process pl (w_now w) (r_attestation s) (r_pipeline s) raw of
                   (Drop, p) \<Rightarrow> (([], None), count (dropped_update Suc) (s1\<lparr>r_pipeline := p\<rparr>))
                 | (Deliver msg fwd, p) \<Rightarrow>
                     handle_accepted w peer_id raw msg fwd
                       (count (accepted_update Suc) (s1\<lparr>r_pipeline := p\<rparr>)))))"

section \<open>Lemmas\<close>

lemma decrement_ttl_iff:
  "decrement_ttl raw = Inr r \<longleftrightarrow> TTL_OFFSET < length raw \<and> raw ! TTL_OFFSET \<noteq> 0 \<and>
     r = raw[TTL_OFFSET := raw ! TTL_OFFSET - 1]"
  by (auto simp: decrement_ttl_def upd_conv_take_nth_drop)

lemma unat_pred: "(b :: byte) \<noteq> 0 \<Longrightarrow> unat (b - 1) = unat b - 1"
  by (simp add: unat_minus_one)

text \<open>Which parts of the node a step leaves alone.\<close>

definition same_wiring :: "('p, 'c) relay \<Rightarrow> ('p, 'c) relay \<Rightarrow> bool" where
  "same_wiring s s' = (r_zone_id s' = r_zone_id s \<and> r_transport s' = r_transport s \<and> r_backhaul s' = r_backhaul s)"

lemma same_wiring_refl [simp]: "same_wiring s s"
  by (simp add: same_wiring_def)

lemma same_wiring_trans: "same_wiring s t \<Longrightarrow> same_wiring t u \<Longrightarrow> same_wiring s u"
  by (simp add: same_wiring_def)

text \<open>What the onward steps may add to the counters.\<close>

definition same_books :: "stats \<Rightarrow> stats \<Rightarrow> bool" where
  "same_books x y = (received y = received x \<and> accepted y = accepted x \<and> dropped y = dropped x \<and>
     attestations_cached y = attestations_cached x \<and> location_terminated y = location_terminated x)"

definition nodes_reached :: "stats \<Rightarrow> nat" where
  "nodes_reached x = forwarded_cross_zone x + broadcast_to_nodes x"

lemma cross_node_books:
  "same_books (r_stats s) (r_stats (snd (cross_node w msg raw s))) \<and>
   relayed_to_phones (r_stats (snd (cross_node w msg raw s))) = relayed_to_phones (r_stats s) \<and>
   nodes_reached (r_stats (snd (cross_node w msg raw s))) \<le> Suc (nodes_reached (r_stats s))"
  by (auto simp: cross_node_def same_books_def nodes_reached_def split: prod.splits option.splits)

lemma cross_node_rest:
  "r_stats_update (\<lambda>_. x) (snd (cross_node w msg raw s)) = s\<lparr>r_stats := x\<rparr>"
  by (auto simp: cross_node_def split: prod.splits option.splits)

lemma local_cell_books:
  "same_books (r_stats s) (r_stats (snd (local_cell w p raw fwd s))) \<and>
   nodes_reached (r_stats (snd (local_cell w p raw fwd s))) = nodes_reached (r_stats s) \<and>
   relayed_to_phones (r_stats (snd (local_cell w p raw fwd s))) \<le> Suc (relayed_to_phones (r_stats s))"
  by (auto simp: local_cell_def same_books_def nodes_reached_def split: sum.splits prod.splits option.splits)

lemma local_cell_rest:
  "r_stats_update (\<lambda>_. x) (snd (local_cell w p raw fwd s)) = s\<lparr>r_stats := x\<rparr>"
  by (auto simp: local_cell_def split: sum.splits prod.splits option.splits)

lemma relay_onward_snd:
  "snd (relay_onward w p raw msg fwd s) =
     (if snd (fst (cross_node w msg raw s)) = None then snd (local_cell w p raw fwd (snd (cross_node w msg raw s)))
      else snd (cross_node w msg raw s))"
  by (auto simp: relay_onward_def split: prod.splits option.splits)

lemma relay_onward_fst:
  "fst (fst (relay_onward w p raw msg fwd s)) =
     (if snd (fst (cross_node w msg raw s)) = None
      then fst (fst (cross_node w msg raw s)) @ fst (fst (local_cell w p raw fwd (snd (cross_node w msg raw s))))
      else fst (fst (cross_node w msg raw s)))"
  by (auto simp: relay_onward_def split: prod.splits option.splits)

lemma relay_onward_books:
  "same_books (r_stats s) (r_stats (snd (relay_onward w p raw msg fwd s))) \<and>
   nodes_reached (r_stats (snd (relay_onward w p raw msg fwd s))) \<le> Suc (nodes_reached (r_stats s)) \<and>
   relayed_to_phones (r_stats (snd (relay_onward w p raw msg fwd s))) \<le> Suc (relayed_to_phones (r_stats s))"
  using cross_node_books [of s w msg raw] local_cell_books [of "snd (cross_node w msg raw s)" w p raw fwd]
  by (auto simp: relay_onward_snd same_books_def)

lemma terminate_here_stats [simp]: "r_stats (snd (terminate_here w p msg s)) = r_stats s"
  by (simp add: terminate_here_def split: option.splits prod.splits)

lemma handle_accepted_snd:
  "snd (handle_accepted w p raw msg fwd s) =
     (case snd (fst (terminate_here w p msg s)) of
        Inl e \<Rightarrow> snd (terminate_here w p msg s)
      | Inr True \<Rightarrow> count (location_terminated_update Suc) (snd (terminate_here w p msg s))
      | Inr False \<Rightarrow> snd (relay_onward w p raw msg fwd (snd (terminate_here w p msg s))))"
  by (auto simp: handle_accepted_def split: prod.splits sum.splits bool.splits)

text \<open>The accounts of the relay: every packet handed over is accepted, dropped or a cached
  presentation, and what is done with the accepted ones adds up.\<close>

definition balanced :: "stats \<Rightarrow> bool" where
  "balanced x = (received x = accepted x + dropped x + attestations_cached x \<and>
     location_terminated x + relayed_to_phones x \<le> accepted x \<and>
     location_terminated x + nodes_reached x \<le> accepted x)"

lemma handle_accepted_balanced:
  assumes "accepted (r_stats s) = Suc a" and "received (r_stats s) = Suc a + dropped (r_stats s) + attestations_cached (r_stats s)"
    and "location_terminated (r_stats s) + relayed_to_phones (r_stats s) \<le> a"
    and "location_terminated (r_stats s) + nodes_reached (r_stats s) \<le> a"
  shows "balanced (r_stats (snd (handle_accepted w p raw msg fwd s)))"
  using assms relay_onward_books [of "snd (terminate_here w p msg s)" w p raw msg fwd]
  by (auto simp: handle_accepted_snd balanced_def same_books_def nodes_reached_def split: sum.splits bool.splits)

lemma handle_presentation_balanced:
  assumes "received (r_stats s) = Suc (accepted (r_stats s) + dropped (r_stats s) + attestations_cached (r_stats s))"
    and "location_terminated (r_stats s) + relayed_to_phones (r_stats s) \<le> accepted (r_stats s)"
    and "location_terminated (r_stats s) + nodes_reached (r_stats s) \<le> accepted (r_stats s)"
  shows "balanced (r_stats (snd (handle_presentation pl w raw cache s)))"
  using assms
  by (auto simp: handle_presentation_def balanced_def nodes_reached_def Let_def
      split: prod.splits outcome.splits option.splits)

lemma handle_packet_balanced:
  assumes "balanced (r_stats s)"
  shows "balanced (r_stats (snd (handle_packet pl w p raw s)))"
proof -
  let ?s1 = "count (received_update Suc) s"
  have pres: "balanced (r_stats (snd (handle_presentation pl w raw cache ?s1)))" for cache
    using assms by (intro handle_presentation_balanced) (auto simp: balanced_def nodes_reached_def)
  have acc: "balanced (r_stats (snd (handle_accepted w p raw msg fwd (count (accepted_update Suc) (?s1\<lparr>r_pipeline := q\<rparr>)))))"
    for msg fwd q
    using assms by (intro handle_accepted_balanced [where a = "accepted (r_stats s)"])
      (auto simp: balanced_def nodes_reached_def)
  show ?thesis
    using assms pres acc
    by (auto simp: handle_packet_def Let_def balanced_def nodes_reached_def split: option.splits prod.splits outcome.splits)
qed

text \<open>Effects by kind.\<close>

lemma forward_out: "forward_to_zone now n bh z x = (out, r) \<Longrightarrow> d \<in> set out \<Longrightarrow> cargo d = x"
  using batman.fwd_cargo [of d now n bh z x] by simp

lemma broadcast_out: "broadcast_to_all_nodes n bh x = (out, r) \<Longrightarrow> d \<in> set out \<Longrightarrow> cargo d = x"
  using batman.bc_cargo [of d n bh x] by simp

lemma cross_node_effects:
  "e \<in> set (fst (fst (cross_node w msg raw s))) \<Longrightarrow> \<exists>d. e = ToNode d \<and> cargo d = raw"
  by (auto simp: cross_node_def dest: forward_out broadcast_out split: if_splits prod.splits option.splits)

lemma local_cell_effects:
  "e \<in> set (fst (fst (local_cell w p raw fwd s))) \<Longrightarrow> \<exists>r. e = OnAir r"
  by (auto simp: local_cell_def split: sum.splits if_splits prod.splits option.splits)

lemma terminate_here_effects:
  "e \<in> set (fst (fst (terminate_here w p msg s))) \<Longrightarrow> \<exists>r. e = OnAir r"
  by (auto simp: terminate_here_def split: option.splits prod.splits)

lemma handle_accepted_fst:
  "fst (fst (handle_accepted w p raw msg fwd s)) =
     fst (fst (terminate_here w p msg s)) @
     (if snd (fst (terminate_here w p msg s)) = Inr False
      then fst (fst (relay_onward w p raw msg fwd (snd (terminate_here w p msg s)))) else [])"
  by (auto simp: handle_accepted_def split: prod.splits sum.splits bool.splits)

lemma handle_accepted_datagrams:
  "ToNode d \<in> set (fst (fst (handle_accepted w p raw msg fwd s))) \<Longrightarrow> cargo d = raw"
  by (auto simp: handle_accepted_fst relay_onward_fst dest: cross_node_effects local_cell_effects
      terminate_here_effects split: if_splits)

lemma handle_presentation_effects:
  assumes "e \<in> set (fst (fst (handle_presentation pl w raw cache s)))"
  shows "(\<exists>d. e = ToNode d \<and> cargo d = raw) \<and>
    (\<exists>msg fwd q. process pl (w_now w) None (r_presentation s) raw = (Deliver msg fwd, q))"
  using assms
  by (auto simp: handle_presentation_def Let_def dest: forward_out broadcast_out
      split: prod.splits outcome.splits option.splits if_splits)

lemma control_frames_effects:
  "is_telemetry_frame raw \<or> is_backend_proxy_frame raw \<Longrightarrow> fst (fst (handle_packet pl w p raw s)) = []"
  by (auto simp: handle_packet_def split: option.splits prod.splits)

lemma handle_presentation_rest:
  "r_pipeline (snd (handle_presentation pl w raw cache s)) = r_pipeline s \<and>
   r_location (snd (handle_presentation pl w raw cache s)) = r_location s \<and>
   accepted (r_stats (snd (handle_presentation pl w raw cache s))) = accepted (r_stats s)"
  unfolding handle_presentation_def Let_def
  by (simp split: prod.split outcome.split option.split)

text \<open>The cross-node step is the backhaul's routing, so the contract of the backhaul carries over.\<close>

lemma cross_node_route:
  assumes "r_zone_id s = bh_zone_id (r_backhaul s)"
  shows "fst (cross_node w msg raw s) =
    (let (out, r) = node_backhaul.route_packet (forward_to_zone (w_mono w) (w_net w))
       (broadcast_to_all_nodes (w_net w)) bh_zone_id BROADCAST_ZONE (r_backhaul s) (msg_zone msg) raw
     in (map ToNode out, r))"
  using assms by (simp add: cross_node_def batman.route_packet_def Let_def split: prod.split option.split)

lemma cross_node_quiet:
  assumes "r_zone_id s = bh_zone_id (r_backhaul s)" and "bh_good (w_mono w) (w_net w) (r_backhaul s)"
  shows "snd (fst (cross_node w msg raw s)) = None"
  using batman.route_packet_quiet [OF assms(2)] by (simp add: cross_node_route [OF assms(1)] case_prod_beta)

lemma local_cell_fan_out:
  assumes "relayed_copy raw fwd = Inr copy" and "SPRAY_OFFSET < length copy" and "length copy < 65536"
    and "copy ! TTL_OFFSET \<noteq> 0"
  shows "local_cell w p raw fwd s =
    ((map OnAir (concat (map (\<lambda>q. fst (transport_send (w_faults w) (r_transport s) q copy))
        (filter (\<lambda>q. q \<noteq> p) (transport_list_peers (r_transport s))))), None),
     count (relayed_to_phones_update Suc) s)"
  using assms by (simp add: local_cell_def TTL_OFFSET_def SPRAY_OFFSET_def anyt.fan_out_skip)

text \<open>A message the node does not terminate, or any message on a node without the service.\<close>

definition passes_by :: "core \<Rightarrow> message \<Rightarrow> ('p, 'c) relay \<Rightarrow> bool" where
  "passes_by c msg s = (r_location s = None \<or>
     msg_type msg \<notin> {type_location c, type_location_query c, type_location_revoke c})"

lemma terminate_here_passes: "passes_by (w_core w) msg s \<Longrightarrow> terminate_here w p msg s = (([], Inr False), s)"
  by (auto simp: terminate_here_def passes_by_def handle_node_terminated_def split: option.split)

lemma handle_packet_passes:
  assumes "\<not> is_telemetry_frame raw" and "\<not> is_backend_proxy_frame raw"
    and "\<not> is_attestation_presentation (w_core w) raw \<or> r_attestation s = None"
    and "process pl (w_now w) (r_attestation s) (r_pipeline s) raw = (Deliver msg fwd, q)"
    and "passes_by (w_core w) msg s"
  shows "handle_packet pl w p raw s = relay_onward w p raw msg fwd
    (count (accepted_update Suc) ((count (received_update Suc) s)\<lparr>r_pipeline := q\<rparr>))"
proof -
  let ?s = "count (accepted_update Suc) ((count (received_update Suc) s)\<lparr>r_pipeline := q\<rparr>)"
  have "passes_by (w_core w) msg ?s" using assms(5) by (simp add: passes_by_def)
  from terminate_here_passes [OF this] have "handle_accepted w p raw msg fwd ?s = relay_onward w p raw msg fwd ?s"
    by (simp add: handle_accepted_def)
  moreover have "(if is_attestation_presentation (w_core w) raw then r_attestation s else None) = None"
    using assms(3) by auto
  ultimately show ?thesis using assms(1,2,4) by (simp add: handle_packet_def Let_def)
qed

section \<open>Runs\<close>

fun relay_run ::
  "('p, 'c) pipeline \<Rightarrow> (world \<times> pystr \<times> bytes) list \<Rightarrow> ('p, 'c) relay \<Rightarrow> ('p, 'c) relay" where
  "relay_run pl [] s = s"
| "relay_run pl ((w, p, raw) # es) s = relay_run pl es (snd (handle_packet pl w p raw s))"

lemma relay_run_balanced: "balanced (r_stats s) \<Longrightarrow> balanced (r_stats (relay_run pl es s))"
  by (induction pl es s rule: relay_run.induct) (simp_all add: handle_packet_balanced)

section \<open>Properties\<close>

text \<open>C27. The counters add up: after any packets from any peers, received is accepted plus dropped plus
  cached presentations, and no accepted packet is counted twice as terminated and relayed, or as
  terminated and sent to other nodes.\<close>

theorem relay_counters_balance:
  "let x = r_stats (relay_run pl es (relay_init pl t bh zone_id attestation ping loc prox))
   in received x = accepted x + dropped x + attestations_cached x \<and>
      location_terminated x + relayed_to_phones x \<le> accepted x \<and>
      location_terminated x + forwarded_cross_zone x + broadcast_to_nodes x \<le> accepted x"
  using relay_run_balanced [of "relay_init pl t bh zone_id attestation ping loc prox" pl es]
  by (simp add: relay_init_def no_traffic_def balanced_def nodes_reached_def Let_def)

text \<open>Control frames stay at the node: a telemetry or proxy frame causes no transmission to a phone
  or another node, no counter moves, and no pipeline, cache or coordinate sees it.\<close>

theorem control_frames_never_relayed:
  assumes "is_telemetry_frame raw \<or> is_backend_proxy_frame raw"
  shows "fst (fst (handle_packet pl w p raw s)) = [] \<and>
    (\<exists>ping prox. snd (handle_packet pl w p raw s) = s\<lparr>r_phone_ping := ping, r_backend_proxy := prox\<rparr>)"
proof -
  let ?s = "snd (handle_packet pl w p raw s)"
  have "?s = s\<lparr>r_phone_ping := r_phone_ping ?s, r_backend_proxy := r_backend_proxy ?s\<rparr>"
    using assms by (auto simp: handle_packet_def split: option.splits prod.splits)
  with control_frames_effects [OF assms] show ?thesis by blast
qed

text \<open>The pipeline of the witnesses: it accepts every packet as the message it is given and hands back
  no forward copy, and the attestation cache takes every token.\<close>

definition sample_pipeline :: "message \<Rightarrow> (unit, unit) pipeline" where
  "sample_pipeline m = \<lparr>process = (\<lambda>now c p raw. (Deliver m None, ())), add_token = (\<lambda>now t c. (Some [], c)),
     fresh_pipeline = ()\<rparr>"

definition sample_world :: world where
  "sample_world = \<lparr>w_core = sample_core, w_faults = no_faults, w_net = quiet_net, w_mono = 100, w_now = 100, w_snow = 100\<rparr>"

definition sample_bh :: backhaul where
  "sample_bh = bh_init 1 None None (host_addr [57]) 7"

definition sample_relay :: "(unit, unit) relay" where
  "sample_relay = relay_init (sample_pipeline sample_query)
     (Multi (ble_init gatt_init) (snd (wifi_accept ((wifi_init 1)\<lparr>running := True\<rparr>) [49] 5 3)))
     sample_bh 1 None None (Some sample_service) None"

theorem control_frames_never_relayed_witness:
  "fst (fst (handle_packet (sample_pipeline sample_query) sample_world [1] (PHONE_PING_MAGIC @ [9]) sample_relay)) = []"
  using control_frames_never_relayed [of "PHONE_PING_MAGIC @ [9]" "sample_pipeline sample_query" sample_world "[1]" sample_relay]
  by (simp add: is_telemetry_frame_def)

text \<open>C23. A beacon never leaves the node: when the location service is installed and the pipeline accepts
  a packet of type \<open>LOCATION\<close>, nothing goes to any phone or node, whether storing it succeeds or raises,
  and the coordinate of no other sender changes.\<close>

theorem beacon_never_leaves:
  assumes "\<not> is_telemetry_frame raw" and "\<not> is_backend_proxy_frame raw"
    and "\<not> is_attestation_presentation (w_core w) raw"
    and "process pl (w_now w) (r_attestation s) (r_pipeline s) raw = (Deliver msg fwd, q)"
    and "msg_type msg = type_location (w_core w)" and "r_location s = Some ls"
  shows "fst (fst (handle_packet pl w p raw s)) = [] \<and>
    (\<exists>ls'. r_location (snd (handle_packet pl w p raw s)) = Some ls' \<and>
      (\<forall>k. k \<noteq> sender_key msg \<longrightarrow> store_get k (ls_store ls') = store_get k (ls_store ls)))"
proof -
  obtain r ls' where h: "handle_node_terminated (w_core w) (w_faults w) (r_transport s) (w_now w) (w_snow w) p msg ls =
      (([], r), ls')" and r: "r \<noteq> Inr False"
    using terminated_beacon [OF assms(5), of "w_faults w" "r_transport s" "w_now w" "w_snow w" p ls]
    by (cases "handle_node_terminated (w_core w) (w_faults w) (r_transport s) (w_now w) (w_snow w) p msg ls") force
  have others: "store_get k (ls_store ls') = store_get k (ls_store ls)" if "k \<noteq> sender_key msg" for k
    using h that assms(5)
    by (auto simp: handle_node_terminated_def ingest_beacon_def store_update_def store_get_def
        split: option.splits prod.splits)
  let ?s = "count (accepted_update Suc) ((count (received_update Suc) s)\<lparr>r_pipeline := q\<rparr>)"
  have "terminate_here w p msg ?s = (([], r), ?s\<lparr>r_location := Some ls'\<rparr>)"
    by (simp add: terminate_here_def assms(6) h)
  then have "fst (fst (handle_accepted w p raw msg fwd ?s)) = [] \<and>
      r_location (snd (handle_accepted w p raw msg fwd ?s)) = Some ls'"
    using r by (auto simp: handle_accepted_def split: sum.splits bool.splits)
  moreover have "handle_packet pl w p raw s = handle_accepted w p raw msg fwd ?s"
    using assms(1-4) by (simp add: handle_packet_def Let_def)
  ultimately show ?thesis using others by simp
qed

theorem beacon_never_leaves_witness:
  "fst (fst (handle_packet (sample_pipeline (sample_query\<lparr>msg_type := 2\<rparr>)) sample_world [1] [0] sample_relay)) = []"
proof -
  have "process (sample_pipeline (sample_query\<lparr>msg_type := 2\<rparr>)) (w_now sample_world) (r_attestation sample_relay)
      (r_pipeline sample_relay) [0] = (Deliver (sample_query\<lparr>msg_type := 2\<rparr>) None, ())"
    by (simp add: sample_pipeline_def)
  from beacon_never_leaves [OF _ _ _ this, of sample_service "[1]"] show ?thesis
    by (simp add: is_telemetry_frame_def is_backend_proxy_frame_def is_attestation_presentation_def starts_with_def
        sample_world_def sample_core_def sample_relay_def relay_init_def PHONE_PING_MAGIC_def BACKEND_PROXY_MAGIC_def blit_def)
qed

text \<open>C30. Only what a pipeline accepted leaves for other nodes, and unchanged: every datagram caused by
  a packet carries that packet byte for byte, the packet was no control frame, and the pipeline that
  judged it (the attesting one, or the presentation one) delivered it.\<close>

theorem datagrams_carry_accepted_packets:
  assumes "ToNode d \<in> set (fst (fst (handle_packet pl w p raw s)))"
  shows "cargo d = raw \<and> \<not> is_telemetry_frame raw \<and> \<not> is_backend_proxy_frame raw \<and>
    (\<exists>msg fwd q. process pl (w_now w) (r_attestation s) (r_pipeline s) raw = (Deliver msg fwd, q) \<or>
       is_attestation_presentation (w_core w) raw \<and>
       process pl (w_now w) None (r_presentation s) raw = (Deliver msg fwd, q))"
proof -
  have c: "\<not> is_telemetry_frame raw" "\<not> is_backend_proxy_frame raw"
    using assms control_frames_effects [of raw pl w p s] by auto
  let ?s1 = "count (received_update Suc) s"
  show ?thesis
  proof (cases "if is_attestation_presentation (w_core w) raw then r_attestation s else None")
    case None
    then obtain msg fwd q where pr: "process pl (w_now w) (r_attestation s) (r_pipeline s) raw = (Deliver msg fwd, q)"
      and e: "ToNode d \<in> set (fst (fst (handle_accepted w p raw msg fwd
        (count (accepted_update Suc) (?s1\<lparr>r_pipeline := q\<rparr>)))))"
      using assms c by (auto simp: handle_packet_def Let_def split: prod.splits outcome.splits)
    with handle_accepted_datagrams [OF e] c show ?thesis by blast
  next
    case (Some cache)
    then have a: "is_attestation_presentation (w_core w) raw" by (simp split: if_splits)
    have e: "ToNode d \<in> set (fst (fst (handle_presentation pl w raw cache ?s1)))"
      using assms c Some by (simp add: handle_packet_def Let_def)
    from handle_presentation_effects [OF e] a c show ?thesis by auto
  qed
qed

theorem datagrams_carry_accepted_packets_witness:
  "\<exists>d. ToNode d \<in> set (fst (fst (handle_packet (sample_pipeline (sample_query\<lparr>msg_zone := 65535\<rparr>)) sample_world [1] [5] sample_relay))) \<and>
     cargo d = [5]"
proof -
  have "ToNode (Datagram [57] 7 [5]) \<in> set (fst (fst (handle_packet (sample_pipeline (sample_query\<lparr>msg_zone := 65535\<rparr>))
      sample_world [1] [5] sample_relay)))"
    by (simp add: handle_packet_def handle_accepted_fst relay_onward_fst cross_node_def BROADCAST_ZONE_def
        sample_pipeline_def sample_relay_def relay_init_def sample_bh_def bh_init_def bh_on_receive_def Let_def
        is_telemetry_frame_def is_backend_proxy_frame_def is_attestation_presentation_def starts_with_def
        PHONE_PING_MAGIC_def BACKEND_PROXY_MAGIC_def blit_def sample_world_def sample_core_def
        broadcast_to_all_nodes_def bh_send_def sendto_pair_def quiet_net_def terminate_here_def
        handle_node_terminated_def sample_query_def sample_service_def handle_query_def admit_query_def
        by_ed25519_id_def)
  from datagrams_carry_accepted_packets [OF this] this show ?thesis by blast
qed

text \<open>C38. A token presentation never reaches a phone: with attestation on, a packet of that type causes
  datagrams only, is never put to the relay pipeline or the location service, and is counted as
  dropped or cached.\<close>

theorem presentation_never_reaches_phones:
  assumes "is_attestation_presentation (w_core w) raw" and "r_attestation s = Some cache"
    and "\<not> is_telemetry_frame raw" and "\<not> is_backend_proxy_frame raw"
  shows "OnAir r \<notin> set (fst (fst (handle_packet pl w p raw s))) \<and>
    r_pipeline (snd (handle_packet pl w p raw s)) = r_pipeline s \<and>
    r_location (snd (handle_packet pl w p raw s)) = r_location s \<and>
    accepted (r_stats (snd (handle_packet pl w p raw s))) = accepted (r_stats s)"
proof -
  let ?s1 = "count (received_update Suc) s"
  have h: "handle_packet pl w p raw s = handle_presentation pl w raw cache ?s1"
    using assms by (simp add: handle_packet_def Let_def)
  have "OnAir r \<notin> set (fst (fst (handle_presentation pl w raw cache ?s1)))"
    by (auto dest!: handle_presentation_effects)
  then show ?thesis unfolding h by (simp add: handle_presentation_rest)
qed

theorem presentation_never_reaches_phones_witness:
  "r_pipeline (snd (handle_packet (sample_pipeline sample_query)
     (sample_world\<lparr>w_core := sample_core\<lparr>parse_packet := (\<lambda>b. Some (sample_query\<lparr>msg_type := 6\<rparr>))\<rparr>\<rparr>) [1] [0]
     (sample_relay\<lparr>r_attestation := Some ()\<rparr>))) = ()"
  using presentation_never_reaches_phones [of
      "sample_world\<lparr>w_core := sample_core\<lparr>parse_packet := (\<lambda>b. Some (sample_query\<lparr>msg_type := 6\<rparr>))\<rparr>\<rparr>" "[0]"
      "sample_relay\<lparr>r_attestation := Some ()\<rparr>" "()" _ "sample_pipeline sample_query" "[1]"]
  by (simp add: is_attestation_presentation_def MSG_TYPE_ATTESTATION_PRESENT_def is_telemetry_frame_def
      is_backend_proxy_frame_def starts_with_def PHONE_PING_MAGIC_def BACKEND_PROXY_MAGIC_def blit_def)

text \<open>One hop costs one: decrementing the ttl changes byte 68 and nothing else, by exactly one, and
  fails exactly on a packet too short or already at 0.\<close>

theorem decrement_ttl_one_byte:
  "(case decrement_ttl raw of
      Inr r \<Rightarrow> length r = length raw \<and> 68 < length raw \<and> unat (raw ! 68) = Suc (unat (r ! 68)) \<and>
               take 68 r = take 68 raw \<and> drop 69 r = drop 69 raw
    | Inl e \<Rightarrow> if length raw \<le> 68 then e = IndexError else raw ! 68 = 0 \<and> e = ValueError)"
proof (cases "decrement_ttl raw")
  case (Inl e)
  then show ?thesis by (simp add: decrement_ttl_def TTL_OFFSET_def split: if_splits)
next
  case (Inr r)
  then have r: "68 < length raw" "raw ! 68 \<noteq> 0" "r = raw[68 := raw ! 68 - 1]"
    by (simp_all add: decrement_ttl_iff TTL_OFFSET_def)
  have "unat (raw ! 68) \<noteq> 0" using r(2) by (simp add: unat_eq_0)
  with r show ?thesis by (simp add: Inr unat_pred)
qed

lemma relay_onward_ok:
  "snd (fst (cross_node w msg raw s)) = None \<Longrightarrow>
   fst (relay_onward w p raw msg fwd s) =
     (fst (fst (cross_node w msg raw s)) @ fst (fst (local_cell w p raw fwd (snd (cross_node w msg raw s)))),
      snd (fst (local_cell w p raw fwd (snd (cross_node w msg raw s)))))"
  by (auto simp: relay_onward_def split: prod.splits option.splits)

lemma accepted_fan_out:
  assumes "\<not> is_telemetry_frame raw" and "\<not> is_backend_proxy_frame raw"
    and "\<not> is_attestation_presentation (w_core w) raw \<or> r_attestation s = None"
    and "process pl (w_now w) (r_attestation s) (r_pipeline s) raw = (Deliver msg fwd, q)"
    and "passes_by (w_core w) msg s"
    and "r_zone_id s = bh_zone_id (r_backhaul s)" and "bh_good (w_mono w) (w_net w) (r_backhaul s)"
    and "relayed_copy raw fwd = Inr copy" and "69 < length copy" and "length copy < 65536" and "copy ! 68 \<noteq> 0"
  shows "fst (handle_packet pl w p raw s) =
    (map ToNode
       (if msg_zone msg = BROADCAST_ZONE then fst (broadcast_to_all_nodes (w_net w) (r_backhaul s) raw)
        else if msg_zone msg \<noteq> r_zone_id s
        then fst (forward_to_zone (w_mono w) (w_net w) (r_backhaul s) (msg_zone msg) raw) else []) @
     map OnAir (concat (map (\<lambda>peer. fst (transport_send (w_faults w) (r_transport s) peer copy))
       (filter (\<lambda>peer. peer \<noteq> p) (transport_list_peers (r_transport s))))), None)"
proof -
  let ?s = "count (accepted_update Suc) ((count (received_update Suc) s)\<lparr>r_pipeline := q\<rparr>)"
  have z: "r_zone_id ?s = bh_zone_id (r_backhaul ?s)" using assms(6) by simp
  have c: "snd (fst (cross_node w msg raw ?s)) = None"
    using assms(7) by (intro cross_node_quiet [OF z]) simp
  have t: "r_transport (snd (cross_node w msg raw ?s)) = r_transport s"
    by (auto simp: cross_node_def split: prod.splits option.splits)
  have l: "local_cell w p raw fwd (snd (cross_node w msg raw ?s)) =
      ((map OnAir (concat (map (\<lambda>peer. fst (transport_send (w_faults w) (r_transport s) peer copy))
         (filter (\<lambda>peer. peer \<noteq> p) (transport_list_peers (r_transport s))))), None),
       count (relayed_to_phones_update Suc) (snd (cross_node w msg raw ?s)))"
    by (rule local_cell_fan_out [of raw fwd copy w p "snd (cross_node w msg raw ?s)", unfolded t TTL_OFFSET_def SPRAY_OFFSET_def])
      (rule assms(8-11))+
  have x: "fst (fst (cross_node w msg raw ?s)) = map ToNode
       (if msg_zone msg = BROADCAST_ZONE then fst (broadcast_to_all_nodes (w_net w) (r_backhaul s) raw)
        else if msg_zone msg \<noteq> r_zone_id s
        then fst (forward_to_zone (w_mono w) (w_net w) (r_backhaul s) (msg_zone msg) raw) else [])"
    by (simp add: cross_node_def split: prod.split option.split)
  show ?thesis
    unfolding handle_packet_passes [OF assms(1-5)] relay_onward_ok [OF c] l x by simp
qed

text \<open>C1. Fan-out is complete and exact: with a good backhaul an accepted message that is not terminated
  goes to other nodes as the zone routing says and to every listed phone except the one it came from,
  once, as the forward copy or the packet one hop further; nothing is raised.\<close>

theorem accepted_message_fans_out:
  assumes "\<not> is_telemetry_frame raw" and "\<not> is_backend_proxy_frame raw"
    and "\<not> is_attestation_presentation (w_core w) raw \<or> r_attestation s = None"
    and "process pl (w_now w) (r_attestation s) (r_pipeline s) raw = (Deliver msg fwd, q)"
    and "passes_by (w_core w) msg s"
    and "r_zone_id s = bh_zone_id (r_backhaul s)" and "bh_good (w_mono w) (w_net w) (r_backhaul s)"
    and "relayed_copy raw fwd = Inr copy" and "69 < length copy" and "length copy < 65536" and "copy ! 68 \<noteq> 0"
  shows "fst (handle_packet pl w p raw s) =
    (map ToNode
       (if msg_zone msg = BROADCAST_ZONE then fst (broadcast_to_all_nodes (w_net w) (r_backhaul s) raw)
        else if msg_zone msg \<noteq> r_zone_id s
        then fst (forward_to_zone (w_mono w) (w_net w) (r_backhaul s) (msg_zone msg) raw) else []) @
     map OnAir (concat (map (\<lambda>peer. fst (transport_send (w_faults w) (r_transport s) peer copy))
       (filter (\<lambda>peer. peer \<noteq> p) (transport_list_peers (r_transport s))))), None)"
  using assms by (rule accepted_fan_out)

lemma sample_packet_plain:
  "c \<noteq> 77 \<Longrightarrow> \<not> is_telemetry_frame (c # b)" "c \<noteq> 77 \<Longrightarrow> \<not> is_backend_proxy_frame (c # b)"
  by (simp_all add: is_telemetry_frame_def is_backend_proxy_frame_def starts_with_def PHONE_PING_MAGIC_def
      BACKEND_PROXY_MAGIC_def blit_def)

lemma sample_bh_good: "bh_good 100 quiet_net (bh_on_receive sample_bh)"
  by (simp add: bh_good_def sample_bh_def bh_init_def bh_on_receive_def sendable_def quiet_net_def
      ztable_init_def addr_for_def)

theorem accepted_message_fans_out_witness:
  "\<exists>out. fst (handle_packet (sample_pipeline (sample_query\<lparr>msg_type := 1, msg_zone := 65535\<rparr>)) sample_world [1]
     (replicate 70 2) sample_relay) = (ToNode (Datagram [57] 7 (replicate 70 2)) # out, None)"
proof -
  let ?m = "sample_query\<lparr>msg_type := 1, msg_zone := 65535\<rparr>"
  have raw: "replicate 70 (2 :: byte) = 2 # replicate 69 2" by (simp add: numeral_eq_Suc)
  have p: "process (sample_pipeline ?m) (w_now sample_world) (r_attestation sample_relay) (r_pipeline sample_relay)
      (replicate 70 2) = (Deliver ?m None, ())" by (simp add: sample_pipeline_def)
  have pass: "passes_by (w_core sample_world) ?m sample_relay"
    by (simp add: passes_by_def sample_world_def sample_core_def)
  have good: "bh_good (w_mono sample_world) (w_net sample_world) (r_backhaul sample_relay)"
    using sample_bh_good by (simp add: sample_world_def sample_relay_def relay_init_def)
  have copy: "relayed_copy (replicate 70 2) None = Inr ((replicate 70 2)[68 := 1 :: byte])"
    by (simp add: relayed_copy_def decrement_ttl_iff TTL_OFFSET_def)
  have zone: "r_zone_id sample_relay = bh_zone_id (r_backhaul sample_relay)"
    by (simp add: sample_relay_def relay_init_def sample_bh_def bh_init_def bh_on_receive_def)
  have att: "\<not> is_attestation_presentation (w_core sample_world) (replicate 70 2)"
    by (simp add: is_attestation_presentation_def sample_world_def sample_core_def)
  have plain: "\<not> is_telemetry_frame (replicate 70 2)" "\<not> is_backend_proxy_frame (replicate 70 2)"
    unfolding raw by (simp_all add: sample_packet_plain)
  have bc: "fst (broadcast_to_all_nodes (w_net sample_world) (r_backhaul sample_relay) (replicate 70 2)) =
      [Datagram [57] 7 (replicate 70 2)]"
    by (simp add: sample_world_def sample_relay_def relay_init_def sample_bh_def bh_init_def bh_on_receive_def
        broadcast_to_all_nodes_def bh_send_def sendto_pair_def quiet_net_def)
  from accepted_message_fans_out [OF plain disjI1 [OF att] p pass zone good copy] show ?thesis
    by (simp add: bc BROADCAST_ZONE_def)
qed

text \<open>One bad announcement silences a zone for the local cell too: while the route to the message's
  zone raises, an accepted message for it is not relayed to any phone of this node either.\<close>

theorem bad_route_blocks_local_delivery:
  assumes "\<not> is_telemetry_frame raw" and "\<not> is_backend_proxy_frame raw"
    and "\<not> is_attestation_presentation (w_core w) raw \<or> r_attestation s = None"
    and "process pl (w_now w) (r_attestation s) (r_pipeline s) raw = (Deliver msg fwd, q)"
    and "passes_by (w_core w) msg s"
    and "msg_zone msg \<noteq> BROADCAST_ZONE" and "msg_zone msg \<noteq> r_zone_id s"
    and "forward_to_zone (w_mono w) (w_net w) (r_backhaul s) (msg_zone msg) raw = ([], Some e)"
  shows "fst (handle_packet pl w p raw s) = ([], Some e) \<and>
    relayed_to_phones (r_stats (snd (handle_packet pl w p raw s))) = relayed_to_phones (r_stats s)"
  unfolding handle_packet_passes [OF assms(1-5)]
  using assms(6-8) by (simp add: relay_onward_def cross_node_def)

theorem bad_route_blocks_local_delivery_witness:
  "\<exists>s. fst (handle_packet (sample_pipeline (sample_query\<lparr>msg_type := 1, msg_zone := 9\<rparr>)) sample_world [1]
     (replicate 70 2) s) = ([], Some TypeError) \<and>
   transport_list_peers (r_transport s) = [wifi_peer_id [49] 5]"
proof -
  let ?m = "sample_query\<lparr>msg_type := 1, msg_zone := 9\<rparr>"
  let ?s = "sample_relay\<lparr>r_backhaul := sample_bh\<lparr>bh_table := learn 90 9 (ATuple []) (bh_table sample_bh)\<rparr>\<rparr>"
  have raw: "replicate 70 (2 :: byte) = 2 # replicate 69 2" by (simp add: numeral_eq_Suc)
  have p: "process (sample_pipeline ?m) (w_now sample_world) (r_attestation ?s) (r_pipeline ?s)
      (replicate 70 2) = (Deliver ?m None, ())" by (simp add: sample_pipeline_def)
  have pass: "passes_by (w_core sample_world) ?m ?s"
    by (simp add: passes_by_def sample_world_def sample_core_def)
  have att: "\<not> is_attestation_presentation (w_core sample_world) (replicate 70 2)"
    by (simp add: is_attestation_presentation_def sample_world_def sample_core_def)
  have plain: "\<not> is_telemetry_frame (replicate 70 2)" "\<not> is_backend_proxy_frame (replicate 70 2)"
    unfolding raw by (simp_all add: sample_packet_plain)
  have "addr_for 100 9 (learn 90 9 (ATuple []) (bh_table sample_bh)) = Some (ATuple [])"
    by (simp add: addr_for_def learn_def expired_def sample_bh_def bh_init_def ztable_init_def)
  then have f: "forward_to_zone (w_mono sample_world) (w_net sample_world) (r_backhaul ?s) (msg_zone ?m) (replicate 70 2) =
      ([], Some TypeError)"
    by (simp add: forward_to_zone_def sample_world_def bh_send_def) (simp add: sample_bh_def bh_init_def)
  have "transport_list_peers (r_transport ?s) = [wifi_peer_id [49] 5]"
    by (simp add: sample_relay_def relay_init_def ble_list_peers_def ble_init_def gatt_init_def gatt_peers_def
        wifi_list_peers_def wifi_accept_def wifi_init_def Let_def ble_on_receive_def wifi_on_receive_def)
  with bad_route_blocks_local_delivery [OF plain disjI1 [OF att] p pass _ _ f, of "[1]"] show ?thesis
    by (intro exI [of _ ?s]) (simp add: BROADCAST_ZONE_def sample_relay_def relay_init_def)
qed

end
