(* ===== verification/WifiAp.thy ===== *)
theory WifiAp
  imports PyNum
begin

text \<open>
  \<open>node/wifi_ap\<close>: the deployment file (\<open>deployment_config.py\<close>), the \<open>hostapd.conf\<close> made from it
  (\<open>hostapd_config.py\<close>), the self-check of \<open>base.py\<close> and the Raspberry Pi provisioner
  (\<open>hostapd.py\<close>). Files are texts, \<open>None\<close> for one that cannot be read; the setup script and the
  system's radio are arguments.
\<close>

section \<open>Lines\<close>

text \<open>\<open>str.splitlines()\<close>: a carriage return before a line feed is one boundary with it.\<close>

definition line_break :: "nat \<Rightarrow> bool" where
  "line_break c = (10 \<le> c \<and> c \<le> 13 \<or> 28 \<le> c \<and> c \<le> 30 \<or> c = 133 \<or> c = 8232 \<or> c = 8233)"

definition drop_break :: "pystr \<Rightarrow> pystr" where
  "drop_break s = (case s of [] \<Rightarrow> [] | c # r \<Rightarrow> if c = 13 \<and> r \<noteq> [] \<and> hd r = 10 then tl r else r)"

function splitlines :: "pystr \<Rightarrow> pystr list" where
  "splitlines s =
     (if s = [] then []
      else takeWhile (\<lambda>c. \<not> line_break c) s # splitlines (drop_break (dropWhile (\<lambda>c. \<not> line_break c) s)))"
  by pat_completeness auto
termination
proof (relation "measure length", simp)
  fix s :: pystr
  assume "s \<noteq> []"
  have "length (drop_break r) \<le> length r - 1" for r
    by (auto simp: drop_break_def split: list.split)
  moreover have "length (dropWhile (\<lambda>c. \<not> line_break c) s) \<le> length s" by (rule length_dropWhile_le)
  ultimately have "length (drop_break (dropWhile (\<lambda>c. \<not> line_break c) s)) \<le> length s - 1"
    by (meson diff_le_mono le_trans)
  with \<open>s \<noteq> []\<close> show "(drop_break (dropWhile (\<lambda>c. \<not> line_break c) s), s) \<in> measure length"
    by (cases s) auto
qed

declare splitlines.simps [simp del]

lemma splitlines_code [code]:
  "splitlines [] = []"
  "splitlines (c # s) = takeWhile (\<lambda>c. \<not> line_break c) (c # s)
     # splitlines (drop_break (dropWhile (\<lambda>c. \<not> line_break c) (c # s)))"
  by (subst splitlines.simps; simp)+

section \<open>The deployment file\<close>

record wifi_deployment =
  ssid :: pystr
  passphrase :: pystr

definition deployment_keys :: "pystr list" where
  "deployment_keys = [lit ''ssid'', lit ''passphrase'']"

text \<open>One line: blank and comment lines are skipped; the first \<open>=\<close> separates key and value.\<close>

definition parse_line :: "pystr \<Rightarrow> (pystr, pystr) dict \<Rightarrow> exn + (pystr, pystr) dict" where
  "parse_line raw values =
     (let line = strip raw
      in if line = [] \<or> starts_with line (lit ''#'') then Inr values
         else (case partition_at 61 line of
                 None \<Rightarrow> Inl ValueError
               | Some (before, value) \<Rightarrow>
                   (let key = strip before
                    in if key \<notin> set deployment_keys then Inl ValueError
                       else if map_of values key \<noteq> None then Inl ValueError
                       else Inr (values @ [(key, strip value)]))))"

fun parse_lines :: "pystr list \<Rightarrow> (pystr, pystr) dict \<Rightarrow> exn + (pystr, pystr) dict" where
  "parse_lines [] values = Inr values"
| "parse_lines (l # ls) values =
     (case parse_line l values of Inl e \<Rightarrow> Inl e | Inr values' \<Rightarrow> parse_lines ls values')"

definition check_deployment :: "pystr \<Rightarrow> pystr \<Rightarrow> exn + wifi_deployment" where
  "check_deployment s p =
     (case utf8_encode s of
        Inl e \<Rightarrow> Inl e
      | Inr b \<Rightarrow>
          (if \<not> (1 \<le> length b \<and> length b \<le> 32) then Inl ValueError
           else if list_ex (\<lambda>c. c < 32 \<or> c = 127) s then Inl ValueError
           else if \<not> (8 \<le> length p \<and> length p \<le> 63) then Inl ValueError
           else if \<not> list_all (\<lambda>c. 32 \<le> c \<and> c \<le> 126) p then Inl ValueError
           else Inr \<lparr>ssid = s, passphrase = p\<rparr>))"

definition parse_deployment_conf :: "pystr \<Rightarrow> exn + wifi_deployment" where
  "parse_deployment_conf text =
     (case parse_lines (splitlines text) [] of
        Inl e \<Rightarrow> Inl e
      | Inr values \<Rightarrow>
          (case map_of values (lit ''ssid'') of
             None \<Rightarrow> Inl ValueError
           | Some s \<Rightarrow>
               (case map_of values (lit ''passphrase'') of
                  None \<Rightarrow> Inl ValueError
                | Some p \<Rightarrow> check_deployment s p)))"

text \<open>A file that cannot be read is a \<open>ValueError\<close> too.\<close>

definition load_deployment_config :: "exn + pystr \<Rightarrow> exn + wifi_deployment" where
  "load_deployment_config file =
     (case file of
        Inl e \<Rightarrow> Inl (if e = OSError then ValueError else e)
      | Inr text \<Rightarrow> parse_deployment_conf text)"

section \<open>\<open>hostapd.conf\<close>\<close>

text \<open>The lines of the template; each ends with a line feed.\<close>

definition hostapd_lines :: "wifi_deployment \<Rightarrow> pystr \<Rightarrow> int \<Rightarrow> pystr list" where
  "hostapd_lines config iface channel =
     [lit ''# Generated by node/wifi_ap/hostapd_config.py '' @ [8212] @ lit '' do not hand-edit.'',
      lit ''# SSID/passphrase come from the deployment-wide config; see'',
      lit ''# docs/wifi-ap-deployment.md.'',
      lit ''interface='' @ iface,
      lit ''driver=nl80211'',
      [],
      lit ''ssid='' @ ssid config,
      lit ''hw_mode=g'',
      lit ''channel='' @ str_int channel,
      lit ''ieee80211n=1'',
      lit ''wmm_enabled=1'',
      [],
      lit ''auth_algs=1'',
      lit ''wpa=2'',
      lit ''wpa_key_mgmt=WPA-PSK'',
      lit ''rsn_pairwise=CCMP'',
      lit ''wpa_passphrase='' @ passphrase config,
      [],
      lit ''# Roaming assists (WiFi Mesh Add-On '' @ [167] @ lit ''2.4): 802.11k neighbor reports and'',
      lit ''# 802.11v BSS transition hints help phones hand off between nodes sooner.'',
      lit ''# 802.11r fast transition is deferred '' @ [8212] @ lit '' it needs cross-node key material.'',
      lit ''rrm_neighbor_report=1'',
      lit ''bss_transition=1'']"

definition render_hostapd_conf :: "wifi_deployment \<Rightarrow> pystr \<Rightarrow> int \<Rightarrow> exn + pystr" where
  "render_hostapd_conf config iface channel =
     (if \<not> (1 \<le> channel \<and> channel \<le> 13) then Inl ValueError
      else Inr (concat (map (\<lambda>l. l @ [10]) (hostapd_lines config iface channel))))"

section \<open>The self-check and the Raspberry Pi provisioner\<close>

definition verify_consistency :: "wifi_deployment \<Rightarrow> pystr option \<Rightarrow> bool" where
  "verify_consistency config have =
     (case have of None \<Rightarrow> False | Some h \<Rightarrow> if h \<noteq> ssid config then False else True)"

definition hostapd_configured_ssid :: "pystr option \<Rightarrow> pystr option" where
  "hostapd_configured_ssid conf =
     (case conf of
        None \<Rightarrow> None
      | Some text \<Rightarrow> map_option (drop 5) (find (\<lambda>l. starts_with l (lit ''ssid='')) (splitlines text)))"

text \<open>The machine: the setup script, if it is there, as what a run answers (whether it succeeded) and
  makes of the file; and the file.\<close>

record pi =
  script :: "(pystr option \<Rightarrow> bool \<times> pystr option) option"
  hostapd_conf :: "pystr option"

definition hostapd_start :: "wifi_deployment \<Rightarrow> pi \<Rightarrow> bool \<times> pi" where
  "hostapd_start config m =
     (case script m of
        None \<Rightarrow> (False, m)
      | Some run \<Rightarrow>
          (case run (hostapd_conf m) of
             (ok, conf) \<Rightarrow>
               (if \<not> ok then False else verify_consistency config (hostapd_configured_ssid conf),
                m\<lparr>hostapd_conf := conf\<rparr>)))"

definition hostapd_stop :: "pi \<Rightarrow> pi" where
  "hostapd_stop m = m"

section \<open>Lemmas\<close>

definition one_line :: "pystr \<Rightarrow> bool" where
  "one_line s = list_all (\<lambda>c. \<not> line_break c) s"

lemma one_line_simps [simp]:
  "one_line []" "one_line (c # s) \<longleftrightarrow> \<not> line_break c \<and> one_line s"
  "one_line (s @ t) \<longleftrightarrow> one_line s \<and> one_line t"
  by (simp_all add: one_line_def)

lemma one_line_sub: "one_line s \<Longrightarrow> set t \<subseteq> set s \<Longrightarrow> one_line t"
  by (auto simp: one_line_def list_all_iff)

lemma splitlines_Nil [simp]: "splitlines [] = []"
  by (simp add: splitlines.simps)

lemma splitlines_line: "one_line l \<Longrightarrow> splitlines (l @ 10 # s) = l # splitlines s"
proof -
  assume "one_line l"
  then have "takeWhile (\<lambda>c. \<not> line_break c) (l @ 10 # s) = l"
    "dropWhile (\<lambda>c. \<not> line_break c) (l @ 10 # s) = 10 # s"
    by (simp_all add: one_line_def list_all_iff line_break_def)
  then show ?thesis by (subst splitlines.simps) (simp add: drop_break_def)
qed

lemma splitlines_terminated:
  "list_all one_line ls \<Longrightarrow> splitlines (concat (map (\<lambda>l. l @ [10]) ls)) = ls"
  by (induction ls) (simp_all add: splitlines_line)

lemma splitlines_one_line: "list_all one_line (splitlines s)"
proof (induction s rule: splitlines.induct)
  case (1 s)
  have "one_line (takeWhile (\<lambda>c. \<not> line_break c) s)"
    by (auto simp: one_line_def list_all_iff dest: set_takeWhileD)
  with 1 show ?case by (subst splitlines.simps) simp
qed

lemma set_trim: "set (trim P s) \<subseteq> set s"
  by (auto simp: trim_def dest!: set_dropWhileD)

lemma trim_trim [simp]: "trim P (trim P s) = trim P s"
proof (cases "trim P s = []")
  case False
  let ?t = "dropWhile P s"
  have "dropWhile P (rev ?t) \<noteq> []" using False by (simp add: trim_def)
  then have l: "\<not> P (last (trim P s))"
    using hd_dropWhile [of P "rev ?t"] by (simp add: trim_def last_rev)
  have "?t \<noteq> []"
  proof
    assume "?t = []"
    then have "trim P s = []" unfolding trim_def by (simp only: rev.simps dropWhile.simps)
    with False show False by simp
  qed
  then have h: "\<not> P (hd ?t)" using hd_dropWhile by blast
  have "rev (rev ?t) = trim P s @ rev (takeWhile P (rev ?t))"
    by (simp only: trim_def rev_append [symmetric] takeWhile_dropWhile_id)
  then obtain u where "?t = trim P s @ u" by (simp only: rev_rev_ident)
  with False h have "\<not> P (hd (trim P s))" by simp
  with False l show ?thesis by (intro trim_id) simp_all
qed simp

lemma set_partition_at: "partition_at c s = Some (x, y) \<Longrightarrow> set x \<subseteq> set s \<and> set y \<subseteq> set s"
proof -
  have "set (tl xs) \<subseteq> set xs" for xs :: pystr by (cases xs) auto
  then show "partition_at c s = Some (x, y) \<Longrightarrow> ?thesis"
    by (auto simp: partition_at_def split: if_splits dest: set_takeWhileD set_dropWhileD)
qed

text \<open>What the parser collects: stripped values from one line each.\<close>

definition clean :: "(pystr, pystr) dict \<Rightarrow> bool" where
  "clean values = list_all (\<lambda>(k, v). one_line v \<and> strip v = v) values"

lemma parse_line_clean: "parse_line l values = Inr values' \<Longrightarrow> one_line l \<Longrightarrow> clean values \<Longrightarrow> clean values'"
proof -
  assume p: "parse_line l values = Inr values'" and l: "one_line l" and c: "clean values"
  consider "values' = values" | k v where "partition_at 61 (strip l) = Some (k, v)"
    "values' = values @ [(strip k, strip v)]"
    using p by (auto simp: parse_line_def Let_def split: if_splits option.splits)
  then show ?thesis
  proof cases
    case 2
    have "set (strip v) \<subseteq> set l"
      using set_partition_at [OF 2(1)] set_trim [of is_space v] set_trim [of is_space l]
      by (auto simp: strip_def)
    with l have "one_line (strip v)" by (rule one_line_sub)
    with 2 c show ?thesis by (simp add: clean_def strip_def)
  qed (use c in simp)
qed

lemma parse_lines_clean:
  "parse_lines ls values = Inr values' \<Longrightarrow> list_all one_line ls \<Longrightarrow> clean values \<Longrightarrow> clean values'"
  by (induction ls arbitrary: "values") (auto split: sum.splits intro: parse_line_clean)

lemma clean_value: "clean values \<Longrightarrow> map_of values k = Some v \<Longrightarrow> one_line v \<and> strip v = v"
  by (auto simp: clean_def list_all_iff dest!: map_of_SomeD)

lemma parsed_config:
  assumes "parse_deployment_conf text = Inr config"
  shows "check_deployment (ssid config) (passphrase config) = Inr config"
    "one_line (ssid config)" "strip (ssid config) = ssid config"
    "one_line (passphrase config)" "strip (passphrase config) = passphrase config"
proof -
  obtain vs s p where vs: "parse_lines (splitlines text) [] = Inr vs"
    and s: "map_of vs (lit ''ssid'') = Some s" and p: "map_of vs (lit ''passphrase'') = Some p"
    and c: "check_deployment s p = Inr config"
    using assms by (auto simp: parse_deployment_conf_def split: sum.splits option.splits)
  have "config = \<lparr>ssid = s, passphrase = p\<rparr>"
    using c by (auto simp: check_deployment_def split: sum.splits if_splits)
  moreover have "clean vs" using vs splitlines_one_line by (rule parse_lines_clean) (simp add: clean_def)
  ultimately show "check_deployment (ssid config) (passphrase config) = Inr config"
    "one_line (ssid config)" "strip (ssid config) = ssid config"
    "one_line (passphrase config)" "strip (passphrase config) = passphrase config"
    using c clean_value s p by fastforce+
qed

lemma check_deployment_ok:
  "check_deployment s p = Inr config \<longleftrightarrow>
   config = \<lparr>ssid = s, passphrase = p\<rparr> \<and> encodable s \<and> s \<noteq> [] \<and> length (concat (map utf8_char s)) \<le> 32 \<and>
   list_all (\<lambda>c. 32 \<le> c \<and> c \<noteq> 127) s \<and> 8 \<le> length p \<and> length p \<le> 63 \<and> list_all (\<lambda>c. 32 \<le> c \<and> c \<le> 126) p"
proof -
  have "1 \<le> length (concat (map utf8_char s)) \<longleftrightarrow> s \<noteq> []"
    by (cases s) (auto simp: utf8_char_def)
  moreover have "list_ex (\<lambda>c. c < 32 \<or> c = 127) s \<longleftrightarrow> \<not> list_all (\<lambda>c. 32 \<le> c \<and> c \<noteq> 127) s"
    by (induction s) auto
  ultimately show ?thesis
    unfolding check_deployment_def utf8_encode_def by (simp split: if_split) blast
qed

lemma one_line_lit: "list_all (\<lambda>c. (32 :: nat) \<le> of_char c \<and> of_char c < (127 :: nat)) s \<Longrightarrow> one_line (lit s)"
  by (induction s) (auto simp: lit_def line_break_def)

lemma one_line_str_int: "one_line (str_int n)"
proof -
  have "one_line (nat_digits m)" for m
    unfolding one_line_def list_all_iff
  proof
    fix c assume "c \<in> set (nat_digits m)"
    with nat_digits_are_digits [of m] have "is_digit c" by blast
    then show "\<not> line_break c" by (auto simp: is_digit_def line_break_def)
  qed
  then show ?thesis by (simp add: str_int_def) (simp add: line_break_def)
qed

text \<open>A line \<open>key=value\<close> with a known key and a stripped value is taken as it stands.\<close>

lemma trim_ends: "trim P s = s \<Longrightarrow> s \<noteq> [] \<Longrightarrow> \<not> P (last s)"
proof -
  assume t: "trim P s = s" and n: "s \<noteq> []"
  have "dropWhile P (rev (dropWhile P s)) \<noteq> []"
  proof
    assume "dropWhile P (rev (dropWhile P s)) = []"
    then have "trim P s = []" unfolding trim_def by (simp only: rev.simps)
    with t n show False by simp
  qed
  from hd_dropWhile [OF this] have "\<not> P (last (trim P s))" by (simp add: trim_def last_rev)
  with t show ?thesis by simp
qed

lemma partition_at_key: "c \<notin> set k \<Longrightarrow> partition_at c (k @ c # v) = Some (k, v)"
  by (induction k) (auto simp: partition_at_def)

lemma parse_line_key_value:
  assumes "key \<in> set deployment_keys" and "map_of values key = None" and "strip v = v" and "v \<noteq> []"
  shows "parse_line (key @ 61 # v) values = Inr (values @ [(key, v)])"
proof -
  have k: "key \<noteq> []" "\<not> is_space (hd key)" "\<not> is_space (last key)" "61 \<notin> set key" "hd key \<noteq> 35"
    using assms(1) by (auto simp: deployment_keys_def lit_def is_space_def)
  have "strip (key @ 61 # v) = key @ 61 # v"
    using k(1,2) trim_ends [OF assms(3) [unfolded strip_def] assms(4)] assms(4)
    unfolding strip_def by (intro trim_id) simp_all
  moreover have "strip key = key" unfolding strip_def using k by (intro trim_id)
  moreover have "\<not> starts_with (key @ 61 # v) (lit ''#'')"
    using k(1,5) by (cases key) (simp_all add: starts_with_def lit_def)
  ultimately show ?thesis
    using assms k(1,4) by (simp add: parse_line_def partition_at_key)
qed

lemma hostapd_lines_one_line:
  "one_line (ssid config) \<Longrightarrow> one_line (passphrase config) \<Longrightarrow> one_line iface \<Longrightarrow>
   list_all one_line (hostapd_lines config iface channel)"
  by (simp add: hostapd_lines_def one_line_lit one_line_str_int) (simp add: line_break_def)

section \<open>The interface of a provisioner\<close>

text \<open>What \<open>main.py\<close> and the fleet rely on: \<open>start\<close> answers \<open>True\<close> only when the machine is configured
  with the deployment SSID afterwards.\<close>

locale ap_provisioner =
  fixes start :: "wifi_deployment \<Rightarrow> 's \<Rightarrow> bool \<times> 's"
    and configured :: "'s \<Rightarrow> pystr option"
  assumes up_means_configured: "start config m = (True, m') \<Longrightarrow> configured m' = Some (ssid config)"
begin

text \<open>Nodes provisioned from the same file are one network.\<close>

lemma one_network:
  "fst (start config m) \<Longrightarrow> fst (start config n) \<Longrightarrow>
   configured (snd (start config m)) = configured (snd (start config n))"
  using up_means_configured [of config m] up_means_configured [of config n]
  by (cases "start config m"; cases "start config n") auto

end

lemma verify_consistency_iff [simp]: "verify_consistency config have \<longleftrightarrow> have = Some (ssid config)"
  by (auto simp: verify_consistency_def split: option.split)

interpretation hostapd: ap_provisioner hostapd_start "\<lambda>m. hostapd_configured_ssid (hostapd_conf m)"
  by unfold_locales (auto simp: hostapd_start_def split: option.splits prod.splits if_splits)

section \<open>Properties\<close>

text \<open>C37. The deployment file cannot smuggle a directive: whatever text was accepted, the lines of the
  \<open>hostapd.conf\<close> made from it are exactly the lines of the template, with the two values in their
  places, and the SSID read back from it is the deployment's.\<close>

theorem hostapd_conf_exact:
  assumes "parse_deployment_conf text = Inr config" and "render_hostapd_conf config iface channel = Inr conf"
    and "one_line iface"
  shows "splitlines conf = hostapd_lines config iface channel \<and>
    hostapd_configured_ssid (Some conf) = Some (ssid config)"
proof -
  have "conf = concat (map (\<lambda>l. l @ [10]) (hostapd_lines config iface channel))"
    using assms(2) by (simp add: render_hostapd_conf_def split: if_splits)
  then have "splitlines conf = hostapd_lines config iface channel"
    using hostapd_lines_one_line [OF parsed_config(2,4) [OF assms(1)] assms(3)] by (simp add: splitlines_terminated)
  moreover have "find (\<lambda>l. starts_with l (lit ''ssid='')) (hostapd_lines config iface channel) =
      Some (lit ''ssid='' @ ssid config)"
    by (simp add: hostapd_lines_def starts_with_def lit_def)
  ultimately show ?thesis by (simp add: hostapd_configured_ssid_def)
qed

text \<open>What is accepted is a valid WPA2 network, in the form it was written: the SSID has 1 to 32
  bytes and no control character, the passphrase 8 to 63 printable ASCII characters, and a file that
  states these two values parses to them again.\<close>

theorem deployment_roundtrip:
  assumes "parse_deployment_conf text = Inr config"
  shows "ssid config \<noteq> [] \<and> length (concat (map utf8_char (ssid config))) \<le> 32 \<and>
    8 \<le> length (passphrase config) \<and> length (passphrase config) \<le> 63 \<and>
    list_all (\<lambda>c. 32 \<le> c \<and> c \<le> 126) (passphrase config) \<and>
    parse_deployment_conf
      (lit ''ssid='' @ ssid config @ [10] @ lit ''passphrase='' @ passphrase config @ [10]) = Inr config"
proof -
  note p = parsed_config [OF assms]
  note c = p(1) [unfolded check_deployment_ok]
  let ?s = "lit ''ssid'' @ 61 # ssid config" and ?p = "lit ''passphrase'' @ 61 # passphrase config"
  have "one_line ?s" "one_line ?p" using p(2,4) by (simp_all add: one_line_lit) (simp_all add: line_break_def)
  then have "splitlines (?s @ 10 # ?p @ 10 # []) = [?s, ?p]" by (simp only: splitlines_line splitlines_Nil)
  then have "splitlines (lit ''ssid='' @ ssid config @ [10] @ lit ''passphrase='' @ passphrase config @ [10]) = [?s, ?p]"
    by (simp add: lit_def)
  moreover have "parse_line ?s [] = Inr [(lit ''ssid'', ssid config)]"
    "parse_line ?p [(lit ''ssid'', ssid config)] =
      Inr [(lit ''ssid'', ssid config), (lit ''passphrase'', passphrase config)]"
    using c p(3,5) by (subst parse_line_key_value; auto simp: deployment_keys_def)+
  ultimately show ?thesis using c p(1) by (simp add: parse_deployment_conf_def)
qed

definition sample_deployment :: pystr where
  "sample_deployment = lit ''# a'' @ [10, 10] @ lit ''ssid = Mesh'' @ [13, 10] @ lit ''passphrase=s3cret=pass''"

lemma sample_lines:
  "splitlines sample_deployment = map lit [''# a'', [], ''ssid = Mesh'', ''passphrase=s3cret=pass'']"
  by (simp add: sample_deployment_def splitlines_code(2) line_break_def drop_break_def lit_def)

lemma sample_deployment_parses:
  "parse_deployment_conf sample_deployment = Inr \<lparr>ssid = lit ''Mesh'', passphrase = lit ''s3cret=pass''\<rparr>"
proof -
  have "parse_line (lit ''# a'') [] = Inr []" "parse_line (lit []) [] = Inr []"
    "parse_line (lit ''ssid = Mesh'') [] = Inr [(lit ''ssid'', lit ''Mesh'')]"
    "parse_line (lit ''passphrase=s3cret=pass'') [(lit ''ssid'', lit ''Mesh'')] =
      Inr [(lit ''ssid'', lit ''Mesh''), (lit ''passphrase'', lit ''s3cret=pass'')]"
    by (simp_all add: parse_line_def Let_def strip_def trim_def is_space_def starts_with_def partition_at_def
        deployment_keys_def lit_def)
  moreover have "check_deployment (lit ''Mesh'') (lit ''s3cret=pass'') = Inr \<lparr>ssid = lit ''Mesh'', passphrase = lit ''s3cret=pass''\<rparr>"
    by (simp add: check_deployment_ok encodable_def lit_def utf8_char_def is_surrogate_def)
  ultimately show ?thesis by (simp add: parse_deployment_conf_def sample_lines)
qed

theorem hostapd_conf_exact_witness:
  "\<exists>conf. render_hostapd_conf \<lparr>ssid = lit ''Mesh'', passphrase = lit ''s3cret=pass''\<rparr> (lit ''wlan0'') 6 = Inr conf \<and>
     hostapd_configured_ssid (Some conf) = Some (lit ''Mesh'')"
  using hostapd_conf_exact [OF sample_deployment_parses, of "lit ''wlan0''" 6]
  by (simp add: render_hostapd_conf_def one_line_lit)

theorem deployment_roundtrip_witness:
  "parse_deployment_conf (lit ''ssid='' @ lit ''Mesh'' @ [10] @ lit ''passphrase='' @ lit ''s3cret=pass'' @ [10]) =
     Inr \<lparr>ssid = lit ''Mesh'', passphrase = lit ''s3cret=pass''\<rparr>"
  using deployment_roundtrip [OF sample_deployment_parses] by simp

end
