(* ===== verification/HostStats.thy ===== *)
theory HostStats
  imports WifiAp
begin

text \<open>
  What the node reads from its host: the battery (\<open>monitoring/battery.py\<close>), temperature, load,
  memory and disk (\<open>monitoring/system_stats.py\<close>), and the state of the backhaul radio
  (\<open>backhaul/radio_config.py\<close>). A file or command is its text or the exception of reading it.
  Division and rounding of floats are exact up to the parameter \<open>rnd\<close>, \<open>round\<close> of a float to a
  number of places; \<open>word\<close> tells the letters and digits outside ASCII.
\<close>

section \<open>Battery\<close>

record battery =
  percent :: int
  charging :: bool
  source :: pystr

record power_supply =
  sup_name :: pystr
  sup_type :: "exn + pystr"
  sup_capacity :: "exn + pystr"
  sup_status :: "exn + pystr"

definition io_or_value :: "exn \<Rightarrow> bool" where
  "io_or_value e = (e = OSError \<or> is_value_error e)"

text \<open>The first \<open>try\<close>: \<open>None\<close> is the \<open>continue\<close> for a supply that is no battery.\<close>

definition supply_percent :: "power_supply \<Rightarrow> exn + int option" where
  "supply_percent s =
     (case sup_type s of
        Inl e \<Rightarrow> Inl e
      | Inr t \<Rightarrow>
          (if strip t \<noteq> lit ''Battery'' then Inr None
           else (case sup_capacity s of
                   Inl e \<Rightarrow> Inl e
                 | Inr c \<Rightarrow> (case int_of_text (strip c) of Inl e \<Rightarrow> Inl e | Inr n \<Rightarrow> Inr (Some n)))))"

fun scan_supplies :: "power_supply list \<Rightarrow> exn + battery option" where
  "scan_supplies [] = Inr None"
| "scan_supplies (s # rest) =
     (case supply_percent s of
        Inl e \<Rightarrow> if io_or_value e then scan_supplies rest else Inl e
      | Inr None \<Rightarrow> scan_supplies rest
      | Inr (Some n) \<Rightarrow>
          (case (case sup_status s of
                   Inr t \<Rightarrow> Inr (ascii_lower (strip t))
                 | Inl e \<Rightarrow> if e = OSError then Inr (lit ''unknown'') else Inl e) of
             Inl e \<Rightarrow> Inl e
           | Inr status \<Rightarrow>
               Inr (Some \<lparr>percent = n, charging = (status \<noteq> lit ''discharging''),
                          source = lit ''sysfs:'' @ sup_name s\<rparr>)))"

text \<open>The supplies in the order of their paths; \<open>None\<close> when the directory is not there.\<close>

definition parse_sysfs :: "power_supply list option \<Rightarrow> exn + battery option" where
  "parse_sysfs folder = (case folder of None \<Rightarrow> Inr None | Some ss \<Rightarrow> scan_supplies (sort_key sup_name ss))"

text \<open>
  \<open>_PMSET_RE\<close>, one to three digits, \<open>%;\<close>, white space, a run of word characters and blanks, then \<open>;\<close>
  or a line feed. At one position: the digits, longest first, then the white space, longest first;
  the run ends where the first other character stands, as neither terminator is in its class.
\<close>

definition word_char :: "(nat \<Rightarrow> bool) \<Rightarrow> nat \<Rightarrow> bool" where
  "word_char word c =
     (if c < 128 then 48 \<le> c \<and> c \<le> 57 \<or> 65 \<le> c \<and> c \<le> 90 \<or> c = 95 \<or> 97 \<le> c \<and> c \<le> 122 else word c)"

definition pmset_state :: "(nat \<Rightarrow> bool) \<Rightarrow> pystr \<Rightarrow> pystr option" where
  "pmset_state word s =
     (let run = takeWhile (\<lambda>c. word_char word c \<or> c = 32) s; rest = drop (length run) s
      in if run \<noteq> [] \<and> rest \<noteq> [] \<and> (hd rest = 59 \<or> hd rest = 10) then Some run else None)"

fun first_some :: "('a \<Rightarrow> 'b option) \<Rightarrow> 'a list \<Rightarrow> 'b option" where
  "first_some f [] = None"
| "first_some f (x # xs) = (case f x of None \<Rightarrow> first_some f xs | Some y \<Rightarrow> Some y)"

definition pmset_at :: "(nat \<Rightarrow> bool) \<Rightarrow> pystr \<Rightarrow> (pystr \<times> pystr) option" where
  "pmset_at word s =
     first_some (\<lambda>k.
       if length (takeWhile (\<lambda>c. ascii_digit c \<noteq> None) s) < k \<or> \<not> starts_with (drop k s) (lit ''%;'') then None
       else (let r = drop (k + 2) s
             in first_some (\<lambda>n. map_option (\<lambda>st. (take k s, st)) (pmset_state word (drop n r)))
                  (rev [0..<Suc (length (takeWhile is_space r))])))
       [3, 2, 1]"

fun pmset_search :: "(nat \<Rightarrow> bool) \<Rightarrow> pystr \<Rightarrow> (pystr \<times> pystr) option" where
  "pmset_search word [] = None"
| "pmset_search word (c # s) = (case pmset_at word (c # s) of None \<Rightarrow> pmset_search word s | Some m \<Rightarrow> Some m)"

definition parse_pmset :: "(nat \<Rightarrow> bool) \<Rightarrow> pystr \<Rightarrow> exn + battery option" where
  "parse_pmset word out =
     (case pmset_search word out of
        None \<Rightarrow> Inr None
      | Some (digits, state) \<Rightarrow>
          (case int_of_text digits of
             Inl e \<Rightarrow> Inl e
           | Inr n \<Rightarrow> Inr (Some \<lparr>percent = n, charging = (ascii_lower (strip state) \<noteq> lit ''discharging''),
                                source = lit ''pmset''\<rparr>)))"

text \<open>\<open>read_battery\<close>: every exception is logged and gives \<open>None\<close>.\<close>

definition read_battery :: "(nat \<Rightarrow> bool) \<Rightarrow> bool \<Rightarrow> exn + pystr \<Rightarrow> exn + power_supply list option \<Rightarrow> battery option" where
  "read_battery word darwin pmset sysfs =
     (case (if darwin then (case pmset of Inl e \<Rightarrow> Inl e | Inr out \<Rightarrow> parse_pmset word out)
            else (case sysfs of Inl e \<Rightarrow> Inl e | Inr folder \<Rightarrow> parse_sysfs folder)) of
        Inl e \<Rightarrow> None
      | Inr b \<Rightarrow> b)"

section \<open>Host health\<close>

text \<open>\<open>a / b\<close> of two integers, \<open>b\<close> not 0: too large a quotient for a float raises.\<close>

definition int_div :: "int \<Rightarrow> int \<Rightarrow> exn + real" where
  "int_div a b =
     (let q = real_of_int a / real_of_int b
      in if 2 ^ 1024 - 2 ^ 970 \<le> \<bar>q\<bar> then Inl OverflowError else Inr q)"

definition cpu_temp_c :: "(nat \<Rightarrow> real \<Rightarrow> real) \<Rightarrow> exn + pystr \<Rightarrow> exn + real option" where
  "cpu_temp_c rnd file =
     (case (case file of Inl e \<Rightarrow> Inl e | Inr t \<Rightarrow> int_of_text (strip t)) of
        Inl e \<Rightarrow> if io_or_value e then Inr None else Inl e
      | Inr n \<Rightarrow> (case int_div n 1000 of Inl e \<Rightarrow> Inl e | Inr q \<Rightarrow> Inr (Some (rnd 1 q))))"

definition load_avg_1m :: "(nat \<Rightarrow> real \<Rightarrow> real) \<Rightarrow> exn + real \<Rightarrow> exn + real option" where
  "load_avg_1m rnd avg =
     (case avg of Inl e \<Rightarrow> if e = OSError then Inr None else Inl e | Inr x \<Rightarrow> Inr (Some (rnd 2 x)))"

text \<open>One line of \<open>/proc/meminfo\<close>: the key before the first colon and the first word after it.\<close>

definition meminfo_line :: "pystr \<Rightarrow> exn + pystr \<times> int" where
  "meminfo_line line =
     (let (key, rest) = (case partition_at 58 line of None \<Rightarrow> (line, []) | Some p \<Rightarrow> p);
          first = takeWhile (\<lambda>c. \<not> is_space c) (dropWhile is_space rest)
      in if first = [] then Inl IndexError
         else (case int_of_text first of Inl e \<Rightarrow> Inl e | Inr n \<Rightarrow> Inr (key, n)))"

fun meminfo_fields :: "pystr list \<Rightarrow> (pystr, int) dict \<Rightarrow> exn + (pystr, int) dict" where
  "meminfo_fields [] d = Inr d"
| "meminfo_fields (l # ls) d =
     (case meminfo_line l of Inl e \<Rightarrow> Inl e | Inr (k, n) \<Rightarrow> meminfo_fields ls (AList.update k n d))"

definition used_percent :: "(nat \<Rightarrow> real \<Rightarrow> real) \<Rightarrow> int \<Rightarrow> int \<Rightarrow> exn + real option" where
  "used_percent rnd used whole =
     (if whole = 0 then Inr None
      else (case int_div (100 * used) whole of Inl e \<Rightarrow> Inl e | Inr q \<Rightarrow> Inr (Some (rnd 1 q))))"

definition mem_used_percent :: "(nat \<Rightarrow> real \<Rightarrow> real) \<Rightarrow> exn + pystr \<Rightarrow> exn + real option" where
  "mem_used_percent rnd file =
     (case (case file of Inl e \<Rightarrow> Inl e | Inr t \<Rightarrow> meminfo_fields (splitlines t) []) of
        Inl e \<Rightarrow> if io_or_value e \<or> e = IndexError then Inr None else Inl e
      | Inr d \<Rightarrow>
          (case (map_of d (lit ''MemTotal''), map_of d (lit ''MemAvailable'')) of
             (Some whole, Some available) \<Rightarrow> used_percent rnd (whole - available) whole
           | _ \<Rightarrow> Inr None))"

definition disk_used_percent :: "(nat \<Rightarrow> real \<Rightarrow> real) \<Rightarrow> exn + int \<times> int \<Rightarrow> exn + real option" where
  "disk_used_percent rnd usage =
     (case usage of
        Inl e \<Rightarrow> if e = OSError then Inr None else Inl e
      | Inr (used, whole) \<Rightarrow> used_percent rnd used whole)"

record host_files =
  platform_text :: pystr
  thermal :: "exn + pystr"
  loadavg :: "exn + real"
  meminfo :: "exn + pystr"
  disk_usage :: "exn + int \<times> int"

definition opt_float :: "real option \<Rightarrow> json" where
  "opt_float x = (case x of None \<Rightarrow> JNull | Some r \<Rightarrow> JFloat (Fin r))"

definition read_system_stats :: "(nat \<Rightarrow> real \<Rightarrow> real) \<Rightarrow> host_files \<Rightarrow> exn + json" where
  "read_system_stats rnd h =
     (case cpu_temp_c rnd (thermal h) of Inl e \<Rightarrow> Inl e | Inr temp \<Rightarrow>
     (case load_avg_1m rnd (loadavg h) of Inl e \<Rightarrow> Inl e | Inr load \<Rightarrow>
     (case mem_used_percent rnd (meminfo h) of Inl e \<Rightarrow> Inl e | Inr mem \<Rightarrow>
     (case disk_used_percent rnd (disk_usage h) of Inl e \<Rightarrow> Inl e | Inr disk \<Rightarrow>
        Inr (JObj [(lit ''platform'', JStr (platform_text h)), (lit ''cpu_temp_c'', opt_float temp),
          (lit ''load_avg_1m'', opt_float load), (lit ''mem_used_percent'', opt_float mem),
          (lit ''disk_used_percent'', opt_float disk)])))))"

section \<open>The backhaul radio\<close>

definition BACKHAUL_IFACE :: pystr where
  "BACKHAUL_IFACE = lit ''wlan1''"

definition MESH_ID :: pystr where
  "MESH_ID = lit ''meshlink-backhaul''"

definition MESH_FREQ_MHZ :: int where
  "MESH_FREQ_MHZ = 5745"

record radio_status =
  iface :: pystr
  radio_exists :: bool
  is_mesh_mode :: bool
  mesh_id :: "pystr option"
  freq_mhz :: "int option"

definition ready :: "radio_status \<Rightarrow> bool" where
  "ready r = (radio_exists r \<and> is_mesh_mode r \<and> mesh_id r = Some MESH_ID \<and> freq_mhz r = Some MESH_FREQ_MHZ)"

text \<open>\<open>^\s*type (\S[^\n]*)$\<close>: on the first line that reads so after its leading white space.\<close>

definition type_line :: "pystr \<Rightarrow> pystr option" where
  "type_line l =
     (let t = dropWhile is_space l
      in if starts_with t (lit ''type '') \<and> length t > 5 \<and> \<not> is_space (t ! 5) then Some (drop 5 t) else None)"

definition meshid_line :: "pystr \<Rightarrow> pystr option" where
  "meshid_line l =
     (let t = dropWhile is_space l; i = takeWhile (\<lambda>c. \<not> is_space c) (drop 7 t)
      in if starts_with t (lit ''meshid '') \<and> i \<noteq> [] then Some i else None)"

text \<open>\<open>\((\d+)(?:\.\d+)? MHz\)\<close> at one position.\<close>

definition freq_at :: "pystr \<Rightarrow> pystr option" where
  "freq_at s =
     (if s = [] \<or> hd s \<noteq> 40 then None
      else (let ds = takeWhile (\<lambda>c. ascii_digit c \<noteq> None) (tl s);
                r = drop (length ds) (tl s);
                fs = takeWhile (\<lambda>c. ascii_digit c \<noteq> None) (tl r);
                r' = (if r \<noteq> [] \<and> hd r = 46 \<and> fs \<noteq> [] then drop (length fs) (tl r) else r)
            in if ds \<noteq> [] \<and> starts_with r' (lit '' MHz)'') then Some ds else None))"

fun freq_search :: "pystr \<Rightarrow> pystr option" where
  "freq_search [] = None"
| "freq_search (c # s) = (case freq_at (c # s) of None \<Rightarrow> freq_search s | Some m \<Rightarrow> Some m)"

definition parse_iw_info :: "pystr \<Rightarrow> pystr \<Rightarrow> exn + radio_status" where
  "parse_iw_info i out =
     (let lines = split_on 10 out;
          mode = first_some type_line lines
      in case (case freq_search out of
                 None \<Rightarrow> Inr None
               | Some ds \<Rightarrow> (case int_of_text ds of Inl e \<Rightarrow> Inl e | Inr n \<Rightarrow> Inr (Some n))) of
           Inl e \<Rightarrow> Inl e
         | Inr f \<Rightarrow> Inr \<lparr>iface = i, radio_exists = True,
             is_mesh_mode = (case mode of None \<Rightarrow> False | Some m \<Rightarrow> strip m = lit ''mesh point''),
             mesh_id = first_some meshid_line lines, freq_mhz = f\<rparr>)"

text \<open>\<open>iw\<close> is its output, or \<open>None\<close> when it is missing, fails or times out.\<close>

definition find_radio :: "pystr \<Rightarrow> pystr option \<Rightarrow> exn + radio_status" where
  "find_radio i iw =
     (case iw of
        None \<Rightarrow> Inr \<lparr>iface = i, radio_exists = False, is_mesh_mode = False, mesh_id = None, freq_mhz = None\<rparr>
      | Some out \<Rightarrow> parse_iw_info i out)"

definition check_backhaul_radio :: "pystr option \<Rightarrow> exn + bool" where
  "check_backhaul_radio iw =
     (case find_radio BACKHAUL_IFACE iw of Inl e \<Rightarrow> Inl e | Inr r \<Rightarrow> Inr (ready r))"

end
