(* ===== verification/Heartbeat.thy ===== *)
theory Heartbeat
  imports Relay HostStats
begin

text \<open>
  \<open>node/monitoring/heartbeat_sender.py\<close>: the body of a heartbeat and the beat. The clock readings
  and what the host tells (battery, health) are arguments; the backend is the uplink of the proxy.
\<close>

definition HEARTBEAT_VERSION :: int where
  "HEARTBEAT_VERSION = 2"

record heartbeat =
  hb_node_id :: pystr
  hb_zone_id :: int
  hb_zone_name :: pystr
  hb_url :: pystr
  hb_started_at :: "real option"
  hb_stopped :: bool

definition hb_init :: "pystr \<Rightarrow> int \<Rightarrow> pystr \<Rightarrow> pystr \<Rightarrow> heartbeat" where
  "hb_init node_id zone_id zone_name base_url =
     \<lparr>hb_node_id = node_id, hb_zone_id = zone_id, hb_zone_name = zone_name,
      hb_url = rstrip_char 47 base_url @ lit ''/heartbeat'', hb_started_at = None, hb_stopped = False\<rparr>"

definition hb_start :: "real \<Rightarrow> heartbeat \<Rightarrow> heartbeat" where
  "hb_start now s = s\<lparr>hb_started_at := Some now\<rparr>"

definition hb_stop :: "heartbeat \<Rightarrow> heartbeat" where
  "hb_stop s = s\<lparr>hb_stopped := True\<rparr>"

definition battery_json :: "battery option \<Rightarrow> json" where
  "battery_json b =
     (case b of
        None \<Rightarrow> JNull
      | Some x \<Rightarrow> JObj [(lit ''percent'', JInt (percent x)), (lit ''charging'', JBool (charging x)),
                        (lit ''source'', JStr (source x))])"

definition stats_json :: "stats \<Rightarrow> json" where
  "stats_json x =
     JObj [(lit ''received'', JInt (received x)), (lit ''accepted'', JInt (accepted x)),
       (lit ''dropped'', JInt (dropped x)), (lit ''relayed_to_phones'', JInt (relayed_to_phones x)),
       (lit ''forwarded_cross_zone'', JInt (forwarded_cross_zone x)),
       (lit ''broadcast_to_nodes'', JInt (broadcast_to_nodes x)),
       (lit ''attestations_cached'', JInt (attestations_cached x)),
       (lit ''location_terminated'', JInt (location_terminated x))]"

definition or_null :: "('a \<Rightarrow> json) \<Rightarrow> 'a option \<Rightarrow> json" where
  "or_null f x = (case x of None \<Rightarrow> JNull | Some y \<Rightarrow> f y)"

definition report_json :: "aged_report \<Rightarrow> json" where
  "report_json a =
     (let r = ag_report a
      in JObj [(lit ''peer_id'', JStr (ag_peer_id a)), (lit ''lat'', or_null JFloat (rep_lat r)),
           (lit ''lon'', or_null JFloat (rep_lon r)), (lit ''battery'', or_null JInt (rep_battery r)),
           (lit ''charging'', or_null JBool (rep_charging r)), (lit ''age_s'', JInt (age_s a))])"

text \<open>\<open>build_payload\<close>, in the order of its keys: an uptime before \<open>start\<close> raises, and only then are the
  reports read, which prunes them.\<close>

definition build_payload ::
  "pystr \<Rightarrow> real \<Rightarrow> battery option \<Rightarrow> exn + json \<Rightarrow> transport \<Rightarrow> nat \<Rightarrow> stats option \<Rightarrow> heartbeat \<Rightarrow> phone_ping option
   \<Rightarrow> (exn + json) \<times> phone_ping option" where
  "build_payload sent_at now battery system t node_count relay_stats s pp =
     (let peers = transport_list_peers t;
          wifi_peers = filter (\<lambda>p. starts_with p WIFI_PEER_PREFIX) peers
      in case hb_started_at s of
           None \<Rightarrow> (Inl TypeError, pp)
         | Some started \<Rightarrow>
             (let (telemetry, pp') =
                (case pp of
                   None \<Rightarrow> (JNull, None)
                 | Some q \<Rightarrow> (case reports now q of
                     (rs, q') \<Rightarrow> (JObj [(lit ''reports'', JArr (map report_json rs))], Some q')))
              in case system of
                   Inl e \<Rightarrow> (Inl e, pp')
                 | Inr sys \<Rightarrow>
                     (Inr (JObj
                        [(lit ''heartbeat_version'', JInt HEARTBEAT_VERSION),
                         (lit ''node_id'', JStr (hb_node_id s)),
                         (lit ''zone_id'', JInt (hb_zone_id s)),
                         (lit ''zone_name'', JStr (hb_zone_name s)),
                         (lit ''sent_at'', JStr sent_at),
                         (lit ''uptime_s'', JInt (py_trunc (now - started))),
                         (lit ''connected_phone_count'', JInt (length peers)),
                         (lit ''batman_peer_count'', JInt node_count),
                         (lit ''phones'', JObj
                            [(lit ''ble_count'', JInt (int (length peers) - int (length wifi_peers))),
                             (lit ''wifi_count'', JInt (length wifi_peers)),
                             (lit ''peers'', JArr (map JStr peers))]),
                         (lit ''battery'', battery_json battery),
                         (lit ''relay'', or_null stats_json relay_stats),
                         (lit ''phone_telemetry'', telemetry),
                         (lit ''system'', sys)]), pp')))"

text \<open>\<open>beat\<close>: the request, or the exception of building it; whatever the call does is logged.\<close>

definition beat ::
  "(real \<Rightarrow> pystr) \<Rightarrow> pystr \<Rightarrow> real \<Rightarrow> battery option \<Rightarrow> exn + json \<Rightarrow> transport \<Rightarrow> nat \<Rightarrow> stats option \<Rightarrow> heartbeat
   \<Rightarrow> phone_ping option \<Rightarrow> (exn + http_request) \<times> phone_ping option" where
  "beat frepr sent_at now battery system t node_count relay_stats s pp =
     (case build_payload sent_at now battery system t node_count relay_stats s pp of
        (Inl e, pp') \<Rightarrow> (Inl e, pp')
      | (Inr payload, pp') \<Rightarrow>
          (case utf8_encode (dumps_default frepr payload) of
             Inl e \<Rightarrow> (Inl e, pp')
           | Inr data \<Rightarrow>
               (Inr \<lparr>rq_url = hb_url s, rq_data = Some data,
                     rq_headers = [(lit ''Content-Type'', lit ''application/json'')], rq_method = lit ''POST''\<rparr>, pp')))"

section \<open>The schema of \<open>docs/heartbeat-payload.md\<close>\<close>

datatype jtype = TInt | TStr | TBool | TNumber | TNullable jtype | TArray jtype | TObject "(pystr \<times> jtype) list"

text \<open>A number is a JSON number; the float constants have no JSON form. An object has exactly its fields.\<close>

fun has_type :: "json \<Rightarrow> jtype \<Rightarrow> bool" where
  "has_type v (TNullable t) = (v = JNull \<or> has_type v t)"
| "has_type (JInt n) TInt = True"
| "has_type (JInt n) TNumber = True"
| "has_type (JFloat (Fin x)) TNumber = True"
| "has_type (JStr s) TStr = True"
| "has_type (JBool b) TBool = True"
| "has_type (JArr vs) (TArray t) = (\<forall>v\<in>set vs. has_type v t)"
| "has_type (JObj d) (TObject fs) =
     (map fst d = map fst fs \<and> list_all2 (\<lambda>kv f. has_type (snd kv) (snd f)) d fs)"
| "has_type _ _ = False"

definition report_type :: jtype where
  "report_type = TObject [(lit ''peer_id'', TStr), (lit ''lat'', TNullable TNumber), (lit ''lon'', TNullable TNumber),
     (lit ''battery'', TNullable TInt), (lit ''charging'', TNullable TBool), (lit ''age_s'', TInt)]"

definition system_type :: jtype where
  "system_type = TObject [(lit ''platform'', TStr), (lit ''cpu_temp_c'', TNullable TNumber),
     (lit ''load_avg_1m'', TNullable TNumber), (lit ''mem_used_percent'', TNullable TNumber),
     (lit ''disk_used_percent'', TNullable TNumber)]"

definition heartbeat_type :: jtype where
  "heartbeat_type = TObject
     [(lit ''heartbeat_version'', TInt), (lit ''node_id'', TStr), (lit ''zone_id'', TInt), (lit ''zone_name'', TStr),
      (lit ''sent_at'', TStr), (lit ''uptime_s'', TInt), (lit ''connected_phone_count'', TInt),
      (lit ''batman_peer_count'', TInt),
      (lit ''phones'', TObject [(lit ''ble_count'', TInt), (lit ''wifi_count'', TInt), (lit ''peers'', TArray TStr)]),
      (lit ''battery'', TNullable (TObject [(lit ''percent'', TInt), (lit ''charging'', TBool), (lit ''source'', TStr)])),
      (lit ''relay'', TNullable (TObject (map (\<lambda>k. (lit k, TInt)) [''received'', ''accepted'', ''dropped'',
         ''relayed_to_phones'', ''forwarded_cross_zone'', ''broadcast_to_nodes'', ''attestations_cached'',
         ''location_terminated'']))),
      (lit ''phone_telemetry'', TNullable (TObject [(lit ''reports'', TArray report_type)])),
      (lit ''system'', system_type)]"

section \<open>Lemmas\<close>

lemma battery_json_type:
  "has_type (battery_json b) (TNullable (TObject [(lit ''percent'', TInt), (lit ''charging'', TBool), (lit ''source'', TStr)]))"
  by (cases b) (simp_all add: battery_json_def)

lemma read_system_stats_type: "read_system_stats rnd h = Inr v \<Longrightarrow> has_type v system_type"
  by (auto simp: read_system_stats_def system_type_def opt_float_def split: sum.splits option.splits)

definition finite_position :: "report \<Rightarrow> bool" where
  "finite_position r = (\<forall>x. rep_lat r = Some x \<or> rep_lon r = Some x \<longrightarrow> (\<exists>y. x = Fin y))"

lemma report_json_type: "finite_position (ag_report a) \<Longrightarrow> has_type (report_json a) report_type"
  by (auto simp: report_json_def report_type_def or_null_def finite_position_def Let_def split: option.splits)


lemma reports_subset: "a \<in> set (fst (reports now q)) \<Longrightarrow> ag_report a \<in> snd ` set (pp_reports q)"
  by (force simp: reports_def Let_def fold_delete_filter)

definition reports_finite :: "phone_ping option \<Rightarrow> bool" where
  "reports_finite pp = (case pp of None \<Rightarrow> True | Some q \<Rightarrow> list_all (\<lambda>(p, r). finite_position r) (pp_reports q))"

section \<open>Properties\<close>


definition sample_host :: host_files where
  "sample_host = \<lparr>platform_text = lit ''Linux'', thermal = Inl OSError, loadavg = Inl OSError, meminfo = Inr [],
     disk_usage = Inl OSError\<rparr>"

definition sample_heartbeat :: heartbeat where
  "sample_heartbeat = hb_start 0 (hb_init (lit ''node'') 1 (lit ''Zone 1'') (lit ''http://10.77.0.254:8000''))"

definition sample_transport :: transport where
  "sample_transport = Multi (ble_init (gatt_init\<lparr>connected_peers := {[9]}\<rparr>)) ((wifi_init 7800)\<lparr>conns := [(lit ''wifi:a:1'', 3)]\<rparr>)"

lemma sample_system: "\<exists>sys. read_system_stats (\<lambda>_ x. x) sample_host = Inr sys"
  by (simp add: read_system_stats_def sample_host_def cpu_temp_c_def io_or_value_def load_avg_1m_def
      mem_used_percent_def disk_used_percent_def)

lemma sample_payload:
  "\<exists>v. build_payload [] 5 (read_battery (\<lambda>_. False) False (Inl OSError) (Inr None))
     (read_system_stats (\<lambda>_ x. x) sample_host) sample_transport 2 None sample_heartbeat None = (Inr v, None)"
  using sample_system by (auto simp: build_payload_def Let_def sample_heartbeat_def hb_start_def hb_init_def)



lemma sample_payload_ok:
  "\<exists>v. build_payload [] 5 None (read_system_stats (\<lambda>_ x. x) sample_host) sample_transport 2 None
     sample_heartbeat None = (Inr v, None) \<and> json_ok (\<lambda>_. []) v"
  by (simp add: build_payload_def Let_def sample_heartbeat_def hb_start_def hb_init_def HEARTBEAT_VERSION_def
      read_system_stats_def sample_host_def cpu_temp_c_def io_or_value_def load_avg_1m_def mem_used_percent_def
      disk_used_percent_def opt_float_def battery_json_def or_null_def sample_transport_def ble_list_peers_def
      ble_init_def gatt_peers_def wifi_list_peers_def encodable_lit INT_MAX_STR_DIGITS_def py_trunc_def
      starts_with_def WIFI_PEER_PREFIX_def lit_def encodable_def is_surrogate_def nat_digits.simps)


end
