(* ===== verification/Config.thy ===== *)
theory Config
  imports ZoneSync WifiAp
begin

text \<open>
  \<open>node/config.py\<close>: the settings the node reads from its environment and from \<open>node_info.json\<close>. The
  module runs top to bottom when it is imported, so \<open>load_settings\<close> is that sequence, and the first
  exception is the one the import raises. File locations are not modelled.
\<close>

section \<open>\<open>float()\<close> of a text\<close>

definition digits_or_none :: "pystr \<Rightarrow> pystr option" where
  "digits_or_none s = (if s = [] then Some [] else digit_run s)"

definition float_exponent :: "pystr \<Rightarrow> int option" where
  "float_exponent s =
     (let neg = (s \<noteq> [] \<and> hd s = 45);
          body = (if s \<noteq> [] \<and> (hd s = 45 \<or> hd s = 43) then tl s else s)
      in map_option (\<lambda>ds. if neg then - int (digits_val ds) else int (digits_val ds)) (digit_run body))"

definition float_body :: "bool \<Rightarrow> pystr \<Rightarrow> pyfloat option" where
  "float_body neg body =
     (let mant = takeWhile (\<lambda>c. c \<noteq> 101 \<and> c \<noteq> 69) body;
          rest = drop (length mant) body;
          (ip, fp) = (case partition_at 46 mant of None \<Rightarrow> (mant, []) | Some p \<Rightarrow> p)
      in if ip = [] \<and> fp = [] then None
         else (case (digits_or_none ip, digits_or_none fp, if rest = [] then Some 0 else float_exponent (tl rest)) of
                 (Some i, Some f, Some e) \<Rightarrow> Some (float_of neg i f e)
               | _ \<Rightarrow> None))"

definition float_of_text :: "pystr \<Rightarrow> exn + pyfloat" where
  "float_of_text s =
     (let t = trim int_space s;
          neg = (t \<noteq> [] \<and> hd t = 45);
          body = (if t \<noteq> [] \<and> (hd t = 45 \<or> hd t = 43) then tl t else t)
      in if ascii_lower body \<in> {lit ''inf'', lit ''infinity''} then Inr (if neg then NInf else PInf)
         else if ascii_lower body = lit ''nan'' then Inr NaN
         else (case float_body neg body of None \<Rightarrow> Inl ValueError | Some x \<Rightarrow> Inr x))"

section \<open>Addresses and the zone table\<close>

text \<open>The host of \<open>host:port\<close> is not stripped again; without a colon the text itself is the address.\<close>

definition parse_addr :: "pystr \<Rightarrow> exn + addr" where
  "parse_addr text =
     (let t = strip text
      in case rpartition_at 58 t of
           None \<Rightarrow> Inr (host_addr t)
         | Some (host, p) \<Rightarrow> (case int_of_text p of Inl e \<Rightarrow> Inl e | Inr n \<Rightarrow> Inr (pair_addr host n)))"

fun zone_entries :: "pystr list \<Rightarrow> (int, addr) dict \<Rightarrow> exn + (int, addr) dict" where
  "zone_entries [] table = Inr table"
| "zone_entries (raw # rest) table =
     (let entry = strip raw
      in if entry = [] then zone_entries rest table
         else (let (zone, a) = (case partition_at 61 entry of None \<Rightarrow> (entry, []) | Some p \<Rightarrow> p)
               in case parse_addr a of
                    Inl e \<Rightarrow> Inl e
                  | Inr d \<Rightarrow> (case int_of_text zone of
                      Inl e \<Rightarrow> Inl e
                    | Inr z \<Rightarrow> zone_entries rest (AList.update z d table))))"

definition parse_zone_table :: "pystr \<Rightarrow> exn + (int, addr) dict" where
  "parse_zone_table text = zone_entries (split_on 44 text) []"

section \<open>The settings\<close>

definition and_then :: "exn + 'a \<Rightarrow> ('a \<Rightarrow> exn + 'b) \<Rightarrow> exn + 'b" where
  "and_then r f = (case r of Inl e \<Rightarrow> Inl e | Inr x \<Rightarrow> f x)"

type_synonym environ = "(pystr, pystr) dict"

definition env_get :: "environ \<Rightarrow> string \<Rightarrow> pystr \<Rightarrow> pystr" where
  "env_get env k d = (case map_of env (lit k) of None \<Rightarrow> d | Some v \<Rightarrow> v)"

text \<open>A variable that is unset or empty counts as absent where the code tests its truth.\<close>

definition env_set :: "environ \<Rightarrow> string \<Rightarrow> pystr option" where
  "env_set env k = (case map_of env (lit k) of Some (c # v) \<Rightarrow> Some (c # v) | _ \<Rightarrow> None)"

record settings =
  NODE_ZONE_ID :: int
  NODE_ZONE_NAME :: pystr
  BACKHAUL_UDP_PORT :: int
  BACKHAUL_ZONE_TABLE :: "(int, addr) dict option"
  BACKHAUL_BROADCAST_ADDR :: addr
  BACKHAUL_ADVERTISE_ADDR :: addr
  ZONE_ENTRY_TTL_S :: pyfloat
  BACKEND_CHANNEL :: pystr
  BACKEND_URL :: pystr
  EVENT_ID :: pystr
  ORGANISER_PUBKEY :: "pystr option"
  ORGANISER_KEY_CACHE :: pystr
  NODE_ID :: pystr
  HEARTBEAT_INTERVAL_S :: pyfloat
  NODE_IDENTITY_PATH :: pystr
  DIRECTORY_CACHE :: pystr
  LOCATION_QUERY_MIN_INTERVAL_S :: pyfloat
  PHONE_PING_INTERVAL_S :: pyfloat
  PHONE_PING_CONNECT_DELAY_S :: pyfloat
  NODE_INFO_PATH :: pystr
  NODE_NAME :: json
  NODE_LAT :: json
  NODE_LON :: json
  WIFI_LISTEN :: pystr
  WIFI_AP_PROVISION :: pystr

definition backend_channel :: "environ \<Rightarrow> bool \<Rightarrow> pystr" where
  "backend_channel env darwin =
     (let ch = ascii_lower (env_get env ''MESHLINK_BACKEND_CHANNEL'' (lit ''auto''))
      in if ch = lit ''auto'' then (if darwin then lit ''wifi_lan'' else lit ''batman'') else ch)"

definition backend_url :: "environ \<Rightarrow> bool \<Rightarrow> pystr" where
  "backend_url env darwin =
     (if backend_channel env darwin = lit ''batman''
      then env_get env ''MESHLINK_BACKEND_BATMAN_URL'' (lit ''http://10.77.0.254:8000'')
      else env_get env ''MESHLINK_BACKEND_URL'' (lit ''http://127.0.0.1:8000''))"

text \<open>\<open>_load_node_info\<close>: a missing file is created with placeholders and read back. \<open>Inl\<close> is an error
  of the file system or of decoding.\<close>

definition default_node_info :: json where
  "default_node_info = JObj [(lit ''node_name'', JStr (lit ''MeshLink Node'')), (lit ''lat'', JNull), (lit ''lon'', JNull)]"

definition load_node_info :: "(exn + pystr) option \<Rightarrow> exn + json" where
  "load_node_info file =
     (case file of
        None \<Rightarrow> Inr default_node_info
      | Some (Inl e) \<Rightarrow> Inl e
      | Some (Inr text) \<Rightarrow> (case loads text of None \<Rightarrow> Inl ValueError | Some v \<Rightarrow> Inr v))"

definition node_info_fields :: "json \<Rightarrow> exn + json \<times> json \<times> json" where
  "node_info_fields info =
     (case info of
        JObj d \<Rightarrow>
          (let name = dict_get d (lit ''node_name'')
           in Inr (if truthy name then name else JStr (lit ''MeshLink Node''),
                   dict_get d (lit ''lat''), dict_get d (lit ''lon'')))
      | _ \<Rightarrow> Inl AttributeError)"

text \<open>\<open>home\<close> is the directory of the repository, \<open>info_file\<close> the content of the file at \<open>NODE_INFO_PATH\<close>.\<close>

definition load_settings ::
  "environ \<Rightarrow> bool \<Rightarrow> pystr \<Rightarrow> pystr \<Rightarrow> (exn + pystr) option \<Rightarrow> exn + settings" where
  "load_settings env darwin hostname home info_file =
     and_then (int_of_text (env_get env ''MESHLINK_ZONE_ID'' (lit ''1''))) (\<lambda>zone.
     and_then (int_of_text (env_get env ''MESHLINK_BACKHAUL_PORT'' (lit ''19788''))) (\<lambda>udp.
     and_then (case env_set env ''MESHLINK_ZONE_TABLE'' of
                 None \<Rightarrow> Inr None | Some t \<Rightarrow> and_then (parse_zone_table t) (\<lambda>d. Inr (Some d))) (\<lambda>table.
     and_then (case env_set env ''MESHLINK_BACKHAUL_BROADCAST_ADDR'' of
                 None \<Rightarrow> Inr (host_addr (lit ''10.77.0.255'')) | Some t \<Rightarrow> parse_addr t) (\<lambda>bcast.
     and_then (case env_set env ''MESHLINK_BACKHAUL_ADVERTISE_ADDR'' of
                 None \<Rightarrow> Inr (host_addr (lit ''10.77.0.'' @ str_int zone)) | Some t \<Rightarrow> parse_addr t) (\<lambda>adv.
     and_then (float_of_text (env_get env ''MESHLINK_ZONE_ENTRY_TTL_S'' (lit ''180''))) (\<lambda>ttl.
     and_then (float_of_text (env_get env ''MESHLINK_HEARTBEAT_INTERVAL_S'' (lit ''60''))) (\<lambda>beat.
     and_then (float_of_text (env_get env ''MESHLINK_LOCATION_QUERY_MIN_INTERVAL_S'' (lit ''60''))) (\<lambda>qmin.
     and_then (float_of_text (env_get env ''MESHLINK_PHONE_PING_INTERVAL_S'' (lit ''90''))) (\<lambda>ping.
     and_then (float_of_text (env_get env ''MESHLINK_PHONE_PING_CONNECT_DELAY_S'' (lit ''3''))) (\<lambda>delay.
     and_then (load_node_info info_file) (\<lambda>info.
     and_then (node_info_fields info) (\<lambda>(name, lat, lon).
     Inr \<lparr>NODE_ZONE_ID = zone,
          NODE_ZONE_NAME = env_get env ''MESHLINK_ZONE_NAME'' (lit ''Zone '' @ str_int zone),
          BACKHAUL_UDP_PORT = udp, BACKHAUL_ZONE_TABLE = table, BACKHAUL_BROADCAST_ADDR = bcast,
          BACKHAUL_ADVERTISE_ADDR = adv, ZONE_ENTRY_TTL_S = ttl,
          BACKEND_CHANNEL = backend_channel env darwin, BACKEND_URL = backend_url env darwin,
          EVENT_ID = env_get env ''MESHLINK_EVENT_ID'' (lit ''test-event-001''),
          ORGANISER_PUBKEY = map_of env (lit ''MESHLINK_ORGANISER_PUBKEY''),
          ORGANISER_KEY_CACHE = env_get env ''MESHLINK_ORGANISER_KEY_CACHE'' (home @ lit ''/organiser_pubkey.hex''),
          NODE_ID = env_get env ''MESHLINK_NODE_ID'' hostname, HEARTBEAT_INTERVAL_S = beat,
          NODE_IDENTITY_PATH = env_get env ''MESHLINK_NODE_IDENTITY'' (home @ lit ''/node_identity.json''),
          DIRECTORY_CACHE = env_get env ''MESHLINK_DIRECTORY_CACHE'' (home @ lit ''/directory_cache.json''),
          LOCATION_QUERY_MIN_INTERVAL_S = qmin, PHONE_PING_INTERVAL_S = ping,
          PHONE_PING_CONNECT_DELAY_S = delay,
          NODE_INFO_PATH = env_get env ''MESHLINK_NODE_INFO'' (home @ lit ''/node_info.json''), NODE_NAME = name, NODE_LAT = lat, NODE_LON = lon,
          WIFI_LISTEN = env_get env ''MESHLINK_WIFI_LISTEN'' (lit ''10.78.0.1:7800''),
          WIFI_AP_PROVISION = ascii_lower (env_get env ''MESHLINK_AP_PROVISION'' (lit ''auto''))\<rparr>))))))))))))"

section \<open>Lemmas\<close>

lemma split_on_plain: "c \<notin> set s \<Longrightarrow> split_on c s = [s]"
  by (induction s) auto

lemma split_on_field: "c \<notin> set s \<Longrightarrow> split_on c (s @ c # r) = s # split_on c r"
  by (induction s) auto

lemma split_on_join: "fs \<noteq> [] \<Longrightarrow> \<forall>f\<in>set fs. c \<notin> set f \<Longrightarrow> split_on c (join [c] fs) = fs"
proof (induction fs)
  case (Cons f fs)
  then show ?case by (cases fs) (simp_all add: split_on_plain split_on_field)
qed simp

lemma str_int_plain: "c \<in> set (str_int n) \<Longrightarrow> c = 45 \<or> is_digit c"
  using nat_digits_are_digits by (auto simp: str_int_def split: if_splits)

lemma str_int_ends: "str_int n \<noteq> []" "\<not> is_space (hd (str_int n))" "\<not> is_space (last (str_int n))"
  using nat_digits_ends digit_not_space by (auto simp: str_int_def is_space_def)

lemma rpartition_at_last: "c \<notin> set v \<Longrightarrow> rpartition_at c (k @ c # v) = Some (k, v)"
  using partition_at_key [of c "rev v" "rev k"] by (simp add: rpartition_at_def)

lemma rpartition_at_none: "c \<notin> set s \<Longrightarrow> rpartition_at c s = None"
  by (simp add: rpartition_at_def partition_at_def)

definition int_prints :: "int \<Rightarrow> bool" where
  "int_prints n = (length (nat_digits (nat \<bar>n\<bar>)) \<le> INT_MAX_STR_DIGITS)"

definition plain_host :: "pystr \<Rightarrow> bool" where
  "plain_host h = (h \<noteq> [] \<and> 44 \<notin> set h \<and> \<not> is_space (hd h) \<and> \<not> is_space (last h))"

text \<open>The text of an address in the variable's format, and the addresses that have one.\<close>

fun addr_text :: "addr \<Rightarrow> pystr option" where
  "addr_text (AValue (JStr h)) = (if plain_host h \<and> 58 \<notin> set h then Some h else None)"
| "addr_text (ATuple [JStr h, JInt p]) = (if plain_host h \<and> int_prints p then Some (h @ 58 # str_int p) else None)"
| "addr_text _ = None"

lemma addr_text_parses:
  "addr_text a = Some t \<Longrightarrow>
   parse_addr t = Inr a \<and> t \<noteq> [] \<and> 44 \<notin> set t \<and> \<not> is_space (last t)"
proof (induction a rule: addr_text.induct)
  case (1 h)
  then show ?case
    by (auto simp: parse_addr_def strip_def plain_host_def trim_id rpartition_at_none split: if_splits)
next
  case (2 h p)
  then have h: "plain_host h" "int_prints p" "t = h @ 58 # str_int p" by (auto split: if_splits)
  have "strip t = t"
    unfolding strip_def h(3) using h(1) str_int_ends [of p]
    by (intro trim_id) (auto simp: plain_host_def)
  moreover have "58 \<notin> set (str_int p)" "44 \<notin> set (str_int p)"
    using str_int_plain [of 58 p] str_int_plain [of 44 p] by (auto simp: is_digit_def)
  ultimately show ?case
    using h str_int_ends [of p]
    by (simp add: parse_addr_def rpartition_at_last int_of_text_str_int int_prints_def plain_host_def)
qed simp_all

definition entry_text :: "int \<times> addr \<Rightarrow> pystr option" where
  "entry_text e =
     (if int_prints (fst e) then map_option (\<lambda>t. str_int (fst e) @ 61 # t) (addr_text (snd e)) else None)"

lemma entry_text_parses:
  assumes "entry_text e = Some t"
  shows "44 \<notin> set t" "zone_entries (t # rest) table = zone_entries rest (AList.update (fst e) (snd e) table)"
proof -
  obtain u where u: "addr_text (snd e) = Some u" "t = str_int (fst e) @ 61 # u" "int_prints (fst e)"
    using assms by (auto simp: entry_text_def split: if_splits)
  note p = addr_text_parses [OF u(1)]
  have z: "61 \<notin> set (str_int (fst e))" "44 \<notin> set (str_int (fst e))"
    using str_int_plain [of 61 "fst e"] str_int_plain [of 44 "fst e"] by (auto simp: is_digit_def)
  have "strip t = t" unfolding strip_def u(2) using str_int_ends [of "fst e"] p by (intro trim_id) simp_all
  then show "44 \<notin> set t" "zone_entries (t # rest) table = zone_entries rest (AList.update (fst e) (snd e) table)"
    using z p u str_int_ends [of "fst e"]
    by (simp_all add: partition_at_key int_of_text_str_int int_prints_def)
qed

section \<open>Properties\<close>

text \<open>The zone table of an operator is read as it was written: for any entries in the documented
  format, in any order and with repeated zones, parsing the variable gives the table in which each
  zone has its last address.\<close>

theorem zone_table_roundtrip:
  assumes "map entry_text es = map Some ts"
  shows "parse_zone_table (join (lit '','') ts) = Inr (dict_of_pairs es)"
proof -
  have entries: "zone_entries ts table = Inr (fold (\<lambda>(k, v). AList.update k v) es table)" for table
    using assms
  proof (induction es arbitrary: ts table)
    case (Cons e es)
    then obtain t ts' where "ts = t # ts'" "entry_text e = Some t" "map entry_text es = map Some ts'" by auto
    with Cons.IH [of ts'] show ?case
      by (simp add: entry_text_parses(2) case_prod_unfold del: zone_entries.simps)
  qed simp
  have "t \<in> set ts \<Longrightarrow> 44 \<notin> set t" for t
  proof -
    assume "t \<in> set ts"
    then have "Some t \<in> entry_text ` set es" using assms by (metis imageI list.set_map)
    then obtain e where "entry_text e = Some t" by (auto dest: sym)
    then show "44 \<notin> set t" by (rule entry_text_parses(1))
  qed
  then have "ts \<noteq> [] \<Longrightarrow> split_on 44 (join (lit '','') ts) = ts"
    using split_on_join [of ts 44] by (simp add: lit_def)
  with entries [of "[]"] show ?thesis
    by (cases "ts = []") (auto simp: parse_zone_table_def dict_of_pairs_def strip_def trim_def)
qed

theorem zone_table_roundtrip_witness:
  "parse_zone_table (join (lit '','') (map lit [''1=192.168.1.10'', ''2=192.168.1.11:19789''])) =
     Inr [(1, host_addr (lit ''192.168.1.10'')), (2, pair_addr (lit ''192.168.1.11'') 19789)]"
proof -
  have "map entry_text [(1, host_addr (lit ''192.168.1.10'')), (2, pair_addr (lit ''192.168.1.11'') 19789)] =
      map Some (map lit [''1=192.168.1.10'', ''2=192.168.1.11:19789''])"
    by (simp add: entry_text_def plain_host_def int_prints_def INT_MAX_STR_DIGITS_def str_int_def is_space_def
        lit_def nat_digits.simps)
  from zone_table_roundtrip [OF this] show ?thesis by (simp add: dict_of_pairs_def)
qed

lemma default_numbers:
  "int_of_text (lit ''1'') = Inr 1" "int_of_text (lit ''19788'') = Inr 19788" "int_of_text (lit ''7800'') = Inr 7800"
  using int_of_text_str_int [of 1] int_of_text_str_int [of 19788] int_of_text_str_int [of 7800]
  by (simp_all add: str_int_def nat_digits.simps INT_MAX_STR_DIGITS_def lit_def)

lemma default_floats:
  "float_of_text (lit ''180'') = Inr (Fin 180)" "float_of_text (lit ''60'') = Inr (Fin 60)"
  "float_of_text (lit ''90'') = Inr (Fin 90)" "float_of_text (lit ''3'') = Inr (Fin 3)"
  by (simp_all add: float_of_text_def float_body_def trim_def int_space_def is_space_def lit_def ascii_lower_def
      Let_def partition_at_def digits_or_none_def ascii_digit_def digit_zeros_def float_of_def digits_val_def)

lemma default_addresses:
  "parse_addr (lit ''10.78.0.1:7800'') = Inr (pair_addr (lit ''10.78.0.1'') 7800)"
  "str_int 1 = lit ''1''"
  using default_numbers(3)
  by (simp_all add: parse_addr_def strip_def trim_def is_space_def rpartition_at_def partition_at_def lit_def
      str_int_def nat_digits.simps)

lemma default_node:
  "load_node_info None = Inr default_node_info"
  "node_info_fields default_node_info = Inr (JStr (lit ''MeshLink Node''), JNull, JNull)"
  by (simp_all add: load_node_info_def default_node_info_def node_info_fields_def dict_get_def)

lemma default_channel: "backend_channel [] darwin = (if darwin then lit ''wifi_lan'' else lit ''batman'')"
  by (simp add: backend_channel_def env_get_def ascii_lower_def lit_def)

text \<open>Without any setting the node is the documented one: zone 1, announcing \<open>10.77.0.1\<close>, with the
  documented intervals, the backend on the mesh unless it runs on macOS, and no operator table.\<close>

theorem default_settings:
  "\<exists>s. load_settings [] darwin hostname home None = Inr s \<and> NODE_ZONE_ID s = 1 \<and> NODE_ZONE_NAME s = lit ''Zone 1'' \<and>
     BACKHAUL_UDP_PORT s = 19788 \<and> BACKHAUL_ZONE_TABLE s = None \<and>
     BACKHAUL_ADVERTISE_ADDR s = host_addr (lit ''10.77.0.1'') \<and>
     BACKHAUL_BROADCAST_ADDR s = host_addr (lit ''10.77.0.255'') \<and> ZONE_ENTRY_TTL_S s = Fin 180 \<and>
     HEARTBEAT_INTERVAL_S s = Fin 60 \<and> PHONE_PING_INTERVAL_S s = Fin 90 \<and>
     BACKEND_URL s = (if darwin then lit ''http://127.0.0.1:8000'' else lit ''http://10.77.0.254:8000'') \<and>
     NODE_ID s = hostname \<and> parse_addr (WIFI_LISTEN s) = Inr (pair_addr (lit ''10.78.0.1'') 7800)"
  by (simp add: load_settings_def and_then_def env_get_def env_set_def default_numbers default_floats
      default_addresses default_node backend_url_def default_channel)
    (simp add: lit_def)

end
