(* ===== verification/InternetSharing.thy ===== *)
theory InternetSharing
  imports WifiAp
begin

text \<open>
  \<open>node/wifi_ap/internet_sharing.py\<close>: the macOS provisioner. The property list is a value of
  \<open>plist\<close>; the file holds one, or bytes \<open>plistlib.load\<close> refuses. Writing and loading a property
  list give back the value, as \<open>plistlib\<close> documents. What the operating system decides (platform,
  user, whether a file operation fails, whether the sharing job runs) is part of the machine.
\<close>

datatype plist = PDict "(pystr, plist) dict" | PArray "plist list" | PStr pystr | PInt int | PBool bool | PData bytes

datatype plist_file = Plist plist | Unreadable

record mac =
  on_darwin :: bool
  is_root :: bool
  copy_fault :: "exn option"
  write_fault :: "exn option"
  job_runs :: bool
  nat_plist :: "plist_file option"
  backup_plist :: "plist_file option"

section \<open>The identity in the property list\<close>

definition build_nat_airport_dict :: "wifi_deployment \<Rightarrow> int \<Rightarrow> exn + plist" where
  "build_nat_airport_dict config channel =
     (if \<not> (1 \<le> channel \<and> channel \<le> 13) then Inl ValueError
      else Inr (PDict [(lit ''40BitWEP'', PInt 0), (lit ''Channel'', PInt channel), (lit ''Enabled'', PInt 1),
        (lit ''NetworkName'', PStr (ssid config)), (lit ''NetworkPassword'', PStr (passphrase config)),
        (lit ''WPADisabled'', PInt 0)]))"

text \<open>\<open>d.get(key)\<close> on a value that is not a dictionary raises \<open>AttributeError\<close>.\<close>

fun plist_get :: "plist \<Rightarrow> pystr \<Rightarrow> exn + plist option" where
  "plist_get (PDict d) k = Inr (map_of d k)"
| "plist_get _ k = Inl AttributeError"

text \<open>\<open>if plist\<close>: empty containers, texts and data, 0 and \<open>False\<close> are false.\<close>

fun plist_true :: "plist \<Rightarrow> bool" where
  "plist_true (PDict d) = (d \<noteq> [])"
| "plist_true (PArray vs) = (vs \<noteq> [])"
| "plist_true (PStr s) = (s \<noteq> [])"
| "plist_true (PInt n) = (n \<noteq> 0)"
| "plist_true (PBool b) = b"
| "plist_true (PData b) = (b \<noteq> [])"

definition sub_dict :: "plist \<Rightarrow> pystr \<Rightarrow> exn + plist" where
  "sub_dict p k = (case plist_get p k of Inl e \<Rightarrow> Inl e | Inr None \<Rightarrow> Inr (PDict []) | Inr (Some v) \<Rightarrow> Inr v)"

definition ssid_from_nat_plist :: "plist \<Rightarrow> exn + plist option" where
  "ssid_from_nat_plist p =
     (if \<not> plist_true p then Inr None
      else (case sub_dict p (lit ''NAT'') of
              Inl e \<Rightarrow> Inl e
            | Inr n \<Rightarrow> (case sub_dict n (lit ''AirPort'') of
                Inl e \<Rightarrow> Inl e
              | Inr airport \<Rightarrow> plist_get airport (lit ''NetworkName''))))"

definition sharing_configured_ssid :: "mac \<Rightarrow> exn + plist option" where
  "sharing_configured_ssid m =
     (case nat_plist m of Some (Plist p) \<Rightarrow> ssid_from_nat_plist p | _ \<Rightarrow> Inr None)"

section \<open>Start and stop\<close>

definition current_plist :: "mac \<Rightarrow> plist" where
  "current_plist m = (case nat_plist m of Some (Plist p) \<Rightarrow> p | _ \<Rightarrow> PDict [])"

text \<open>\<open>nat = plist.setdefault("NAT", {})\<close> and the two assignments into it.\<close>

definition merge_sharing :: "plist \<Rightarrow> plist \<Rightarrow> exn + plist" where
  "merge_sharing airport p =
     (case p of
        PDict d \<Rightarrow>
          (case (case map_of d (lit ''NAT'') of None \<Rightarrow> PDict [] | Some v \<Rightarrow> v) of
             PDict n \<Rightarrow>
               Inr (PDict (AList.update (lit ''NAT'')
                 (PDict (AList.update (lit ''Enabled'') (PInt 1) (AList.update (lit ''AirPort'') airport n))) d))
           | PArray vs \<Rightarrow> Inl TypeError | PStr s \<Rightarrow> Inl TypeError | PInt i \<Rightarrow> Inl TypeError
           | PBool b \<Rightarrow> Inl TypeError | PData b \<Rightarrow> Inl TypeError)
      | _ \<Rightarrow> Inl AttributeError)"

text \<open>\<open>_write_sharing_config\<close>: load, back up once, merge, write beside and replace.\<close>

definition write_sharing_config :: "wifi_deployment \<Rightarrow> int \<Rightarrow> mac \<Rightarrow> exn option \<times> mac" where
  "write_sharing_config config channel m =
     (let p = current_plist m; need = (nat_plist m \<noteq> None \<and> backup_plist m = None)
      in case (if need then copy_fault m else None) of
           Some e \<Rightarrow> (Some e, m)
         | None \<Rightarrow>
             (let m1 = (if need then m\<lparr>backup_plist := nat_plist m\<rparr> else m)
              in case p of
                   PDict d \<Rightarrow>
                     (case build_nat_airport_dict config channel of
                        Inl e \<Rightarrow> (Some e, m1)
                      | Inr airport \<Rightarrow>
                          (case merge_sharing airport p of
                             Inl e \<Rightarrow> (Some e, m1)
                           | Inr p' \<Rightarrow>
                               (case write_fault m of
                                  Some e \<Rightarrow> (Some e, m1)
                                | None \<Rightarrow> (None, m1\<lparr>nat_plist := Some (Plist p')\<rparr>))))
                 | _ \<Rightarrow> (Some AttributeError, m1)))"

definition sharing_verify :: "wifi_deployment \<Rightarrow> mac \<Rightarrow> exn + bool" where
  "sharing_verify config m =
     (case sharing_configured_ssid m of
        Inl e \<Rightarrow> Inl e
      | Inr have \<Rightarrow> Inr (have = Some (PStr (ssid config))))"

text \<open>\<open>_enable_sharing\<close>: the commands it runs, whose failures are ignored, and the answer of the last.\<close>

definition SHARING_JOB :: pystr where
  "SHARING_JOB = lit ''system/com.apple.NetworkSharing''"

definition enable_sharing_commands :: "pystr list list" where
  "enable_sharing_commands =
     [[lit ''launchctl'', lit ''enable'', SHARING_JOB], [lit ''launchctl'', lit ''kickstart'', lit ''-k'', SHARING_JOB],
      [lit ''launchctl'', lit ''print'', SHARING_JOB]]"

definition enable_sharing :: "mac \<Rightarrow> bool" where
  "enable_sharing m = job_runs m"

definition sharing_start :: "int \<Rightarrow> wifi_deployment \<Rightarrow> mac \<Rightarrow> (exn + bool) \<times> mac" where
  "sharing_start channel config m =
     (if \<not> on_darwin m then (Inr False, m)
      else if \<not> is_root m then (Inr False, m)
      else (case write_sharing_config config channel m of
              (Some e, m') \<Rightarrow> (if e = OSError then Inr False else Inl e, m')
            | (None, m') \<Rightarrow> (if \<not> enable_sharing m' then Inr False else sharing_verify config m', m')))"

text \<open>\<open>stop\<close>: the backup, if there is one, is moved over the file; an error is logged.\<close>

definition sharing_stop :: "bool \<Rightarrow> mac \<Rightarrow> mac" where
  "sharing_stop move_fails m =
     (if \<not> on_darwin m \<or> \<not> is_root m then m
      else if backup_plist m = None \<or> move_fails then m
      else m\<lparr>nat_plist := backup_plist m, backup_plist := None\<rparr>)"

section \<open>Lemmas\<close>

text \<open>What the machine had before this node touched it.\<close>

definition original :: "mac \<Rightarrow> plist_file option" where
  "original m = (case backup_plist m of Some b \<Rightarrow> Some b | None \<Rightarrow> nat_plist m)"

lemma write_original:
  "nat_plist m \<noteq> None \<Longrightarrow> original (snd (write_sharing_config config channel m)) = original m"
  by (auto simp: write_sharing_config_def original_def Let_def split: option.splits plist.split sum.split)

lemma write_machine:
  "on_darwin (snd (write_sharing_config config channel m)) = on_darwin m \<and>
   is_root (snd (write_sharing_config config channel m)) = is_root m"
  by (auto simp: write_sharing_config_def Let_def split: option.splits plist.split sum.split)

lemma merge_sharing_ssid:
  "merge_sharing airport p = Inr p' \<Longrightarrow> plist_get airport (lit ''NetworkName'') = Inr (Some v) \<Longrightarrow>
   ssid_from_nat_plist p' = Inr (Some v)"
  by (auto simp: merge_sharing_def ssid_from_nat_plist_def sub_dict_def split: plist.splits option.splits)


lemma sharing_start_machine:
  "on_darwin (snd (sharing_start ch config m)) = on_darwin m \<and> is_root (snd (sharing_start ch config m)) = is_root m"
  using write_machine [of config ch m] by (auto simp: sharing_start_def split: prod.split option.split)

lemma sharing_start_original:
  "nat_plist m \<noteq> None \<Longrightarrow> original (snd (sharing_start ch config m)) = original m"
  using write_original [of m config ch] by (auto simp: sharing_start_def split: prod.splits option.splits)

lemma write_keeps_file: "nat_plist m \<noteq> None \<Longrightarrow> nat_plist (snd (write_sharing_config config channel m)) \<noteq> None"
  by (auto simp: write_sharing_config_def Let_def split: option.splits plist.split sum.split)

lemma sharing_start_keeps_file: "nat_plist m \<noteq> None \<Longrightarrow> nat_plist (snd (sharing_start ch config m)) \<noteq> None"
  using write_keeps_file [of m config ch] by (auto simp: sharing_start_def split: prod.splits option.splits)

lemma restarts_original:
  assumes "nat_plist m \<noteq> None"
  shows "nat_plist (fold (\<lambda>c. snd \<circ> sharing_start ch c) configs m) \<noteq> None \<and>
    original (fold (\<lambda>c. snd \<circ> sharing_start ch c) configs m) = original m \<and>
    on_darwin (fold (\<lambda>c. snd \<circ> sharing_start ch c) configs m) = on_darwin m \<and>
    is_root (fold (\<lambda>c. snd \<circ> sharing_start ch c) configs m) = is_root m"
  using assms
proof (induction configs arbitrary: m)
  case (Cons c configs)
  from Cons.IH [OF sharing_start_keeps_file [OF Cons.prems]] show ?case
    using sharing_start_original [OF Cons.prems] sharing_start_machine by simp
qed simp

definition sharing_ssid :: "mac \<Rightarrow> pystr option" where
  "sharing_ssid m = (case sharing_configured_ssid m of Inr (Some (PStr s)) \<Rightarrow> Some s | _ \<Rightarrow> None)"

definition sharing_up :: "int \<Rightarrow> wifi_deployment \<Rightarrow> mac \<Rightarrow> bool \<times> mac" where
  "sharing_up ch config m = (fst (sharing_start ch config m) = Inr True, snd (sharing_start ch config m))"

lemma sharing_start_up:
  "sharing_start ch config m = (Inr True, m') \<Longrightarrow> sharing_configured_ssid m' = Inr (Some (PStr (ssid config)))"
  by (auto simp: sharing_start_def sharing_verify_def split: if_splits prod.splits option.splits sum.splits)

interpretation sharing: ap_provisioner "sharing_up ch" sharing_ssid
proof unfold_locales
  fix config m m'
  assume "sharing_up ch config m = (True, m')"
  then have "sharing_start ch config m = (Inr True, m')" by (auto simp: sharing_up_def prod_eq_iff)
  from sharing_start_up [OF this] show "sharing_ssid m' = Some (ssid config)" by (simp add: sharing_ssid_def)
qed

section \<open>Properties\<close>

text \<open>The user's sharing setup survives: however often the node is started, also after crashes and
  with other deployment files, one \<open>stop\<close> that can move the backup brings back the property list
  the machine had before the first start, whether or not any start succeeded.\<close>

theorem sharing_restores_plist:
  assumes "nat_plist m = Some f" and "backup_plist m = None" and "on_darwin m" and "is_root m"
  shows "nat_plist (sharing_stop False (fold (\<lambda>c. snd \<circ> sharing_start ch c) configs m)) = Some f"
proof -
  have "nat_plist m \<noteq> None" using assms(1) by simp
  from restarts_original [OF this, of ch configs] assms show ?thesis
    by (auto simp: sharing_stop_def original_def split: option.splits)
qed

definition sample_mac :: mac where
  "sample_mac = \<lparr>on_darwin = True, is_root = True, copy_fault = None, write_fault = None, job_runs = True,
     nat_plist = Some (Plist (PDict [(lit ''NAT'', PDict [(lit ''Enabled'', PInt 0)])])), backup_plist = None\<rparr>"

theorem sharing_restores_plist_witness:
  "nat_plist (sharing_stop False (fold (\<lambda>c. snd \<circ> sharing_start 6 c)
     [\<lparr>ssid = lit ''Mesh'', passphrase = lit ''s3cret=pass''\<rparr>, \<lparr>ssid = lit ''Mesh2'', passphrase = lit ''s3cret=pass''\<rparr>]
     sample_mac)) = nat_plist sample_mac"
  by (subst sharing_restores_plist [of sample_mac _ 6]) (simp_all add: sample_mac_def)

text \<open>When \<open>start\<close> answers \<open>True\<close> the property list names the deployment SSID, and everything else of
  the user's setup is as it was: only \<open>NAT.AirPort\<close> and \<open>NAT.Enabled\<close> have changed.\<close>

theorem sharing_start_merges:
  assumes "sharing_start ch config m = (Inr True, m')" and "nat_plist m = Some (Plist (PDict d))"
  shows "sharing_configured_ssid m' = Inr (Some (PStr (ssid config))) \<and>
    (\<exists>d' n n'. nat_plist m' = Some (Plist (PDict d')) \<and>
       (map_of d (lit ''NAT'') = Some (PDict n) \<or> map_of d (lit ''NAT'') = None \<and> n = []) \<and>
       map_of d' = (map_of d)(lit ''NAT'' \<mapsto> PDict n') \<and> map_of n' (lit ''Enabled'') = Some (PInt 1) \<and>
       (\<forall>k. k \<noteq> lit ''AirPort'' \<and> k \<noteq> lit ''Enabled'' \<longrightarrow> map_of n' k = map_of n k))"
proof -
  obtain airport p' where "merge_sharing airport (PDict d) = Inr p'" "nat_plist m' = Some (Plist p')"
    using assms by (auto simp: sharing_start_def write_sharing_config_def current_plist_def Let_def
        split: if_splits prod.splits option.splits sum.splits)
  then obtain n n' where "p' = PDict (AList.update (lit ''NAT'') (PDict n') d)"
    "map_of d (lit ''NAT'') = Some (PDict n) \<or> map_of d (lit ''NAT'') = None \<and> n = []"
    "n' = AList.update (lit ''Enabled'') (PInt 1) (AList.update (lit ''AirPort'') airport n)"
    by (auto simp: merge_sharing_def split: option.splits plist.splits)
  with \<open>nat_plist m' = Some (Plist p')\<close> sharing_start_up [OF assms(1)] show ?thesis
    by (intro conjI exI [of _ "AList.update (lit ''NAT'') (PDict n') d"] exI [of _ n] exI [of _ n']) simp_all
qed

theorem sharing_start_merges_witness:
  "sharing_ssid (snd (sharing_start 6 \<lparr>ssid = lit ''Mesh'', passphrase = lit ''s3cret=pass''\<rparr> sample_mac)) = Some (lit ''Mesh'')"
proof -
  have "fst (sharing_start 6 \<lparr>ssid = lit ''Mesh'', passphrase = lit ''s3cret=pass''\<rparr> sample_mac) = Inr True"
    by (simp add: sample_mac_def sharing_start_def enable_sharing_def write_sharing_config_def current_plist_def Let_def
        build_nat_airport_dict_def merge_sharing_def sharing_verify_def sharing_configured_ssid_def
        ssid_from_nat_plist_def sub_dict_def)
  then have "sharing_start 6 \<lparr>ssid = lit ''Mesh'', passphrase = lit ''s3cret=pass''\<rparr> sample_mac =
      (Inr True, snd (sharing_start 6 \<lparr>ssid = lit ''Mesh'', passphrase = lit ''s3cret=pass''\<rparr> sample_mac))"
    by (simp add: prod_eq_iff)
  from sharing_start_merges [OF this] show ?thesis
    by (simp add: sharing_ssid_def) (simp add: sample_mac_def)
qed

text \<open>A channel of the 5 GHz band makes \<open>start\<close> raise instead of answering \<open>False\<close>: only
  \<open>OSError\<close> is caught around the writing of the property list.\<close>

theorem sharing_start_raises_on_channel:
  assumes "on_darwin m" and "is_root m" and "copy_fault m = None" and "13 < ch" and "current_plist m = PDict d"
  shows "fst (sharing_start ch config m) = Inl ValueError"
  using assms by (simp add: sharing_start_def write_sharing_config_def build_nat_airport_dict_def Let_def)

text \<open>A machine that had no property list keeps the node's after the stop.\<close>

theorem sharing_stop_leaves_own_plist:
  assumes "backup_plist m = None"
  shows "nat_plist (sharing_stop fails m) = nat_plist m"
  using assms by (simp add: sharing_stop_def)

end
