(* ===== verification/Boot.thy ===== *)
theory Boot
  imports Config InternetSharing
begin

text \<open>
  What happens before the node serves anyone: the organiser key (\<open>attestation/organiser_key.py\<close>),
  the choice of a Bluetooth and of an access-point backend (\<open>ble/__init__.py\<close>,
  \<open>wifi_ap/__init__.py\<close>), and \<open>_provision_ap\<close> of \<open>main.py\<close>.
\<close>

section \<open>The organiser key\<close>

definition organiser_key_url :: "pystr \<Rightarrow> pystr" where
  "organiser_key_url base_url = rstrip_char 47 base_url @ lit ''/attestation/public-key''"

text \<open>Writing the cache: \<open>disk_fault\<close> is an \<open>OSError\<close> of the file system; a text that cannot be encoded
  raises when the file is already truncated. The result is the exception and the file.\<close>

definition write_key_cache :: "exn option \<Rightarrow> pystr \<Rightarrow> pystr option \<Rightarrow> exn option \<times> pystr option" where
  "write_key_cache disk_fault key cache =
     (case disk_fault of
        Some e \<Rightarrow> (Some e, cache)
      | None \<Rightarrow> if \<not> encodable key then (Some UnicodeError, Some []) else (None, Some (key @ [10])))"

text \<open>The body of the \<open>try\<close>: \<open>fetched\<close> is the answer of the backend or the exception of the call.\<close>

definition fetch_key :: "exn + bytes \<Rightarrow> exn option \<Rightarrow> pystr option \<Rightarrow> (exn + pystr) \<times> pystr option" where
  "fetch_key fetched disk_fault cache =
     (case and_then fetched (\<lambda>body. case loads_bytes body of
             None \<Rightarrow> Inl ValueError | Some v \<Rightarrow> subscript v (lit ''public_key'')) of
        Inl e \<Rightarrow> (Inl e, cache)
      | Inr (JStr key) \<Rightarrow>
          (case write_key_cache disk_fault key cache of
             (Some e, cache') \<Rightarrow> (Inl e, cache') | (None, cache') \<Rightarrow> (Inr key, cache'))
      | Inr _ \<Rightarrow> (case disk_fault of Some e \<Rightarrow> (Inl e, cache) | None \<Rightarrow> (Inl TypeError, cache)))"

definition load_organiser_pubkey :: "exn + bytes \<Rightarrow> exn option \<Rightarrow> pystr option \<Rightarrow> (exn + pystr) \<times> pystr option" where
  "load_organiser_pubkey fetched disk_fault cache =
     (case fetch_key fetched disk_fault cache of
        (Inr key, cache') \<Rightarrow> (Inr key, cache')
      | (Inl e, cache') \<Rightarrow>
          (if e \<noteq> OSError then (Inl e, cache')
           else (case cache' of None \<Rightarrow> (Inl RuntimeError, cache') | Some text \<Rightarrow> (Inr (strip text), cache'))))"

text \<open>\<open>main\<close>: the environment's key wins, and the key's bytes go to the attestation cache.\<close>

definition organiser_key :: "settings \<Rightarrow> exn + bytes \<Rightarrow> exn option \<Rightarrow> pystr option \<Rightarrow> (exn + bytes) \<times> pystr option" where
  "organiser_key cfg fetched disk_fault cache =
     (case (case ORGANISER_PUBKEY cfg of
              Some (c # key) \<Rightarrow> (Inr (c # key), cache)
            | _ \<Rightarrow> load_organiser_pubkey fetched disk_fault cache) of
        (Inl e, cache') \<Rightarrow> (Inl e, cache')
      | (Inr key, cache') \<Rightarrow> (case fromhex key of None \<Rightarrow> (Inl ValueError, cache') | Some b \<Rightarrow> (Inr b, cache')))"

section \<open>Backends\<close>

datatype gatt_backend = Bluez | CoreBluetooth

definition create_gatt_server :: "pystr option \<Rightarrow> bool \<Rightarrow> exn + gatt_backend" where
  "create_gatt_server override darwin =
     (let backend = (case override of Some (c # s) \<Rightarrow> c # s
        | _ \<Rightarrow> if darwin then lit ''corebluetooth'' else lit ''bluez'')
      in if backend = lit ''corebluetooth'' then Inr CoreBluetooth
         else if backend = lit ''bluez'' then Inr Bluez
         else Inl ValueError)"

datatype ap_backend = Hostapd | Sharing

definition create_ap_provisioner :: "pystr option \<Rightarrow> bool \<Rightarrow> exn + ap_backend" where
  "create_ap_provisioner override darwin =
     (let backend = (case override of Some (c # s) \<Rightarrow> c # s
        | _ \<Rightarrow> if darwin then lit ''internet_sharing'' else lit ''hostapd'')
      in if backend = lit ''hostapd'' then Inr Hostapd
         else if backend = lit ''internet_sharing'' then Inr Sharing
         else Inl ValueError)"

section \<open>The access point\<close>

record host =
  h_darwin :: bool
  h_pi :: pi
  h_mac :: mac

definition ap_start :: "int \<Rightarrow> ap_backend \<Rightarrow> wifi_deployment \<Rightarrow> host \<Rightarrow> (exn + bool) \<times> host" where
  "ap_start channel b config h =
     (case b of
        Hostapd \<Rightarrow> (case hostapd_start config (h_pi h) of (r, m) \<Rightarrow> (Inr r, h\<lparr>h_pi := m\<rparr>))
      | Sharing \<Rightarrow> (case sharing_start channel config (h_mac h) of (r, m) \<Rightarrow> (r, h\<lparr>h_mac := m\<rparr>)))"

definition ap_stop :: "bool \<Rightarrow> ap_backend \<Rightarrow> host \<Rightarrow> host" where
  "ap_stop move_fails b h =
     (case b of Hostapd \<Rightarrow> h\<lparr>h_pi := hostapd_stop (h_pi h)\<rparr>
      | Sharing \<Rightarrow> h\<lparr>h_mac := sharing_stop move_fails (h_mac h)\<rparr>)"

text \<open>Only reading the deployment file is guarded: any other exception leaves \<open>_provision_ap\<close>.\<close>

definition provision_ap ::
  "pystr \<Rightarrow> pystr option \<Rightarrow> int \<Rightarrow> exn + pystr \<Rightarrow> host \<Rightarrow> (exn + ap_backend option) \<times> host" where
  "provision_ap mode override channel file h =
     (if mode = lit ''off'' then (Inr None, h)
      else if mode = lit ''auto'' \<and> \<not> h_darwin h then (Inr None, h)
      else (case load_deployment_config file of
              Inl e \<Rightarrow> (if is_value_error e then Inr None else Inl e, h)
            | Inr config \<Rightarrow>
                (case create_ap_provisioner override (h_darwin h) of
                   Inl e \<Rightarrow> (Inl e, h)
                 | Inr b \<Rightarrow>
                     (case ap_start channel b config h of
                        (Inl e, h') \<Rightarrow> (Inl e, h') | (Inr up, h') \<Rightarrow> (Inr (Some b), h')))))"

section \<open>Lemmas\<close>

text \<open>The keys the backend hands out: 64 hexadecimal digits.\<close>

definition is_key_text :: "pystr \<Rightarrow> bool" where
  "is_key_text key = (key \<noteq> [] \<and> list_all (\<lambda>c. 33 \<le> c \<and> c < 127) key)"

lemma key_text_strip: "is_key_text key \<Longrightarrow> strip (key @ [10]) = key \<and> encodable key"
proof -
  assume k: "is_key_text key"
  have "\<not> is_space c" if "33 \<le> c" "c < 127" for c using that by (simp add: is_space_def)
  then have n: "c \<in> set key \<Longrightarrow> \<not> is_space c" for c using k by (simp add: is_key_text_def list_all_iff)
  have "key \<noteq> []" using k by (simp add: is_key_text_def)
  then have h: "\<not> is_space (hd key)" "\<not> is_space (last key)" by (simp_all add: n)
  have "is_space 10" by (simp add: is_space_def)
  then have "strip (key @ [10]) = strip key"
    using h \<open>key \<noteq> []\<close> by (cases key) (simp_all add: strip_def trim_def)
  moreover have "strip key = key" unfolding strip_def using \<open>key \<noteq> []\<close> h by (rule trim_id)
  moreover have "encodable key" using k by (auto simp: is_key_text_def encodable_def is_surrogate_def list_all_iff)
  ultimately show ?thesis by simp
qed

text \<open>Whatever way the key came, the cache holds it afterwards.\<close>

lemma loaded_key_cached:
  assumes "load_organiser_pubkey fetched disk_fault cache = (Inr key, cache')" and "is_key_text key"
  obtains u where "cache' = Some u" "strip u = key"
proof -
  consider u where "cache' = Some u" "key = strip u" | "cache' = Some (key @ [10])"
    using assms(1) by (auto simp: load_organiser_pubkey_def fetch_key_def write_key_cache_def
        split: sum.splits json.splits option.splits if_splits prod.splits)
  then show thesis using that key_text_strip [OF assms(2)] by cases auto
qed

section \<open>Properties\<close>

text \<open>The key outlives the backend: once a boot has obtained a key, every later boot on which the
  backend cannot be reached starts with the same key, however many there are, and leaves the cache
  as it is.\<close>

theorem key_survives_offline_boots:
  assumes "load_organiser_pubkey fetched disk_fault cache = (Inr key, cache')" and "is_key_text key"
  shows "((\<lambda>c. snd (load_organiser_pubkey (Inl OSError) f c)) ^^ n) cache' = cache' \<and>
    load_organiser_pubkey (Inl OSError) f cache' = (Inr key, cache')"
proof -
  obtain u where "cache' = Some u" "strip u = key" using assms by (rule loaded_key_cached)
  then have l: "load_organiser_pubkey (Inl OSError) f cache' = (Inr key, cache')"
    by (simp add: load_organiser_pubkey_def fetch_key_def and_then_def)
  then show ?thesis by (induction n) simp_all
qed

definition sample_key_answer :: bytes where
  "sample_key_answer = ascii_bytes (dumps_default (\<lambda>_. []) (JObj [(lit ''public_key'', JStr (lit ''0a1b''))]))"

lemma sample_key_fetched:
  "load_organiser_pubkey (Inr sample_key_answer) None None = (Inr (lit ''0a1b''), Some (lit ''0a1b'' @ [10]))"
proof -
  have "json_ok (\<lambda>_. []) (JObj [(lit ''public_key'', JStr (lit ''0a1b''))])" by (simp add: encodable_lit)
  then have "loads_bytes sample_key_answer = Some (JObj [(lit ''public_key'', JStr (lit ''0a1b''))])"
    unfolding sample_key_answer_def by (simp add: loads_bytes_printable printable_dumps_default loads_dumps_default)
  then show ?thesis
    by (simp add: load_organiser_pubkey_def fetch_key_def and_then_def write_key_cache_def encodable_lit)
qed

theorem key_survives_offline_boots_witness:
  "load_organiser_pubkey (Inl OSError) None (Some (lit ''0a1b'' @ [10])) = (Inr (lit ''0a1b''), Some (lit ''0a1b'' @ [10]))"
  using key_survives_offline_boots [OF sample_key_fetched, of 0 None]
  by (simp add: is_key_text_def) (simp add: lit_def)

text \<open>The guard of \<open>_provision_ap\<close> is too narrow for its promise never to abort the node: with a valid
  deployment file, an unknown backend name or, on macOS as root, a 5 GHz channel raises out of it.\<close>

theorem provisioning_can_abort_boot:
  assumes "mode \<noteq> lit ''off''" and "h_darwin h" and "load_deployment_config file = Inr config"
    and "on_darwin (h_mac h)" and "is_root (h_mac h)" and "copy_fault (h_mac h) = None"
    and "current_plist (h_mac h) = PDict d" and "13 < channel"
  shows "fst (provision_ap mode None channel file h) = Inl ValueError"
proof -
  have "fst (sharing_start channel config (h_mac h)) = Inl ValueError"
    using assms(4,5,6,8,7) by (rule sharing_start_raises_on_channel)
  then show ?thesis
    using assms(1-3) by (cases "sharing_start channel config (h_mac h)")
      (simp add: provision_ap_def create_ap_provisioner_def ap_start_def)
qed

theorem provisioning_can_abort_boot_witness:
  "fst (provision_ap (lit ''on'') None 36 (Inr sample_deployment)
     \<lparr>h_darwin = True, h_pi = \<lparr>script = None, hostapd_conf = None\<rparr>,
       h_mac = \<lparr>on_darwin = True, is_root = True, copy_fault = None, write_fault = None, job_runs = True,
         nat_plist = None, backup_plist = None\<rparr>\<rparr>) = Inl ValueError"
proof -
  have on: "lit ''on'' \<noteq> lit ''off''" by (simp add: lit_def)
  have conf: "load_deployment_config (Inr sample_deployment) = Inr \<lparr>ssid = lit ''Mesh'', passphrase = lit ''s3cret=pass''\<rparr>"
    by (simp add: load_deployment_config_def sample_deployment_parses)
  show ?thesis by (rule provisioning_can_abort_boot [OF on _ conf]) (simp_all add: current_plist_def)
qed

text \<open>Off means off: with the mode \<open>off\<close>, or \<open>auto\<close> on a Raspberry Pi, nothing of the machine is
  touched and the boot goes on; nor is anything touched when the deployment file is missing or
  invalid.\<close>

theorem provisioning_leaves_machine_alone:
  assumes "mode = lit ''off'' \<or> mode = lit ''auto'' \<and> \<not> h_darwin h \<or>
    (\<exists>e. load_deployment_config file = Inl e \<and> is_value_error e)"
  shows "provision_ap mode override channel file h = (Inr None, h)"
  using assms by (auto simp: provision_ap_def)

theorem provisioning_leaves_machine_alone_witness:
  "provision_ap (lit ''auto'') None 6 (Inr [])
     \<lparr>h_darwin = False, h_pi = \<lparr>script = None, hostapd_conf = None\<rparr>,
       h_mac = \<lparr>on_darwin = False, is_root = False, copy_fault = None, write_fault = None, job_runs = False,
         nat_plist = None, backup_plist = None\<rparr>\<rparr> =
   (Inr None, \<lparr>h_darwin = False, h_pi = \<lparr>script = None, hostapd_conf = None\<rparr>,
       h_mac = \<lparr>on_darwin = False, is_root = False, copy_fault = None, write_fault = None, job_runs = False,
         nat_plist = None, backup_plist = None\<rparr>\<rparr>)"
  by (rule provisioning_leaves_machine_alone) simp

text \<open>The cached key does not help against an answer that is not JSON or has no key.\<close>

theorem malformed_answer_ignores_cache:
  assumes "loads_bytes body = None \<or> loads_bytes body = Some (JObj [])"
  shows "fst (load_organiser_pubkey (Inr body) f (Some key)) = Inl (if loads_bytes body = None then ValueError else KeyError)"
  using assms by (auto simp: load_organiser_pubkey_def fetch_key_def and_then_def)

end
