(* ===== verification/Node.thy ===== *)
theory Node
  imports Heartbeat Boot
begin

text \<open>
  The whole node as \<open>main.py\<close> wires it: the relay with its transports, backhaul and services, the
  gossip layer and the heartbeat, and everything that can happen to it as steps of one machine. A
  step is what one thread does between two events of its source; callbacks run inside the step that
  causes them, and what they raise is logged and dropped by the transports and the receive loop.
\<close>

section \<open>State\<close>

text \<open>The loops that an exception of their body ends.\<close>

datatype thread = SyncThread | PingThread | DirectoryThread | HeartbeatThread

record ('p, 'c) node =
  n_relay :: "('p, 'c) relay"
  n_sync :: zone_sync
  n_heartbeat :: heartbeat
  n_dead :: "thread set"

text \<open>What the node is given: meshlink-core's pipeline, cache and limit, the backend behind the uplink,
  and how CPython prints floats and containers.\<close>

record ('p, 'c) machine =
  m_pipeline :: "('p, 'c) pipeline"
  m_new_cache :: "bytes \<Rightarrow> pystr \<Rightarrow> 'c"
  m_max_packet :: nat
  m_uplink :: "http_request \<Rightarrow> http_result"
  m_frepr :: "real \<Rightarrow> pystr"
  m_rp :: "json \<Rightarrow> pystr"

datatype emission = Air radio | Wire datagram | Http http_request

fun emission_of :: "effect \<Rightarrow> emission" where
  "emission_of (OnAir r) = Air r"
| "emission_of (ToNode d) = Wire d"

section \<open>Callbacks\<close>

fun upcall :: "('p, 'c) machine \<Rightarrow> world \<Rightarrow> upcall \<Rightarrow> ('p, 'c) relay \<Rightarrow> emission list \<times> ('p, 'c) relay" where
  "upcall m w (Received peer_id packet) r =
     (case handle_packet (m_pipeline m) w peer_id packet r of ((out, _), r') \<Rightarrow> (map emission_of out, r'))"
| "upcall m w (PeerUp peer_id) r =
     ([], r\<lparr>r_phone_ping := map_option (on_peer_connected (w_mono w) peer_id) (r_phone_ping r)\<rparr>)"

fun upcalls :: "('p, 'c) machine \<Rightarrow> world \<Rightarrow> upcall list \<Rightarrow> ('p, 'c) relay \<Rightarrow> emission list \<times> ('p, 'c) relay" where
  "upcalls m w [] r = ([], r)"
| "upcalls m w (u # us) r =
     (case upcall m w u r of (out, r') \<Rightarrow> (case upcalls m w us r' of (out', r'') \<Rightarrow> (out @ out', r'')))"

section \<open>Events\<close>

text \<open>
  From the Bluetooth stack; from the listening socket and a phone's socket; a datagram on the backhaul
  socket; a turn of each loop; a timer falling due; a worker of the proxy pool taking a job.
\<close>

datatype node_event =
    BleInput gatt_in
  | WifiAccept pystr int nat
  | WifiInput nat "bytes option"
  | NodeInput pystr int bytes
  | AnnounceTurn
  | PingTurn
  | TimersDue
  | WorkerTurn
  | DirectoryTurn "exn + bytes" "exn option"
  | HeartbeatTurn pystr "battery option" "exn + json"

text \<open>The transport moves on first; its callbacks see the new state.\<close>

definition phone_input ::
  "('p, 'c) machine \<Rightarrow> world \<Rightarrow> upcall list \<times> transport \<Rightarrow> ('p, 'c) node \<Rightarrow> emission list \<times> ('p, 'c) node" where
  "phone_input m w ut n =
     (case upcalls m w (fst ut) ((n_relay n)\<lparr>r_transport := snd ut\<rparr>) of (out, r) \<Rightarrow> (out, n\<lparr>n_relay := r\<rparr>))"

fun ble_upcalls :: "nat \<Rightarrow> transport \<Rightarrow> gatt_in \<Rightarrow> upcall list \<times> transport" where
  "ble_upcalls k (BleOnly b) e = (case ble_input k b e of (us, b') \<Rightarrow> (us, BleOnly b'))"
| "ble_upcalls k (Multi b w) e = (case ble_input k b e of (us, b') \<Rightarrow> (us, Multi b' w))"

fun wifi_upcalls :: "(wifi \<Rightarrow> upcall list \<times> wifi) \<Rightarrow> transport \<Rightarrow> upcall list \<times> transport" where
  "wifi_upcalls f (BleOnly b) = ([], BleOnly b)"
| "wifi_upcalls f (Multi b w) = (case f w of (us, w') \<Rightarrow> (us, Multi b w'))"

text \<open>A datagram: what is meant for the relay runs the handler, a control frame the gossip layer.\<close>

fun deliveries :: "('p, 'c) machine \<Rightarrow> world \<Rightarrow> (pystr \<times> bytes) list \<Rightarrow> ('p, 'c) relay \<Rightarrow> emission list \<times> ('p, 'c) relay" where
  "deliveries m w ps r = upcalls m w (map (\<lambda>(p, x). Received p x) ps) r"

definition node_input ::
  "('p, 'c) machine \<Rightarrow> world \<Rightarrow> pystr \<Rightarrow> int \<Rightarrow> bytes \<Rightarrow> ('p, 'c) node \<Rightarrow> emission list \<times> ('p, 'c) node" where
  "node_input m w h p data n =
     (case bh_input (m_rp m) (w_mono w) (n_sync n) (r_backhaul (n_relay n)) h p data of
        (ps, bh) \<Rightarrow> (case deliveries m w ps ((n_relay n)\<lparr>r_backhaul := bh\<rparr>) of
            (out, r) \<Rightarrow> (out, n\<lparr>n_relay := r\<rparr>)))"

text \<open>One turn of a loop; an exception adds the thread to the dead.\<close>

definition mourn :: "thread \<Rightarrow> exn option \<Rightarrow> ('p, 'c) node \<Rightarrow> ('p, 'c) node" where
  "mourn t e n = (case e of None \<Rightarrow> n | Some _ \<Rightarrow> n\<lparr>n_dead := insert t (n_dead n)\<rparr>)"

definition announce_turn :: "('p, 'c) machine \<Rightarrow> world \<Rightarrow> ('p, 'c) node \<Rightarrow> emission list \<times> ('p, 'c) node" where
  "announce_turn m w n =
     (case zone_sync_tick (m_frepr m) (w_mono w) (w_net w) (n_sync n) (r_backhaul (n_relay n)) of
        ((out, e), bh) \<Rightarrow> (map Wire out, mourn SyncThread e (n\<lparr>n_relay := (n_relay n)\<lparr>r_backhaul := bh\<rparr>\<rparr>)))"

definition ping_turn :: "('p, 'c) machine \<Rightarrow> world \<Rightarrow> ('p, 'c) node \<Rightarrow> emission list \<times> ('p, 'c) node" where
  "ping_turn m w n =
     (case r_phone_ping (n_relay n) of
        None \<Rightarrow> ([], n)
      | Some pp \<Rightarrow> (case ping_all (m_frepr m) (w_faults w) (r_transport (n_relay n)) pp of
          (out, e) \<Rightarrow> (map Air out, mourn PingThread e n)))"

definition timers_due :: "('p, 'c) machine \<Rightarrow> world \<Rightarrow> ('p, 'c) node \<Rightarrow> emission list \<times> ('p, 'c) node" where
  "timers_due m w n =
     (case r_phone_ping (n_relay n) of
        None \<Rightarrow> ([], n)
      | Some pp \<Rightarrow> (case fire_timers (m_frepr m) (w_faults w) (r_transport (n_relay n)) (w_mono w) pp of
          (out, pp') \<Rightarrow> (map Air out, n\<lparr>n_relay := (n_relay n)\<lparr>r_phone_ping := Some pp'\<rparr>\<rparr>)))"

definition http_made :: "('p, 'c) machine \<Rightarrow> pystr \<Rightarrow> (pystr \<times> (pystr, json) dict) list \<Rightarrow> emission list" where
  "http_made m base_url jobs =
     (case jobs of
        [] \<Rightarrow> []
      | (_, req) # _ \<Rightarrow>
          (case fst (execute (m_frepr m) (m_rp m) (m_uplink m) base_url req) of None \<Rightarrow> [] | Some rq \<Rightarrow> [Http rq]))"

definition worker_turn :: "('p, 'c) machine \<Rightarrow> world \<Rightarrow> ('p, 'c) node \<Rightarrow> emission list \<times> ('p, 'c) node" where
  "worker_turn m w n =
     (case r_backend_proxy (n_relay n) of
        None \<Rightarrow> ([], n)
      | Some bp \<Rightarrow>
          (case proxy_work (m_frepr m) (m_rp m) (m_uplink m) (w_faults w) (r_transport (n_relay n)) bp of
             (out, bp') \<Rightarrow> (http_made m (bp_base_url bp) (bp_jobs bp) @ map Air out,
                            n\<lparr>n_relay := (n_relay n)\<lparr>r_backend_proxy := Some bp'\<rparr>\<rparr>)))"

text \<open>\<open>urlopen\<close> of a string: a GET with no headers of its own.\<close>

definition url_request :: "pystr \<Rightarrow> http_request" where
  "url_request url = \<lparr>rq_url = url, rq_data = None, rq_headers = [], rq_method = lit ''GET''\<rparr>"

definition directory_turn ::
  "('p, 'c) machine \<Rightarrow> world \<Rightarrow> exn + bytes \<Rightarrow> exn option \<Rightarrow> ('p, 'c) node \<Rightarrow> emission list \<times> ('p, 'c) node" where
  "directory_turn m w fetched disk_fault n =
     (case r_location (n_relay n) of
        None \<Rightarrow> ([], n)
      | Some ls \<Rightarrow>
          (case refresh (pubkey_id (w_core w)) (m_frepr m) disk_fault fetched (ls_directory ls) of
             (r, d) \<Rightarrow> ([Http (url_request (dir_url (ls_directory ls)))], mourn DirectoryThread (case r of Inl e \<Rightarrow> Some e | Inr _ \<Rightarrow> None)
               (n\<lparr>n_relay := (n_relay n)\<lparr>r_location := Some (ls\<lparr>ls_directory := d\<rparr>)\<rparr>\<rparr>))))"

definition heartbeat_turn ::
  "('p, 'c) machine \<Rightarrow> world \<Rightarrow> pystr \<Rightarrow> battery option \<Rightarrow> exn + json \<Rightarrow> ('p, 'c) node \<Rightarrow> emission list \<times> ('p, 'c) node" where
  "heartbeat_turn m w sent_at battery system n =
     (let r = n_relay n
      in case beat (m_frepr m) sent_at (w_mono w) battery system (r_transport r)
             (bh_peer_count (w_mono w) (r_backhaul r)) (Some (r_stats r)) (n_heartbeat n) (r_phone_ping r) of
           (x, pp) \<Rightarrow>
             (case x of Inl _ \<Rightarrow> [] | Inr rq \<Rightarrow> [Http rq],
              mourn HeartbeatThread (case x of Inl e \<Rightarrow> Some e | Inr _ \<Rightarrow> None)
                (n\<lparr>n_relay := r\<lparr>r_phone_ping := pp\<rparr>\<rparr>)))"

fun node_step :: "('p, 'c) machine \<Rightarrow> world \<Rightarrow> node_event \<Rightarrow> ('p, 'c) node \<Rightarrow> emission list \<times> ('p, 'c) node" where
  "node_step m w (BleInput e) n = phone_input m w (ble_upcalls (m_max_packet m) (r_transport (n_relay n)) e) n"
| "node_step m w (WifiAccept h p c) n =
     phone_input m w (wifi_upcalls (\<lambda>x. wifi_accept x h p c) (r_transport (n_relay n))) n"
| "node_step m w (WifiInput c data) n =
     phone_input m w (wifi_upcalls (\<lambda>x. wifi_recv (m_max_packet m) x c data) (r_transport (n_relay n))) n"
| "node_step m w (NodeInput h p data) n = node_input m w h p data n"
| "node_step m w AnnounceTurn n = (if SyncThread \<in> n_dead n then ([], n) else announce_turn m w n)"
| "node_step m w PingTurn n = (if PingThread \<in> n_dead n then ([], n) else ping_turn m w n)"
| "node_step m w TimersDue n = timers_due m w n"
| "node_step m w WorkerTurn n = worker_turn m w n"
| "node_step m w (DirectoryTurn fetched fault) n =
     (if DirectoryThread \<in> n_dead n then ([], n) else directory_turn m w fetched fault n)"
| "node_step m w (HeartbeatTurn sent_at b sys) n =
     (if HeartbeatThread \<in> n_dead n then ([], n) else heartbeat_turn m w sent_at b sys n)"

fun node_run :: "('p, 'c) machine \<Rightarrow> (world \<times> node_event) list \<Rightarrow> ('p, 'c) node \<Rightarrow> emission list \<times> ('p, 'c) node" where
  "node_run m [] n = ([], n)"
| "node_run m ((w, e) # es) n =
     (case node_step m w e n of (out, n') \<Rightarrow> (case node_run m es n' of (out', n'') \<Rightarrow> (out @ out', n'')))"

section \<open>Reachable states\<close>

text \<open>A Bluetooth identifier is an address, never of the form of a WiFi peer id.\<close>

fun gatt_peer :: "gatt_in \<Rightarrow> pystr" where
  "gatt_peer (Chunk p d) = p"
| "gatt_peer (Connect p) = p"
| "gatt_peer (Disconnect p) = p"

fun admissible :: "node_event \<Rightarrow> bool" where
  "admissible (BleInput e) = (\<not> starts_with (gatt_peer e) WIFI_PEER_PREFIX)"
| "admissible _ = True"

inductive reachable :: "('p, 'c) machine \<Rightarrow> ('p, 'c) node \<Rightarrow> ('p, 'c) node \<Rightarrow> bool" for m n where
  here: "reachable m n n"
| turn: "reachable m n n' \<Longrightarrow> admissible e \<Longrightarrow> reachable m n (snd (node_step m w e n'))"

inductive_simps reachable_iff: "reachable m n n'"

lemma reachable_trans: "reachable m n' n'' \<Longrightarrow> reachable m n n' \<Longrightarrow> reachable m n n''"
  by (induction rule: reachable.induct) (auto intro: reachable.turn)

lemma reachable_run: "\<forall>(w, e)\<in>set es. admissible e \<Longrightarrow> reachable m n (snd (node_run m es n))"
proof (induction m es n rule: node_run.induct)
  case (2 m w e es n)
  obtain out n' where s: "node_step m w e n = (out, n')" by fastforce
  have "reachable m n n'" using reachable.turn [OF reachable.here, of e m n w] 2(2) s by auto
  with 2 s show ?case by (auto split: prod.splits dest: reachable_trans)
qed (simp add: reachable.here)

section \<open>What the relay leaves alone\<close>

lemma count_wiring: "same_wiring s t \<Longrightarrow> same_wiring s (count f t)"
  by (simp add: same_wiring_def)

lemma relay_onward_wiring: "same_wiring s (snd (relay_onward w p raw msg fwd s))"
  by (auto simp: relay_onward_def cross_node_def local_cell_def same_wiring_def
      split: prod.splits option.splits sum.splits if_splits)

text \<open>The proxy keeps its backend, and its queue only grows at the end.\<close>

definition queue_grows :: "proxy option \<Rightarrow> proxy option \<Rightarrow> bool" where
  "queue_grows = rel_option (\<lambda>a b. bp_base_url b = bp_base_url a \<and> prefix (bp_jobs a) (bp_jobs b))"

lemma queue_grows_refl [simp]: "queue_grows x x"
  by (cases x) (simp_all add: queue_grows_def)

lemma queue_grows_trans: "queue_grows x y \<Longrightarrow> queue_grows y z \<Longrightarrow> queue_grows x z"
  by (cases x; cases y; cases z) (auto simp: queue_grows_def dest: prefix_order.trans)

lemma queue_grows_base_url: "queue_grows x y \<Longrightarrow> map_option bp_base_url y = map_option bp_base_url x"
  by (cases x; cases y) (simp_all add: queue_grows_def)

lemma queue_grows_jobs:
  assumes "queue_grows (Some bp) y"
  obtains bp' js where "y = Some bp'" "bp_base_url bp' = bp_base_url bp" "bp_jobs bp' = bp_jobs bp @ js"
  using assms by (cases y) (auto simp: queue_grows_def prefix_def)

definition keeps_relay :: "('p, 'c) relay \<Rightarrow> ('p, 'c) relay \<Rightarrow> bool" where
  "keeps_relay s s' = (same_wiring s s' \<and>
     queue_grows (r_backend_proxy s) (r_backend_proxy s') \<and>
     (r_attestation s' = None \<longleftrightarrow> r_attestation s = None) \<and>
     (\<forall>ls'. r_location s' = Some ls' \<longrightarrow> (\<exists>ls. r_location s = Some ls \<and>
        (wf_dict (ls_store ls) \<longrightarrow> wf_dict (ls_store ls')) \<and> ls_directory ls' = ls_directory ls)))"

lemma keeps_relay_refl:
  "same_wiring s s' \<Longrightarrow> r_location s' = r_location s \<Longrightarrow>
   r_attestation s' = r_attestation s \<Longrightarrow> queue_grows (r_backend_proxy s) (r_backend_proxy s') \<Longrightarrow> keeps_relay s s'"
  by (simp add: keeps_relay_def)

lemma keeps_relay_trans: "keeps_relay s t \<Longrightarrow> keeps_relay t u \<Longrightarrow> keeps_relay s u"
  using queue_grows_trans [of "r_backend_proxy s" "r_backend_proxy t" "r_backend_proxy u"]
  by (fastforce simp: keeps_relay_def same_wiring_def)

lemma terminated_keeps:
  "snd (handle_node_terminated c f t now snow p msg ls) = ls' \<Longrightarrow>
   (wf_dict (ls_store ls) \<longrightarrow> wf_dict (ls_store ls')) \<and> ls_directory ls' = ls_directory ls"
  by (auto simp: handle_node_terminated_def ingest_beacon_def store_update_def
      split: if_splits prod.splits option.splits sum.splits)

lemma terminate_here_keeps: "keeps_relay s (snd (terminate_here w p msg s))"
proof (cases "r_location s")
  case (Some ls)
  let ?h = "handle_node_terminated (w_core w) (w_faults w) (r_transport s) (w_now w) (w_snow w) p msg ls"
  have "snd (terminate_here w p msg s) = s\<lparr>r_location := Some (snd ?h)\<rparr>"
    by (simp add: terminate_here_def Some split: prod.split)
  with Some terminated_keeps [OF refl] show ?thesis by (simp add: keeps_relay_def same_wiring_def)
qed (simp add: terminate_here_def keeps_relay_def)

lemma relay_onward_keeps: "keeps_relay s (snd (relay_onward w p raw msg fwd s))"
proof (rule keeps_relay_refl [OF relay_onward_wiring])
  show "r_location (snd (relay_onward w p raw msg fwd s)) = r_location s"
    "r_attestation (snd (relay_onward w p raw msg fwd s)) = r_attestation s"
    "queue_grows (r_backend_proxy s) (r_backend_proxy (snd (relay_onward w p raw msg fwd s)))"
    by (auto simp: relay_onward_def cross_node_def local_cell_def
        split: prod.splits option.splits sum.splits if_splits)
qed

lemma handle_accepted_keeps: "keeps_relay s (snd (handle_accepted w p raw msg fwd s))"
proof -
  let ?t = "snd (terminate_here w p msg s)"
  have "keeps_relay s ?t" by (rule terminate_here_keeps)
  moreover from this have "keeps_relay s (count (location_terminated_update Suc) ?t)"
    by (simp add: keeps_relay_def same_wiring_def)
  moreover from \<open>keeps_relay s ?t\<close> have "keeps_relay s (snd (relay_onward w p raw msg fwd ?t))"
    by (rule keeps_relay_trans) (rule relay_onward_keeps)
  ultimately show ?thesis by (simp add: handle_accepted_snd split: sum.split bool.split)
qed

lemma handle_presentation_keeps:
  "r_attestation s \<noteq> None \<Longrightarrow> keeps_relay s (snd (handle_presentation pl w raw cache s))"
  by (auto simp: handle_presentation_def Let_def keeps_relay_def same_wiring_def
      split: prod.splits outcome.splits option.splits if_splits)

lemma handle_packet_keeps: "keeps_relay s (snd (handle_packet pl w p raw s))"
proof -
  have a: "keeps_relay s (snd (handle_accepted w p raw msg fwd (count g ((count f s)\<lparr>r_pipeline := q\<rparr>))))" for msg fwd f g q
    by (rule keeps_relay_trans [OF keeps_relay_refl handle_accepted_keeps]) (simp_all add: same_wiring_def)
  have b: "r_attestation s \<noteq> None \<Longrightarrow> keeps_relay s (snd (handle_presentation pl w raw cache (count f s)))" for f cache
    by (rule keeps_relay_trans [OF keeps_relay_refl handle_presentation_keeps]) (simp_all add: same_wiring_def)
  have "queue_grows (Some bp) (Some (proxy_handle_frame q fr bp))" for q fr bp
    by (simp add: queue_grows_def proxy_handle_frame_def split: option.split)
  then show ?thesis
    using a b by (auto simp: handle_packet_def Let_def same_wiring_def intro!: keeps_relay_refl
        split: option.splits prod.splits outcome.splits)
qed

lemma upcall_snd:
  "snd (upcall m w (Received p x) r) = snd (handle_packet (m_pipeline m) w p x r)"
  by (simp split: prod.split)

lemma upcalls_snd: "snd (upcalls m w (u # us) r) = snd (upcalls m w us (snd (upcall m w u r)))"
  by (simp split: prod.split)

lemma upcall_keeps: "keeps_relay r (snd (upcall m w u r))"
proof (cases u)
  case (Received p x)
  then show ?thesis by (simp only: upcall_snd handle_packet_keeps)
qed (simp add: keeps_relay_def same_wiring_def)

lemma upcalls_keeps: "keeps_relay r (snd (upcalls m w us r))"
proof (induction us arbitrary: r)
  case (Cons u us)
  show ?case unfolding upcalls_snd by (rule keeps_relay_trans [OF upcall_keeps Cons.IH])
qed (simp add: keeps_relay_def)

lemma upcall_balanced: "balanced (r_stats r) \<Longrightarrow> balanced (r_stats (snd (upcall m w u r)))"
proof (cases u)
  case (Received p x)
  then show "balanced (r_stats r) \<Longrightarrow> ?thesis" by (simp only: upcall_snd handle_packet_balanced)
qed simp

lemma upcalls_balanced: "balanced (r_stats r) \<Longrightarrow> balanced (r_stats (snd (upcalls m w us r)))"
proof (induction us arbitrary: r)
  case (Cons u us)
  from Cons.IH [OF upcall_balanced [OF Cons.prems]] show ?case unfolding upcalls_snd .
qed simp

section \<open>The invariant\<close>

definition node_inv :: "int \<Rightarrow> ('p, 'c) node \<Rightarrow> bool" where
  "node_inv z n =
     (let r = n_relay n
      in transport_inv (r_transport r) \<and> r_zone_id r = z \<and> bh_zone_id (r_backhaul r) = z \<and> balanced (r_stats r) \<and>
         (\<forall>ls. r_location r = Some ls \<longrightarrow> wf_dict (ls_store ls)))"

lemma gatt_step_peers: "connected_peers (snd (gatt_step g e)) \<subseteq> insert (gatt_peer e) (connected_peers g)"
  by (cases e) (auto simp: handle_chunk_state peer_connected_def peer_disconnected_def Let_def)

lemma ble_input_peers:
  "connected_peers (server (snd (ble_input k b e))) \<subseteq> insert (gatt_peer e) (connected_peers (server b))"
  using gatt_step_peers [of "server b" e] by (simp add: ble_input_def case_prod_beta)

lemma ble_upcalls_inv:
  assumes "transport_inv t" and "\<not> starts_with (gatt_peer e) WIFI_PEER_PREFIX"
  shows "transport_inv (snd (ble_upcalls k t e))"
proof (cases t)
  case (BleOnly b)
  then show ?thesis using assms(1) ble_input_inv [of b k e] by (simp add: case_prod_beta)
next
  case (Multi b w)
  then show ?thesis using assms ble_input_inv [of b k e] ble_input_peers [of k b e] by (auto simp: case_prod_beta)
qed

lemma wifi_upcalls_inv:
  "transport_inv t \<Longrightarrow> (\<And>w. wifi_inv w \<Longrightarrow> wifi_inv (snd (f w))) \<Longrightarrow> transport_inv (snd (wifi_upcalls f t))"
  by (cases t) (auto simp: case_prod_beta)

lemma keeps_node_inv:
  "node_inv z n \<Longrightarrow> keeps_relay (n_relay n) r \<Longrightarrow> balanced (r_stats r) \<Longrightarrow> node_inv z (n\<lparr>n_relay := r\<rparr>)"
  by (fastforce simp: node_inv_def keeps_relay_def same_wiring_def Let_def)

text \<open>A step of the transport or the backhaul followed by its callbacks.\<close>

lemma rewired_upcalls_inv:
  assumes "node_inv z n" and "transport_inv t" and "bh_zone_id bh = z"
  shows "node_inv z (n\<lparr>n_relay := snd (upcalls m w us ((n_relay n)\<lparr>r_transport := t, r_backhaul := bh\<rparr>))\<rparr>)"
proof -
  let ?r = "(n_relay n)\<lparr>r_transport := t, r_backhaul := bh\<rparr>"
  have i: "node_inv z (n\<lparr>n_relay := ?r\<rparr>)" using assms by (simp add: node_inv_def Let_def)
  then have "balanced (r_stats ?r)" using assms(1) by (simp add: node_inv_def Let_def)
  from keeps_node_inv [OF i _ upcalls_balanced [OF this]] upcalls_keeps [of ?r m w us] show ?thesis by simp
qed

lemma phone_input_inv:
  assumes "node_inv z n" and "transport_inv (snd ut)"
  shows "node_inv z (snd (phone_input m w ut n))"
proof -
  have "bh_zone_id (r_backhaul (n_relay n)) = z" using assms(1) by (simp add: node_inv_def Let_def)
  from rewired_upcalls_inv [OF assms this, of m w "fst ut"] show ?thesis
    by (simp add: phone_input_def case_prod_beta)
qed

lemma bh_input_zone: "bh_zone_id (snd (bh_input rp now zs bh h p data)) = bh_zone_id bh"
  by (auto simp: bh_input_def bh_control_def split: list.split delivery.split prod.split)

lemma node_input_inv: "node_inv z n \<Longrightarrow> node_inv z (snd (node_input m w h p data n))"
proof -
  assume n: "node_inv z n"
  then have "transport_inv (r_transport (n_relay n))" "bh_zone_id (r_backhaul (n_relay n)) = z"
    by (simp_all add: node_inv_def Let_def)
  from rewired_upcalls_inv [OF n this(1) trans [OF bh_input_zone this(2)]] show ?thesis
    by (simp add: node_input_def case_prod_beta)
qed

lemma mourn_inv [simp]: "node_inv z (mourn t e n) \<longleftrightarrow> node_inv z n"
  by (simp add: mourn_def node_inv_def split: option.split)

lemma turn_inv:
  assumes "node_inv z n"
  shows "node_inv z (snd (announce_turn m w n))" "node_inv z (snd (ping_turn m w n))"
    "node_inv z (snd (timers_due m w n))" "node_inv z (snd (worker_turn m w n))"
    "node_inv z (snd (directory_turn m w fetched fault n))" "node_inv z (snd (heartbeat_turn m w sent b sys n))"
  using assms
  by (auto simp: announce_turn_def zone_sync_tick_def ping_turn_def timers_due_def worker_turn_def directory_turn_def
      heartbeat_turn_def Let_def node_inv_def mourn_def split: prod.splits option.splits sum.splits)

lemma node_step_inv: "node_inv z n \<Longrightarrow> admissible e \<Longrightarrow> node_inv z (snd (node_step m w e n))"
proof -
  assume n: "node_inv z n" and e: "admissible e"
  have t: "transport_inv (r_transport (n_relay n))" using n by (simp add: node_inv_def Let_def)
  show ?thesis
    using e turn_inv [OF n]
    by (cases e) (auto intro!: n phone_input_inv node_input_inv ble_upcalls_inv wifi_upcalls_inv t
        wifi_inv_accept wifi_inv_recv)
qed

lemma reachable_inv: "reachable m n n' \<Longrightarrow> node_inv z n \<Longrightarrow> node_inv z n'"
  by (induction rule: reachable.induct) (simp_all add: node_step_inv)

section \<open>Across nodes\<close>

text \<open>The relay takes \<open>raw\<close> for a mesh message, the pipeline accepts it, and it is not for the node.\<close>

definition relays ::
  "('p, 'c) machine \<Rightarrow> world \<Rightarrow> ('p, 'c) relay \<Rightarrow> bytes \<Rightarrow> message \<Rightarrow> bytes option \<Rightarrow> bool" where
  "relays m w r raw msg fwd =
     (\<not> is_telemetry_frame raw \<and> \<not> is_backend_proxy_frame raw \<and>
      (\<not> is_attestation_presentation (w_core w) raw \<or> r_attestation r = None) \<and>
      fst (process (m_pipeline m) (w_now w) (r_attestation r) (r_pipeline r) raw) = Deliver msg fwd \<and>
      passes_by (w_core w) msg r)"

lemma relays_onward:
  assumes "relays m w r raw msg fwd"
  obtains s where "handle_packet (m_pipeline m) w p raw r = relay_onward w p raw msg fwd s"
    "r_zone_id s = r_zone_id r" "r_backhaul s = r_backhaul r" "r_transport s = r_transport r"
proof -
  obtain q where q: "process (m_pipeline m) (w_now w) (r_attestation r) (r_pipeline r) raw = (Deliver msg fwd, q)"
    using assms by (cases "process (m_pipeline m) (w_now w) (r_attestation r) (r_pipeline r) raw") (simp add: relays_def)
  show thesis
    by (rule that [OF handle_packet_passes [OF _ _ _ q]]) (use assms in \<open>simp_all add: relays_def\<close>)
qed

lemma forward_known:
  assumes "addr_for now z (bh_table bh) = Some (pair_addr h p)" and "z \<noteq> bh_zone_id bh" and "0 \<le> p" and "p \<le> 65535"
  shows "forward_to_zone now quiet_net bh z x = ([Datagram h p x], None)"
  using assms by (simp add: forward_to_zone_def bh_send_def sendto_pair_def quiet_net_def)

lemma relays_forward:
  assumes "relays m w r raw msg fwd" and "w_net w = quiet_net" and "r_zone_id r = bh_zone_id (r_backhaul r)"
    and "msg_zone msg \<noteq> BROADCAST_ZONE" and "msg_zone msg \<noteq> r_zone_id r"
    and "addr_for (w_mono w) (msg_zone msg) (bh_table (r_backhaul r)) = Some (pair_addr h p)" and "0 \<le> p" and "p \<le> 65535"
  shows "Wire (Datagram h p raw) \<in> set (fst (upcall m w (Received peer raw) r))"
proof -
  obtain s where s: "handle_packet (m_pipeline m) w peer raw r = relay_onward w peer raw msg fwd s"
    "r_zone_id s = r_zone_id r" "r_backhaul s = r_backhaul r" using assms(1) by (rule relays_onward)
  have "forward_to_zone (w_mono w) quiet_net (r_backhaul r) (msg_zone msg) raw = ([Datagram h p raw], None)"
    using assms(3,5-8) by (intro forward_known) simp_all
  then have "fst (fst (cross_node w msg raw s)) = [ToNode (Datagram h p raw)] \<and> snd (fst (cross_node w msg raw s)) = None"
    using s(2,3) assms(2,4,5) by (simp add: cross_node_def)
  then have "ToNode (Datagram h p raw) \<in> set (fst (fst (relay_onward w peer raw msg fwd s)))"
    by (simp add: relay_onward_ok)
  then have "emission_of (ToNode (Datagram h p raw)) \<in> emission_of ` set (fst (fst (relay_onward w peer raw msg fwd s)))"
    by (rule imageI)
  then show ?thesis using s(1) by (simp add: case_prod_beta)
qed

text \<open>A message for the node's own zone goes to its phones and nowhere else.\<close>

lemma relays_local:
  assumes "relays m w r raw msg fwd" and "msg_zone msg \<noteq> BROADCAST_ZONE" and "msg_zone msg = r_zone_id r"
    and "relayed_copy raw fwd = Inr copy" and "69 < length copy" and "length copy < 65536" and "copy ! 68 \<noteq> 0"
  shows "fst (upcall m w (Received peer raw) r) =
    map Air (concat (map (\<lambda>q. fst (transport_send (w_faults w) (r_transport r) q copy))
      (filter (\<lambda>q. q \<noteq> peer) (transport_list_peers (r_transport r)))))"
proof -
  obtain s where s: "handle_packet (m_pipeline m) w peer raw r = relay_onward w peer raw msg fwd s"
    "r_zone_id s = r_zone_id r" "r_transport s = r_transport r" using assms(1) by (rule relays_onward)
  have c: "cross_node w msg raw s = (([], None), s)" using assms(2,3) s(2) by (simp add: cross_node_def)
  have l: "fst (local_cell w peer raw fwd s) =
      (map OnAir (concat (map (\<lambda>q. fst (transport_send (w_faults w) (r_transport s) q copy))
        (filter (\<lambda>q. q \<noteq> peer) (transport_list_peers (r_transport s))))), None)"
    by (subst local_cell_fan_out [of raw fwd copy w peer s])
      (use assms(4-7) in \<open>simp_all add: TTL_OFFSET_def SPRAY_OFFSET_def\<close>)
  have "fst (relay_onward w peer raw msg fwd s) = fst (local_cell w peer raw fwd s)"
    using relay_onward_ok [of w msg raw s peer fwd] by (simp add: c)
  then show ?thesis by (simp add: case_prod_beta s l comp_def)
qed

section \<open>Properties\<close>

text \<open>C2. A message crosses zones: when a node accepts a packet for another zone it knows a route to, it
  sends that packet, unchanged, as a datagram to the route; and when the node of that zone receives
  the datagram and its pipeline accepts it, exactly its phones get the copy with one hop less, once
  each, and nothing goes back to the backhaul.\<close>

theorem cross_zone_delivery:
  assumes "node_inv z a" and "node_inv (msg_zone msg) b"
    and "relays m w (n_relay a) raw msg fwd" and "relays m' w' (n_relay b) raw msg fwd'"
    and "w_net w = quiet_net" and "msg_zone msg \<noteq> BROADCAST_ZONE" and "msg_zone msg \<noteq> z"
    and "addr_for (w_mono w) (msg_zone msg) (bh_table (r_backhaul (n_relay a))) = Some (pair_addr h p)"
    and "0 \<le> p" and "p \<le> 65535"
    and "bh_running (r_backhaul (n_relay b))" and "data_cb (r_backhaul (n_relay b))"
    and "pair_addr ha pa \<noteq> endpoint (bh_port (r_backhaul (n_relay b))) (bh_own_addr (r_backhaul (n_relay b)))"
    and "\<not> starts_with raw ZONE_SYNC_MAGIC"
    and "relayed_copy raw fwd' = Inr copy" and "69 < length copy" and "length copy < 65536" and "copy ! 68 \<noteq> 0"
  shows "Wire (Datagram h p raw) \<in> set (fst (upcall m w (Received peer raw) (n_relay a))) \<and>
    fst (node_step m' w' (NodeInput ha pa raw) b) =
      map Air (concat (map (\<lambda>q. fst (transport_send (w_faults w') (r_transport (n_relay b)) q copy))
        (filter (\<lambda>q. q \<noteq> bh_peer_id ha pa) (transport_list_peers (r_transport (n_relay b))))))"
proof
  show "Wire (Datagram h p raw) \<in> set (fst (upcall m w (Received peer raw) (n_relay a)))"
    using assms(1) by (intro relays_forward [OF assms(3,5) _ assms(6) _ assms(8-10)])
      (use assms(7) in \<open>simp_all add: node_inv_def Let_def\<close>)
  let ?r = "n_relay b"
  have z: "r_zone_id ?r = msg_zone msg" "bh_zone_id (r_backhaul ?r) = msg_zone msg"
    using assms(2) by (simp_all add: node_inv_def Let_def)
  have "bh_input (m_rp m') (w_mono w') (n_sync b) (r_backhaul ?r) ha pa raw = ([(bh_peer_id ha pa, raw)], r_backhaul ?r)"
    using assms(11-14) by (simp add: bh_input_def bh_recv_def bh_deliver_def)
  then have "fst (node_step m' w' (NodeInput ha pa raw) b) = fst (upcall m' w' (Received (bh_peer_id ha pa) raw) ?r)"
    by (simp add: node_input_def case_prod_beta)
  also have "\<dots> = map Air (concat (map (\<lambda>q. fst (transport_send (w_faults w') (r_transport ?r) q copy))
        (filter (\<lambda>q. q \<noteq> bh_peer_id ha pa) (transport_list_peers (r_transport ?r)))))"
    using assms(4,6) z(1) [symmetric] assms(15-18) by (rule relays_local)
  finally show "fst (node_step m' w' (NodeInput ha pa raw) b) =
      map Air (concat (map (\<lambda>q. fst (transport_send (w_faults w') (r_transport ?r) q copy))
        (filter (\<lambda>q. q \<noteq> bh_peer_id ha pa) (transport_list_peers (r_transport ?r)))))" .
qed

text \<open>Two nodes of zones 1 and 2 with a route to each other, and one Bluetooth phone each.\<close>

definition sample_machine :: "message \<Rightarrow> (unit, unit) machine" where
  "sample_machine msg = \<lparr>m_pipeline = sample_pipeline msg, m_new_cache = (\<lambda>_ _. ()), m_max_packet = 460,
     m_uplink = (\<lambda>_. NoResponse), m_frepr = (\<lambda>_. []), m_rp = (\<lambda>_. [])\<rparr>"

definition sample_bh_of :: "int \<Rightarrow> backhaul" where
  "sample_bh_of z = bh_start (bh_init z (Some (ztable_init z [(1, pair_addr [49] 1), (2, pair_addr [50] 2)] 180))
     (Some (pair_addr [51] z)) (host_addr [57]) 7)"

definition sample_node :: "int \<Rightarrow> (unit, unit) node" where
  "sample_node z = \<lparr>n_relay = relay_init (sample_pipeline sample_query)
       (BleOnly (ble_init (gatt_init\<lparr>connected_peers := {[1]}\<rparr>))) (sample_bh_of z) z None None None None,
     n_sync = \<lparr>zs_node_id = str_int z, zs_zone_id = z, zs_own_addr = pair_addr [51] z\<rparr>,
     n_heartbeat = sample_heartbeat, n_dead = {}\<rparr>"

lemma sample_node_inv: "node_inv z (sample_node z)"
  by (simp add: node_inv_def sample_node_def relay_init_def sample_bh_of_def bh_start_def bh_init_def bh_on_receive_def
      ble_init_def ble_on_receive_def ble_inv_def gatt_inv_def gatt_init_def balanced_def nodes_reached_def no_traffic_def)

abbreviation zone_two :: message where
  "zone_two \<equiv> sample_query\<lparr>msg_type := 1, msg_zone := 2\<rparr>"

lemma sample_relays: "relays (sample_machine zone_two) sample_world (n_relay (sample_node z)) (replicate 70 2) zone_two None"
proof -
  have "replicate 70 (2 :: byte) = 2 # replicate 69 2" by (simp add: numeral_eq_Suc)
  then show ?thesis
    by (simp add: relays_def sample_packet_plain sample_machine_def sample_pipeline_def sample_node_def
        relay_init_def passes_by_def)
qed

theorem cross_zone_delivery_witness:
  "Wire (Datagram [50] 2 (replicate 70 2)) \<in>
     set (fst (upcall (sample_machine zone_two) sample_world (Received [1] (replicate 70 2)) (n_relay (sample_node 1)))) \<and>
   fst (node_step (sample_machine zone_two) sample_world (NodeInput [49] 1 (replicate 70 2)) (sample_node 2)) \<noteq> []"
proof -
  have b: "node_inv (msg_zone zone_two) (sample_node 2)" using sample_node_inv [of 2] by simp
  have w: "w_net sample_world = quiet_net" by (simp add: sample_world_def)
  have r: "addr_for (w_mono sample_world) (msg_zone zone_two) (bh_table (r_backhaul (n_relay (sample_node 1)))) =
      Some (pair_addr [50] 2)"
    by (simp add: sample_node_def relay_init_def sample_bh_of_def bh_on_receive_def bh_start_def bh_init_def
        ztable_init_def addr_for_def)
  have up: "bh_running (r_backhaul (n_relay (sample_node 2)))" "data_cb (r_backhaul (n_relay (sample_node 2)))"
    "pair_addr [49] 1 \<noteq> endpoint (bh_port (r_backhaul (n_relay (sample_node 2)))) (bh_own_addr (r_backhaul (n_relay (sample_node 2))))"
    by (simp_all add: sample_node_def relay_init_def sample_bh_of_def bh_on_receive_def bh_start_def bh_init_def)
  have magic: "\<not> starts_with (replicate 70 (2 :: byte)) ZONE_SYNC_MAGIC"
  proof -
    have "replicate 70 (2 :: byte) = 2 # replicate 69 2" by (simp add: numeral_eq_Suc)
    then show ?thesis by (simp add: starts_with_def ZONE_SYNC_MAGIC_def blit_def)
  qed
  have copy: "relayed_copy (replicate 70 2) None = Inr ((replicate 70 2)[68 := 1 :: byte])"
    by (simp add: relayed_copy_def decrement_ttl_iff TTL_OFFSET_def)
  have air: "transport_send (w_faults sample_world) (r_transport (n_relay (sample_node 2))) q x =
      ble_send no_faults (ble_on_receive (ble_init (gatt_init\<lparr>connected_peers := {[1]}\<rparr>))) q x" for q x
    by (simp add: sample_world_def sample_node_def relay_init_def)
  have phones: "transport_list_peers (r_transport (n_relay (sample_node 2))) = [[1]]"
    by (simp add: sample_node_def relay_init_def ble_list_peers_def ble_init_def ble_on_receive_def gatt_peers_def)
  have sent: "fst (ble_send no_faults b q ((replicate 70 2)[68 := 1])) \<noteq> []" for b q
    by (simp add: ble_send_def send_packet_def frame_def MAX_FRAME_def chunk_def pack_u16_def BLE_NOTIFY_CHUNK_def
        no_faults_def notify_chunk_def case_prod_beta range_step_def upt_rec)
  from cross_zone_delivery [OF sample_node_inv b sample_relays sample_relays w _ _ r _ _ up magic copy, of "[1]"] air phones sent
  show ?thesis by (simp add: BROADCAST_ZONE_def bh_peer_id_def lit_def)
qed

section \<open>What leaves by the uplink\<close>

lemma upcalls_no_http: "Http rq \<notin> set (fst (upcalls m w us r))"
proof (induction us arbitrary: r)
  case (Cons u us)
  have "Http rq \<noteq> emission_of e" for e by (cases e) simp_all
  then have "Http rq \<notin> set (fst (upcall m w u r))" by (cases u) (auto simp: case_prod_beta)
  with Cons show ?case by (simp add: case_prod_beta)
qed simp

text \<open>The addresses the node asks: the heartbeat's, the proxy's backend, the directory's. Nor is
  attestation ever switched on or off.\<close>

definition base_url_of :: "('p, 'c) node \<Rightarrow> pystr option" where
  "base_url_of n = map_option bp_base_url (r_backend_proxy (n_relay n))"

definition directory_of :: "('p, 'c) node \<Rightarrow> directory option" where
  "directory_of n = map_option ls_directory (r_location (n_relay n))"

definition same_uplinks :: "('p, 'c) node \<Rightarrow> ('p, 'c) node \<Rightarrow> bool" where
  "same_uplinks n n' = ((r_attestation (n_relay n') = None \<longleftrightarrow> r_attestation (n_relay n) = None) \<and> hb_url (n_heartbeat n') = hb_url (n_heartbeat n) \<and> base_url_of n' = base_url_of n \<and>
     (\<forall>d'. directory_of n' = Some d' \<longrightarrow> (\<exists>d. directory_of n = Some d \<and> dir_url d' = dir_url d)))"

lemma same_uplinks_refl [simp]: "same_uplinks n n"
  by (simp add: same_uplinks_def)

lemma same_uplinks_trans: "same_uplinks n n' \<Longrightarrow> same_uplinks n' n'' \<Longrightarrow> same_uplinks n n''"
  by (auto simp: same_uplinks_def) metis?

lemma keeps_same_uplinks:
  "keeps_relay (n_relay n) r \<Longrightarrow> same_uplinks n (n\<lparr>n_relay := r\<rparr>)"
  by (fastforce simp: same_uplinks_def base_url_of_def directory_of_def keeps_relay_def queue_grows_base_url)

lemma rewired_same_uplinks:
  "same_uplinks n (n\<lparr>n_relay := snd (upcalls m w us ((n_relay n)\<lparr>r_transport := t, r_backhaul := bh\<rparr>))\<rparr>)"
  using keeps_same_uplinks [of "n\<lparr>n_relay := (n_relay n)\<lparr>r_transport := t, r_backhaul := bh\<rparr>\<rparr>", OF upcalls_keeps]
  by (simp add: same_uplinks_def base_url_of_def directory_of_def)

lemma phone_input_uplinks: "same_uplinks n (snd (phone_input m w ut n))"
  using rewired_same_uplinks [of n m w "fst ut" "r_backhaul (n_relay n)" "snd ut"]
  by (simp add: phone_input_def case_prod_beta)

lemma node_input_uplinks: "same_uplinks n (snd (node_input m w h p d n))"
  using rewired_same_uplinks [of n m w _ _ "r_transport (n_relay n)"]
  by (simp add: node_input_def case_prod_beta)

lemma mourn_uplinks [simp]: "same_uplinks n (mourn t e n') \<longleftrightarrow> same_uplinks n n'"
  by (simp add: mourn_def same_uplinks_def base_url_of_def directory_of_def split: option.split)

lemma refresh_url: "dir_url (snd (refresh pk frepr fault fetched d)) = dir_url d"
  by (auto simp: refresh_def dir_index_def split: sum.splits option.splits)

lemma turn_uplinks:
  "same_uplinks n (snd (announce_turn m w n))" "same_uplinks n (snd (ping_turn m w n))"
  "same_uplinks n (snd (timers_due m w n))" "same_uplinks n (snd (worker_turn m w n))"
  "same_uplinks n (snd (heartbeat_turn m w s b sys n))"
  by (auto simp: announce_turn_def ping_turn_def timers_due_def worker_turn_def proxy_work_def heartbeat_turn_def
      Let_def split: prod.splits option.splits list.splits)
    (auto simp: same_uplinks_def base_url_of_def directory_of_def split: prod.splits)

lemma directory_turn_uplinks: "same_uplinks n (snd (directory_turn m w x y n))"
proof (cases "r_location (n_relay n)")
  case (Some ls)
  then show ?thesis
    using refresh_url [of "pubkey_id (w_core w)" "m_frepr m" y x "ls_directory ls"]
    by (simp add: directory_turn_def case_prod_beta) (simp add: same_uplinks_def base_url_of_def directory_of_def)
qed (simp add: directory_turn_def)

lemma node_step_uplinks: "same_uplinks n (snd (node_step m w e n))"
  by (cases e) (simp_all add: turn_uplinks directory_turn_uplinks phone_input_uplinks node_input_uplinks del: deliveries.simps)

definition allowed_request :: "('p, 'c) node \<Rightarrow> http_request \<Rightarrow> bool" where
  "allowed_request n rq =
     (rq_url rq = hb_url (n_heartbeat n) \<and> rq_method rq = lit ''POST'' \<or>
      (\<exists>d. directory_of n = Some d \<and> rq = url_request (dir_url d)) \<or>
      (\<exists>b path. base_url_of n = Some b \<and> rq_url rq = b @ path \<and> path_allowed (JStr path) \<and> rq_method rq \<in> set ALLOWED_METHODS))"

lemma allowed_earlier: "same_uplinks n n' \<Longrightarrow> allowed_request n' rq \<Longrightarrow> allowed_request n rq"
  by (auto simp: same_uplinks_def allowed_request_def) (metis+)?

lemma http_made_allowed:
  assumes "Http rq \<in> set (http_made m (bp_base_url bp) (bp_jobs bp))"
  shows "\<exists>path. rq_url rq = bp_base_url bp @ path \<and> path_allowed (JStr path) \<and> rq_method rq \<in> set ALLOWED_METHODS"
proof -
  obtain p req js where j: "bp_jobs bp = (p, req) # js"
    using assms by (cases "bp_jobs bp") (auto simp: http_made_def)
  then have e: "fst (execute (m_frepr m) (m_rp m) (m_uplink m) (bp_base_url bp) req) = Some rq"
    using assms by (cases "fst (execute (m_frepr m) (m_rp m) (m_uplink m) (bp_base_url bp) req)") (auto simp: http_made_def)
  obtain x where "execute (m_frepr m) (m_rp m) (m_uplink m) (bp_base_url bp) req = (Some rq, x)"
    using e by (metis prod.collapse)
  then obtain path md data where "path_allowed (JStr path)" "md \<in> set ALLOWED_METHODS"
    "rq = \<lparr>rq_url = bp_base_url bp @ path, rq_data = data,
      rq_headers = build_headers (data \<noteq> None) (dict_get req (lit ''headers'')), rq_method = md\<rparr>"
    by (rule execute_request)
  then show ?thesis by simp
qed

lemma turn_requests:
  assumes "Http rq \<in> set (fst (node_step m w e n))"
  shows "allowed_request n rq"
proof (cases e)
  case WorkerTurn
  with assms http_made_allowed [of rq m] show ?thesis
    by (auto simp: worker_turn_def allowed_request_def base_url_of_def split: option.splits prod.splits)
next
  case (HeartbeatTurn s b y)
  with assms show ?thesis
    by (auto simp: heartbeat_turn_def beat_def allowed_request_def Let_def split: if_splits sum.splits prod.splits)
next
  case (DirectoryTurn x y)
  with assms show ?thesis
    by (auto simp: directory_turn_def allowed_request_def directory_of_def case_prod_beta split: if_splits option.splits)
qed (use assms in \<open>auto simp: upcalls_no_http phone_input_def node_input_def announce_turn_def ping_turn_def
    timers_due_def case_prod_beta split: if_splits option.splits\<close>)

lemma run_requests: "Http rq \<in> set (fst (node_run m es n)) \<Longrightarrow> allowed_request n rq"
proof (induction m es n rule: node_run.induct)
  case (2 m w e es n)
  obtain out n' where s: "node_step m w e n = (out, n')" by fastforce
  have c: "same_uplinks n n'" using node_step_uplinks [of n m w e] by (simp add: s)
  from 2(2) s consider "Http rq \<in> set (fst (node_step m w e n))" | "Http rq \<in> set (fst (node_run m es n'))"
    by (auto simp: case_prod_beta)
  then show ?case
  proof cases
    case 2
    from allowed_earlier [OF c "2.IH" [OF s [symmetric] 2]] show ?thesis .
  qed (rule turn_requests)
qed simp

text \<open>The uplink carries three things only: every HTTP request of a run is a heartbeat, a POST to the
  heartbeat's address; a GET of the directory's own address; or a phone's GET or POST of a path of the
  allow-list under the proxy's address. So a phone can steer the uplink to nothing else, whatever the
  phones and other nodes send and however the steps are ordered.\<close>

theorem uplink_traffic:
  assumes "Http rq \<in> set (fst (node_run m es n))"
  shows "rq_url rq = hb_url (n_heartbeat n) \<and> rq_method rq = lit ''POST'' \<or>
    (\<exists>ls. r_location (n_relay n) = Some ls \<and> rq = url_request (dir_url (ls_directory ls))) \<or>
    (\<exists>bp path. r_backend_proxy (n_relay n) = Some bp \<and> rq_url rq = bp_base_url bp @ path \<and>
       path_allowed (JStr path) \<and> rq_method rq \<in> set ALLOWED_METHODS)"
  using run_requests [OF assms] by (auto simp: allowed_request_def base_url_of_def directory_of_def)


section \<open>Every request is served\<close>

definition is_worker :: "world \<times> node_event \<Rightarrow> bool" where
  "is_worker = (\<lambda>(w, e). e = WorkerTurn)"

lemma is_worker_iff [simp]: "is_worker (w, e) \<longleftrightarrow> e = WorkerTurn"
  by (simp add: is_worker_def)

definition proxy_of :: "('p, 'c) node \<Rightarrow> proxy option" where
  "proxy_of n = r_backend_proxy (n_relay n)"

lemma node_run_append:
  "node_run m (es @ es') n =
     (fst (node_run m es n) @ fst (node_run m es' (snd (node_run m es n))), snd (node_run m es' (snd (node_run m es n))))"
proof (induction es arbitrary: n)
  case (Cons we es)
  obtain w e where "we = (w, e)" by fastforce
  with Cons show ?case by (simp add: case_prod_beta)
qed simp

lemma rewired_queue:
  "queue_grows (proxy_of n) (r_backend_proxy (snd (upcalls m w us ((n_relay n)\<lparr>r_transport := t, r_backhaul := bh\<rparr>))))"
  using upcalls_keeps [of "(n_relay n)\<lparr>r_transport := t, r_backhaul := bh\<rparr>" m w us]
  by (simp add: keeps_relay_def proxy_of_def)

lemma input_queue:
  "queue_grows (proxy_of n) (proxy_of (snd (phone_input m w ut n)))"
  "queue_grows (proxy_of n) (proxy_of (snd (node_input m w h p d n)))"
  using rewired_queue [of n m w "fst ut" "r_backhaul (n_relay n)" "snd ut"]
    rewired_queue [of n m w _ _ "r_transport (n_relay n)"]
  by (simp_all add: phone_input_def node_input_def case_prod_beta proxy_of_def)

lemma turn_queue:
  "proxy_of (snd (announce_turn m w n)) = proxy_of n" "proxy_of (snd (ping_turn m w n)) = proxy_of n"
  "proxy_of (snd (timers_due m w n)) = proxy_of n" "proxy_of (snd (directory_turn m w x y n)) = proxy_of n"
  "proxy_of (snd (heartbeat_turn m w s b sys n)) = proxy_of n"
  by (auto simp: announce_turn_def ping_turn_def timers_due_def directory_turn_def heartbeat_turn_def Let_def
      mourn_def proxy_of_def split: prod.splits option.splits)

lemma step_queue: "e \<noteq> WorkerTurn \<Longrightarrow> queue_grows (proxy_of n) (proxy_of (snd (node_step m w e n)))"
  by (cases e) (simp_all add: turn_queue input_queue)

lemma worker_takes_first:
  assumes "proxy_of n = Some bp" and "bp_jobs bp = (p, req) # jobs"
  shows "fst (node_step m w WorkerTurn n) = http_made m (bp_base_url bp) [(p, req)] @
      map Air (serve (m_frepr m) (m_rp m) (m_uplink m) (bp_base_url bp) (w_faults w) (r_transport (n_relay n)) p req)"
    and "proxy_of (snd (node_step m w WorkerTurn n)) = Some (bp\<lparr>bp_jobs := jobs\<rparr>)"
  using assms by (simp_all add: worker_turn_def proxy_work_def proxy_of_def http_made_def)

lemma queue_position:
  assumes "proxy_of n = Some bp" and "i < length (bp_jobs bp)" and "bp_jobs bp ! i = (p, req)"
    and "i < length (filter is_worker es)"
  shows "\<exists>es1 w es2. es = es1 @ (w, WorkerTurn) # es2 \<and> length (filter is_worker es1) = i \<and>
     (\<exists>bp' jobs. proxy_of (snd (node_run m es1 n)) = Some bp' \<and> bp_base_url bp' = bp_base_url bp \<and>
        bp_jobs bp' = (p, req) # jobs)"
  using assms
proof (induction es arbitrary: n bp i)
  case (Cons we es)
  obtain w e where we: "we = (w, e)" by fastforce
  let ?n = "snd (node_step m w e n)"
  show ?case
  proof (cases "e = WorkerTurn")
    case False
    have g: "queue_grows (Some bp) (proxy_of ?n)" using step_queue [OF False, of n m w] Cons.prems(1) by simp
    obtain bp' js where bp': "proxy_of ?n = Some bp'" "bp_base_url bp' = bp_base_url bp" "bp_jobs bp' = bp_jobs bp @ js"
      by (rule queue_grows_jobs [OF g])
    then have "i < length (bp_jobs bp')" "bp_jobs bp' ! i = (p, req)" "i < length (filter is_worker es)"
      using Cons.prems(2-4) False by (simp_all add: nth_append we)
    from Cons.IH [OF bp'(1) this] obtain es1 w' es2 bp'' jobs where
      "es = es1 @ (w', WorkerTurn) # es2" "length (filter is_worker es1) = i"
      "proxy_of (snd (node_run m es1 ?n)) = Some bp''" "bp_base_url bp'' = bp_base_url bp'"
      "bp_jobs bp'' = (p, req) # jobs" by blast
    then show ?thesis
      using bp'(2) False
      by (intro exI [of _ "(w, e) # es1"] exI [of _ w'] exI [of _ es2]) (simp add: we case_prod_beta)
  next
    case True
    show ?thesis
    proof (cases i)
      case 0
      then have "bp_jobs bp = (p, req) # tl (bp_jobs bp)" using Cons.prems(2,3) by (cases "bp_jobs bp") simp_all
      then show ?thesis
        using 0 True Cons.prems(1) by (intro exI [of _ "[]"] exI [of _ w] exI [of _ es]) (auto simp: we)
    next
      case (Suc k)
      obtain q where q: "bp_jobs bp = q # tl (bp_jobs bp)" using Cons.prems(2) by (cases "bp_jobs bp") simp_all
      then have n: "proxy_of ?n = Some (bp\<lparr>bp_jobs := tl (bp_jobs bp)\<rparr>)"
        using worker_takes_first(2) [OF Cons.prems(1), of "fst q" "snd q" "tl (bp_jobs bp)" m w] True by simp
      have "k < length (tl (bp_jobs bp))" "tl (bp_jobs bp) ! k = (p, req)" "k < length (filter is_worker es)"
        using Cons.prems(2-4) Suc True by (simp_all add: nth_tl we)
      with Cons.IH [OF n, of k] obtain es1 w' es2 bp'' jobs where
        "es = es1 @ (w', WorkerTurn) # es2" "length (filter is_worker es1) = k"
        "proxy_of (snd (node_run m es1 ?n)) = Some bp''" "bp_base_url bp'' = bp_base_url bp"
        "bp_jobs bp'' = (p, req) # jobs" by auto
      then show ?thesis
        using Suc True
        by (intro exI [of _ "(w, e) # es1"] exI [of _ w'] exI [of _ es2]) (simp add: we case_prod_beta)
    qed
  qed
qed simp


abbreviation sample_queue :: proxy where
  "sample_queue \<equiv> \<lparr>bp_base_url = lit ''http://b'', bp_jobs = [([1], sample_request)], bp_shut = False\<rparr>"

definition sample_busy :: "(unit, unit) node" where
  "sample_busy = (sample_node 1)\<lparr>n_relay := (n_relay (sample_node 1))\<lparr>r_backend_proxy := Some sample_queue\<rparr>\<rparr>"

lemma sample_call:
  "http_made (sample_machine zone_two) (lit ''http://b'') ((p, sample_request) # js) =
   [Http \<lparr>rq_url = lit ''http://b'' @ lit ''/tickets?x=1'', rq_data = None, rq_headers = [], rq_method = lit ''GET''\<rparr>]"
  by (simp add: http_made_def sample_execute)


theorem uplink_traffic_witness:
  "path_allowed (JStr (lit ''/tickets?x=1'')) \<and> (\<exists>path. lit ''http://b'' @ lit ''/tickets?x=1'' = lit ''http://b'' @ path \<and>
     path_allowed (JStr path))"
proof -
  let ?rq = "\<lparr>rq_url = lit ''http://b'' @ lit ''/tickets?x=1'', rq_data = None, rq_headers = [], rq_method = lit ''GET''\<rparr>"
  have "Http ?rq \<in> set (fst (node_run (sample_machine zone_two) [(sample_world, WorkerTurn)] sample_busy))"
    using worker_takes_first(1) [of sample_busy sample_queue "[1]" sample_request "[]" "sample_machine zone_two" sample_world]
    by (simp add: sample_call case_prod_beta proxy_of_def sample_busy_def)
  from uplink_traffic [OF this] sample_path show ?thesis
    by (auto simp: sample_busy_def sample_node_def relay_init_def)
qed

end
