(* ===== verification/Startup.thy ===== *)
theory Startup
  imports Node
begin

text \<open>
  \<open>main\<close> from its first line to its last: what it reads and builds, in its order, what it starts, and
  what it stops when the Bluetooth loop returns. Everything the machine and the network answer is an
  input; the result is what the node sent on the way and either the running node or the exception
  that ended the boot.
\<close>

section \<open>Inputs and outcome\<close>

record boot_inputs =
  bi_cfg :: settings
  bi_darwin :: bool
  bi_ble_backend :: "pystr option"
  bi_ap_backend :: "pystr option"
  bi_channel :: int
  bi_organiser :: "exn + bytes"
  bi_key_fault :: "exn option"
  bi_key_cache :: "pystr option"
  bi_iw :: "pystr option"
  bi_gatt_fault :: "exn option"
  bi_deployment :: "exn + pystr"
  bi_host :: host
  bi_udp_fault :: "exn option"
  bi_directory_file :: "pystr option"
  bi_identity_fault :: "exn option"
  bi_ephem :: bytes
  bi_radio_fault :: "exn option"
  bi_wifi_bind :: "int option"
  bi_directory_answer :: "exn + bytes"
  bi_directory_fault :: "exn option"

text \<open>The five intervals of the settings; the clock model takes finite ones.\<close>

fun finite_of :: "pyfloat \<Rightarrow> real option" where
  "finite_of (Fin x) = Some x"
| "finite_of _ = None"

record intervals =
  iv_ttl :: real
  iv_query :: real
  iv_ping :: real
  iv_delay :: real

definition intervals_of :: "settings \<Rightarrow> intervals option" where
  "intervals_of cfg =
     (case (finite_of (ZONE_ENTRY_TTL_S cfg), finite_of (LOCATION_QUERY_MIN_INTERVAL_S cfg),
            finite_of (PHONE_PING_INTERVAL_S cfg), finite_of (PHONE_PING_CONNECT_DELAY_S cfg)) of
        (Some t, Some q, Some p, Some d) \<Rightarrow> Some \<lparr>iv_ttl = t, iv_query = q, iv_ping = p, iv_delay = d\<rparr>
      | _ \<Rightarrow> None)"

record ('p, 'c) booted =
  b_out :: "emission list"
  b_host :: host
  b_key_cache :: "pystr option"
  b_result :: "exn + (('p, 'c) node \<times> ap_backend option)"

section \<open>Building\<close>

text \<open>\<open>wifi_host, wifi_port = parse_addr(...)\<close>: an address with no port is a string, which unpacks only
  when it has two characters, and then to a port that is text and no number (\<open>None\<close>).\<close>

definition wifi_address :: "pystr \<Rightarrow> exn + (pystr \<times> int option)" where
  "wifi_address listen =
     (case parse_addr listen of
        Inl e \<Rightarrow> Inl e
      | Inr (ATuple [JStr h, JInt p]) \<Rightarrow> Inr (h, Some p)
      | Inr (AValue (JStr h)) \<Rightarrow> (if length h = 2 then Inr (take 1 h, None) else Inl ValueError)
      | Inr _ \<Rightarrow> Inl TypeError)"

text \<open>What \<open>bind\<close> raises that is no \<open>OSError\<close>.\<close>

definition listen_fault :: "pystr \<Rightarrow> exn option" where
  "listen_fault listen =
     (case wifi_address listen of
        Inl e \<Rightarrow> None
      | Inr (h, None) \<Rightarrow> Some TypeError
      | Inr (h, Some p) \<Rightarrow> if 0 \<le> p \<and> p \<le> 65535 then None else Some OverflowError)"

definition wire_transport :: "boot_inputs \<Rightarrow> (exn + (transport \<times> ap_backend option)) \<times> host" where
  "wire_transport bi =
     (if ascii_lower (WIFI_LISTEN (bi_cfg bi)) = lit ''off'' then (Inr (BleOnly (ble_init gatt_init), None), bi_host bi)
      else (case wifi_address (WIFI_LISTEN (bi_cfg bi)) of
              Inl e \<Rightarrow> (Inl e, bi_host bi)
            | Inr (h, p) \<Rightarrow>
                (case provision_ap (WIFI_AP_PROVISION (bi_cfg bi)) (bi_ap_backend bi) (bi_channel bi)
                        (bi_deployment bi) (bi_host bi) of
                   (Inl e, host) \<Rightarrow> (Inl e, host)
                 | (Inr ap, host) \<Rightarrow>
                     (Inr (Multi (ble_init gatt_init) (wifi_init (case p of None \<Rightarrow> 0 | Some n \<Rightarrow> n)), ap), host))))"

definition wire_backhaul :: "settings \<Rightarrow> intervals \<Rightarrow> backhaul" where
  "wire_backhaul cfg iv =
     bh_on_control (bh_init (NODE_ZONE_ID cfg)
       (Some (ztable_init (NODE_ZONE_ID cfg) (case BACKHAUL_ZONE_TABLE cfg of None \<Rightarrow> [] | Some d \<Rightarrow> d) (iv_ttl iv)))
       (Some (BACKHAUL_ADVERTISE_ADDR cfg)) (BACKHAUL_BROADCAST_ADDR cfg) (BACKHAUL_UDP_PORT cfg))"

definition wire_sync :: "settings \<Rightarrow> zone_sync" where
  "wire_sync cfg = \<lparr>zs_node_id = NODE_ID cfg, zs_zone_id = NODE_ZONE_ID cfg, zs_own_addr = BACKHAUL_ADVERTISE_ADDR cfg\<rparr>"

definition wire_location :: "settings \<Rightarrow> intervals \<Rightarrow> directory \<Rightarrow> bytes \<Rightarrow> location_service" where
  "wire_location cfg iv d ephem =
     \<lparr>ls_store = [], ls_authz = authz_init (iv_query iv), ls_directory = d, ls_zone_id = NODE_ZONE_ID cfg, ls_ephem_id = ephem\<rparr>"

definition wire_node ::
  "('p, 'c) machine \<Rightarrow> settings \<Rightarrow> intervals \<Rightarrow> transport \<Rightarrow> bytes \<Rightarrow> directory \<Rightarrow> bytes \<Rightarrow> ('p, 'c) node" where
  "wire_node m cfg iv t key d ephem =
     \<lparr>n_relay = relay_init (m_pipeline m) (transport_on_connect t) (wire_backhaul cfg iv) (NODE_ZONE_ID cfg)
        (Some (m_new_cache m key (EVENT_ID cfg)))
        (Some (phone_ping_init (iv_ping iv) (iv_delay iv) (NODE_NAME cfg) (NODE_LAT cfg) (NODE_LON cfg)))
        (Some (wire_location cfg iv d ephem)) (Some (proxy_init (BACKEND_URL cfg))),
      n_sync = wire_sync cfg,
      n_heartbeat = hb_init (NODE_ID cfg) (NODE_ZONE_ID cfg) (NODE_ZONE_NAME cfg) (BACKEND_URL cfg),
      n_dead = {}\<rparr>"

section \<open>Starting\<close>

text \<open>\<open>Transport.start\<close>: the Bluetooth server first, whose exception ends it; a listener that cannot bind
  is only logged, a port that is no port raises.\<close>

fun transport_start :: "exn option \<Rightarrow> exn option \<Rightarrow> int option \<Rightarrow> transport \<Rightarrow> exn + transport" where
  "transport_start radio fault bind (BleOnly b) = (case radio of Some e \<Rightarrow> Inl e | None \<Rightarrow> Inr (BleOnly b))"
| "transport_start radio fault bind (Multi b w) =
     (case radio of
        Some e \<Rightarrow> Inl e
      | None \<Rightarrow>
          (case (if running w then None else fault) of
             Some e \<Rightarrow> Inl e
           | None \<Rightarrow> Inr (Multi b (wifi_start w bind))))"

definition with_relay :: "('p, 'c) relay \<Rightarrow> ('p, 'c) node \<Rightarrow> ('p, 'c) node" where
  "with_relay r n = n\<lparr>n_relay := r\<rparr>"

text \<open>\<open>backhaul.start\<close> and \<open>zone_sync.start\<close>, which announces before its loop runs.\<close>

definition start_gossip :: "('p, 'c) machine \<Rightarrow> world \<Rightarrow> ('p, 'c) node \<Rightarrow> emission list \<times> (exn + ('p, 'c) node)" where
  "start_gossip m w n =
     (let r = n_relay n; bh = bh_start (r_backhaul r)
      in case announce_now (m_frepr m) (w_net w) (n_sync n) bh of
           (out, Some e) \<Rightarrow> (map Wire out, Inl e)
         | (out, None) \<Rightarrow> (map Wire out, Inr (with_relay (r\<lparr>r_backhaul := bh\<rparr>) n)))"

definition start_relay :: "boot_inputs \<Rightarrow> ('p, 'c) node \<Rightarrow> exn + ('p, 'c) node" where
  "start_relay bi n =
     (case transport_start (bi_radio_fault bi) (listen_fault (WIFI_LISTEN (bi_cfg bi))) (bi_wifi_bind bi)
             (r_transport (n_relay n)) of
        Inl e \<Rightarrow> Inl e
      | Inr t \<Rightarrow> Inr (with_relay ((n_relay n)\<lparr>r_transport := t\<rparr>) n))"

text \<open>\<open>directory.start\<close>: one refresh in the main thread.\<close>

definition start_directory ::
  "('p, 'c) machine \<Rightarrow> world \<Rightarrow> boot_inputs \<Rightarrow> ('p, 'c) node \<Rightarrow> emission list \<times> (exn + ('p, 'c) node)" where
  "start_directory m w bi n =
     (case r_location (n_relay n) of
        None \<Rightarrow> ([], Inr n)
      | Some ls \<Rightarrow>
          ([Http (url_request (dir_url (ls_directory ls)))],
           case refresh (pubkey_id (w_core w)) (m_frepr m) (bi_directory_fault bi) (bi_directory_answer bi) (ls_directory ls) of
             (Inl e, d) \<Rightarrow> Inl e
           | (Inr synced, d) \<Rightarrow> Inr (with_relay ((n_relay n)\<lparr>r_location := Some (ls\<lparr>ls_directory := d\<rparr>)\<rparr>) n)))"

definition start_heartbeat :: "world \<Rightarrow> ('p, 'c) node \<Rightarrow> ('p, 'c) node" where
  "start_heartbeat w n = n\<lparr>n_heartbeat := hb_start (w_mono w) (n_heartbeat n)\<rparr>"

text \<open>The six \<open>start\<close> calls; those of the loops of \<open>phone_ping\<close> and the rest only start threads.\<close>

definition start_node ::
  "('p, 'c) machine \<Rightarrow> world \<Rightarrow> boot_inputs \<Rightarrow> ('p, 'c) node \<Rightarrow> emission list \<times> (exn + ('p, 'c) node)" where
  "start_node m w bi n =
     (case start_gossip m w n of
        (out, Inl e) \<Rightarrow> (out, Inl e)
      | (out, Inr n1) \<Rightarrow>
          (case start_relay bi n1 of
             Inl e \<Rightarrow> (out, Inl e)
           | Inr n2 \<Rightarrow>
               (case start_directory m w bi n2 of
                  (out', Inl e) \<Rightarrow> (out @ out', Inl e)
                | (out', Inr n3) \<Rightarrow> (out @ out', Inr (start_heartbeat w n3)))))"

section \<open>The boot\<close>

definition key_request :: "settings \<Rightarrow> emission list" where
  "key_request cfg =
     (case ORGANISER_PUBKEY cfg of
        Some (c # key) \<Rightarrow> []
      | _ \<Rightarrow> [Http (url_request (organiser_key_url (BACKEND_URL cfg)))])"

text \<open>The radio check only diagnoses; then the Bluetooth backend is chosen and constructed.\<close>

definition boot_checks :: "boot_inputs \<Rightarrow> exn option" where
  "boot_checks bi =
     (case (if BACKHAUL_ZONE_TABLE (bi_cfg bi) = None then check_backhaul_radio (bi_iw bi) else Inr True) of
        Inl e \<Rightarrow> Some e
      | Inr _ \<Rightarrow> (case create_gatt_server (bi_ble_backend bi) (bi_darwin bi) of
          Inl e \<Rightarrow> Some e | Inr b \<Rightarrow> bi_gatt_fault bi))"

text \<open>Constructing the backhaul binds its port; the directory reads its file; the node's identity is read
  or made.\<close>

definition build_node ::
  "('p, 'c) machine \<Rightarrow> world \<Rightarrow> boot_inputs \<Rightarrow> intervals \<Rightarrow> transport \<Rightarrow> bytes \<Rightarrow> exn + ('p, 'c) node" where
  "build_node m w bi iv t key =
     (let cfg = bi_cfg bi
      in if \<not> (0 \<le> BACKHAUL_UDP_PORT cfg \<and> BACKHAUL_UDP_PORT cfg \<le> 65535) then Inl OverflowError
         else (case bi_udp_fault bi of
             Some e \<Rightarrow> Inl e
           | None \<Rightarrow>
               and_then (dir_boot (BACKEND_URL cfg) (EVENT_ID cfg) (pubkey_id (w_core w)) (bi_directory_file bi)) (\<lambda>d.
               case bi_identity_fault bi of
                 Some e \<Rightarrow> Inl e
               | None \<Rightarrow> Inr (wire_node m cfg iv t key d (bi_ephem bi)))))"

definition boot_with :: "('p, 'c) machine \<Rightarrow> world \<Rightarrow> boot_inputs \<Rightarrow> intervals \<Rightarrow> ('p, 'c) booted" where
  "boot_with m w bi iv =
     (case organiser_key (bi_cfg bi) (bi_organiser bi) (bi_key_fault bi) (bi_key_cache bi) of
        (rk, cache) \<Rightarrow>
          (let ended = (\<lambda>out host r. \<lparr>b_out = key_request (bi_cfg bi) @ out, b_host = host, b_key_cache = cache, b_result = r\<rparr>)
           in case rk of
                Inl e \<Rightarrow> ended [] (bi_host bi) (Inl e)
              | Inr key \<Rightarrow>
                  (case boot_checks bi of
                     Some e \<Rightarrow> ended [] (bi_host bi) (Inl e)
                   | None \<Rightarrow>
                       (case wire_transport bi of
                          (Inl e, host) \<Rightarrow> ended [] host (Inl e)
                        | (Inr (t, ap), host) \<Rightarrow>
                            (case build_node m w bi iv t key of
                               Inl e \<Rightarrow> ended [] host (Inl e)
                             | Inr n \<Rightarrow>
                                 (case start_node m w bi n of
                                    (out, Inl e) \<Rightarrow> ended out host (Inl e)
                                  | (out, Inr n') \<Rightarrow> ended out host (Inr (n', ap))))))))"

definition boot :: "('p, 'c) machine \<Rightarrow> world \<Rightarrow> boot_inputs \<Rightarrow> ('p, 'c) booted option" where
  "boot m w bi = map_option (boot_with m w bi) (intervals_of (bi_cfg bi))"

section \<open>The shutdown\<close>

fun transport_stop :: "transport \<Rightarrow> transport" where
  "transport_stop (BleOnly b) = BleOnly b"
| "transport_stop (Multi b w) = Multi b (snd (wifi_stop w))"

text \<open>The \<open>finally\<close> of \<open>main\<close>, in its order.\<close>

definition shutdown :: "bool \<Rightarrow> ap_backend option \<Rightarrow> ('p, 'c) node \<Rightarrow> host \<Rightarrow> ('p, 'c) node \<times> host" where
  "shutdown move_fails ap n h =
     (let n1 = n\<lparr>n_heartbeat := hb_stop (n_heartbeat n), n_dead := insert HeartbeatThread (n_dead n)\<rparr>;
          r1 = (n_relay n)\<lparr>r_backend_proxy := map_option proxy_stop (r_backend_proxy (n_relay n))\<rparr>;
          r2 = r1\<lparr>r_phone_ping := map_option pp_stop (r_phone_ping r1)\<rparr>;
          r3 = r2\<lparr>r_transport := transport_stop (r_transport r2)\<rparr>;
          r4 = r3\<lparr>r_backhaul := bh_stop (r_backhaul r3)\<rparr>
      in (n1\<lparr>n_relay := r4, n_dead := n_dead n1 \<union> {DirectoryThread, PingThread, SyncThread}\<rparr>,
          case ap of None \<Rightarrow> h | Some b \<Rightarrow> ap_stop move_fails b h))"


section \<open>Lemmas\<close>

lemma wire_transport_inv: "wire_transport bi = (Inr (t, ap), host) \<Longrightarrow> transport_inv (transport_on_receive (transport_on_connect t))"
  by (auto simp: wire_transport_def ble_init_def ble_on_receive_def ble_on_connect_def ble_inv_def gatt_inv_def gatt_init_def
      wifi_init_def wifi_on_receive_def wifi_on_connect_def wifi_inv_def
      split: if_splits sum.splits prod.splits option.splits)

lemma wire_node_inv:
  assumes "transport_inv (transport_on_receive (transport_on_connect t))"
  shows "node_inv (NODE_ZONE_ID cfg) (wire_node m cfg iv t key d ephem)"
  using assms by (simp add: node_inv_def wire_node_def relay_init_def wire_backhaul_def bh_on_control_def bh_init_def
      bh_on_receive_def balanced_def no_traffic_def nodes_reached_def wire_location_def)

lemma transport_start_inv: "transport_inv t \<Longrightarrow> transport_start radio fault bind t = Inr t' \<Longrightarrow> transport_inv t'"
  by (cases t) (auto simp: wifi_inv_start split: option.splits if_splits)

lemma start_node_parts:
  assumes "start_node m w bi n = (out, Inr n')" and "r_location (n_relay n) = Some ls"
  obtains ann t d where
    "announce_now (m_frepr m) (w_net w) (n_sync n) (bh_start (r_backhaul (n_relay n))) = (ann, None)"
    "out = map Wire ann @ [Http (url_request (dir_url (ls_directory ls)))]"
    "transport_start (bi_radio_fault bi) (listen_fault (WIFI_LISTEN (bi_cfg bi))) (bi_wifi_bind bi)
       (r_transport (n_relay n)) = Inr t"
    "n' = n\<lparr>n_relay := (n_relay n)\<lparr>r_backhaul := bh_start (r_backhaul (n_relay n)), r_transport := t,
              r_location := Some (ls\<lparr>ls_directory := d\<rparr>)\<rparr>,
            n_heartbeat := hb_start (w_mono w) (n_heartbeat n)\<rparr>"
  using assms by (auto simp: start_node_def start_gossip_def start_relay_def start_directory_def start_heartbeat_def
      with_relay_def Let_def split: prod.splits option.splits sum.splits)

lemma build_node_wired:
  "build_node m w bi iv t key = Inr n \<Longrightarrow>
   \<exists>d. dir_boot (BACKEND_URL (bi_cfg bi)) (EVENT_ID (bi_cfg bi)) (pubkey_id (w_core w)) (bi_directory_file bi) = Inr d \<and>
     n = wire_node m (bi_cfg bi) iv t key d (bi_ephem bi)"
  by (auto simp: build_node_def Let_def and_then_def split: if_splits option.splits sum.splits)

lemma booted_parts:
  assumes "boot m w bi = Some b" and "b_result b = Inr (n, ap)"
  obtains iv key t host d out where "intervals_of (bi_cfg bi) = Some iv"
    "wire_transport bi = (Inr (t, ap), host)"
    "dir_boot (BACKEND_URL (bi_cfg bi)) (EVENT_ID (bi_cfg bi)) (pubkey_id (w_core w)) (bi_directory_file bi) = Inr d"
    "start_node m w bi (wire_node m (bi_cfg bi) iv t key d (bi_ephem bi)) = (out, Inr n)"
    "b_out b = key_request (bi_cfg bi) @ out"
proof -
  obtain iv where iv: "intervals_of (bi_cfg bi) = Some iv" "b = boot_with m w bi iv"
    using assms(1) by (auto simp: boot_def)
  then obtain key t host n0 out where p:
    "wire_transport bi = (Inr (t, ap), host)" "build_node m w bi iv t key = Inr n0"
    "start_node m w bi n0 = (out, Inr n)" "b_out b = key_request (bi_cfg bi) @ out"
    using assms(2) by (auto simp: boot_with_def Let_def split: prod.splits sum.splits option.splits)
  from build_node_wired [OF p(2)] obtain d where
    "dir_boot (BACKEND_URL (bi_cfg bi)) (EVENT_ID (bi_cfg bi)) (pubkey_id (w_core w)) (bi_directory_file bi) = Inr d"
    "n0 = wire_node m (bi_cfg bi) iv t key d (bi_ephem bi)" by blast
  with p iv(1) that show thesis by blast
qed

lemma dir_boot_url: "dir_boot u ev pk file = Inr d \<Longrightarrow> dir_url d = directory_url u ev"
  by (auto simp: dir_boot_def dir_index_def Let_def split: option.splits sum.splits if_splits)

lemma booted_inv:
  assumes "boot m w bi = Some b" and "b_result b = Inr (n, ap)"
  shows "node_inv (NODE_ZONE_ID (bi_cfg bi)) n \<and> r_attestation (n_relay n) \<noteq> None"
proof -
  obtain iv key t host d out where b: "wire_transport bi = (Inr (t, ap), host)"
    "start_node m w bi (wire_node m (bi_cfg bi) iv t key d (bi_ephem bi)) = (out, Inr n)"
    using assms by (rule booted_parts)
  let ?n = "wire_node m (bi_cfg bi) iv t key d (bi_ephem bi)"
  have i: "node_inv (NODE_ZONE_ID (bi_cfg bi)) ?n" by (rule wire_node_inv [OF wire_transport_inv [OF b(1)]])
  have l: "r_location (n_relay ?n) = Some (wire_location (bi_cfg bi) iv d (bi_ephem bi))"
    and a: "r_attestation (n_relay ?n) \<noteq> None" by (simp_all add: wire_node_def relay_init_def)
  obtain t' d' where s: "transport_start (bi_radio_fault bi) (listen_fault (WIFI_LISTEN (bi_cfg bi))) (bi_wifi_bind bi)
      (r_transport (n_relay ?n)) = Inr t'"
    "n = ?n\<lparr>n_relay := (n_relay ?n)\<lparr>r_backhaul := bh_start (r_backhaul (n_relay ?n)), r_transport := t',
              r_location := Some (wire_location (bi_cfg bi) iv d (bi_ephem bi)\<lparr>ls_directory := d'\<rparr>)\<rparr>,
            n_heartbeat := hb_start (w_mono w) (n_heartbeat ?n)\<rparr>"
    using b(2) l by (rule start_node_parts)
  have "transport_inv t'" using i by (intro transport_start_inv [OF _ s(1)]) (simp add: node_inv_def Let_def)
  with i a show ?thesis unfolding s(2) by (simp add: node_inv_def Let_def wire_location_def bh_start_def)
qed

section \<open>A boot\<close>

definition sample_settings :: settings where
  "sample_settings = \<lparr>NODE_ZONE_ID = 1, NODE_ZONE_NAME = [90], BACKHAUL_UDP_PORT = 7, BACKHAUL_ZONE_TABLE = None,
     BACKHAUL_BROADCAST_ADDR = host_addr [57], BACKHAUL_ADVERTISE_ADDR = host_addr [49], ZONE_ENTRY_TTL_S = Fin 180,
     BACKEND_CHANNEL = [], BACKEND_URL = lit ''http://b'', EVENT_ID = [101], ORGANISER_PUBKEY = None,
     ORGANISER_KEY_CACHE = [], NODE_ID = [65], HEARTBEAT_INTERVAL_S = Fin 60, NODE_IDENTITY_PATH = [], DIRECTORY_CACHE = [],
     LOCATION_QUERY_MIN_INTERVAL_S = Fin 60, PHONE_PING_INTERVAL_S = Fin 90,
     PHONE_PING_CONNECT_DELAY_S = Fin 3, NODE_INFO_PATH = [], NODE_NAME = JStr [78], NODE_LAT = JNull, NODE_LON = JNull,
     WIFI_LISTEN = lit ''off'', WIFI_AP_PROVISION = lit ''auto''\<rparr>"

definition sample_boot :: "pystr option \<Rightarrow> boot_inputs" where
  "sample_boot cache = \<lparr>bi_cfg = sample_settings, bi_darwin = False, bi_ble_backend = None, bi_ap_backend = None,
     bi_channel = 6, bi_organiser = Inl OSError, bi_key_fault = None, bi_key_cache = cache, bi_iw = None,
     bi_gatt_fault = None, bi_deployment = Inl OSError,
     bi_host = \<lparr>h_darwin = False, h_pi = \<lparr>script = None, hostapd_conf = None\<rparr>,
       h_mac = \<lparr>on_darwin = False, is_root = False, copy_fault = None, write_fault = None, job_runs = False,
         nat_plist = None, backup_plist = None\<rparr>\<rparr>,
     bi_udp_fault = None, bi_directory_file = None, bi_identity_fault = None, bi_ephem = [], bi_radio_fault = None,
     bi_wifi_bind = None, bi_directory_answer = Inl OSError, bi_directory_fault = None\<rparr>"

lemma quiet_announces:
  assumes "0 \<le> bh_port bh \<and> bh_port bh \<le> 65535" and "bh_broadcast_addr bh = host_addr h"
    and "announceable frepr (zs_node_id z) (zs_zone_id z) (zs_own_addr z)"
  shows "\<exists>out. announce_now frepr quiet_net z bh = (out, None)"
proof -
  obtain f where "encode_announcement frepr (zs_node_id z) (zs_zone_id z) (zs_own_addr z) = Inr f"
    using encode_announcement_ok [OF assms(3)] by blast
  then show ?thesis
    using assms(1) by (simp add: announce_now_def broadcast_control_def assms(2) bh_send_def sendto_pair_def quiet_net_def)
qed

text \<open>A boot over Bluetooth alone on a machine where nothing fails but the backend, with a cached key.\<close>

lemma quiet_boots:
  assumes "intervals_of cfg = Some iv" and "ORGANISER_PUBKEY cfg = None" and "BACKHAUL_ZONE_TABLE cfg = None"
    and "ascii_lower (WIFI_LISTEN cfg) = lit ''off''" and "0 \<le> BACKHAUL_UDP_PORT cfg \<and> BACKHAUL_UDP_PORT cfg \<le> 65535"
    and "BACKHAUL_BROADCAST_ADDR cfg = host_addr h"
    and "announceable (\<lambda>_. []) (NODE_ID cfg) (NODE_ZONE_ID cfg) (BACKHAUL_ADVERTISE_ADDR cfg)"
  shows "\<exists>b n. boot (sample_machine sample_query) sample_world (sample_boot (Some (lit ''0a1b''))\<lparr>bi_cfg := cfg\<rparr>) = Some b \<and>
    b_result b = Inr (n, None)"
proof -
  let ?m = "sample_machine sample_query" and ?bi = "sample_boot (Some (lit ''0a1b''))\<lparr>bi_cfg := cfg\<rparr>"
  let ?t = "BleOnly (ble_init gatt_init)"
  let ?d = "\<lparr>users_by_name = [], users_by_ed_id = [], disk = None, dir_url = directory_url (BACKEND_URL cfg) (EVENT_ID cfg)\<rparr>"
  let ?n = "wire_node ?m cfg iv ?t [10, 27] ?d []"
  have k: "organiser_key cfg (Inl OSError) None (Some (lit ''0a1b'')) = (Inr [10, 27], Some (lit ''0a1b''))"
    by (simp add: organiser_key_def assms(2) load_organiser_pubkey_def fetch_key_def and_then_def)
      (simp add: lit_def strip_def trim_def is_space_def ascii_space_def unhex_def)
  have c: "boot_checks ?bi = None"
    by (simp add: boot_checks_def sample_boot_def assms(3) check_backhaul_radio_def find_radio_def create_gatt_server_def)
  have t: "wire_transport ?bi = (Inr (?t, None), bi_host ?bi)" by (simp add: wire_transport_def assms(4))
  have n: "build_node ?m sample_world ?bi iv ?t [10, 27] = Inr ?n"
    using assms(5) by (simp add: build_node_def and_then_def dir_boot_def sample_boot_def)
  have l: "r_location (n_relay ?n) = Some (wire_location cfg iv ?d [])"
    "r_transport (n_relay ?n) = transport_on_receive (transport_on_connect ?t)" "n_sync ?n = wire_sync cfg"
    by (simp_all add: wire_node_def relay_init_def)
  have bh: "bh_port (bh_start (r_backhaul (n_relay ?n))) = BACKHAUL_UDP_PORT cfg"
    "bh_broadcast_addr (bh_start (r_backhaul (n_relay ?n))) = host_addr h"
    by (simp_all add: wire_node_def relay_init_def bh_start_def bh_on_receive_def wire_backhaul_def bh_on_control_def
        bh_init_def assms(6))
  obtain out where a: "announce_now (\<lambda>_. []) quiet_net (wire_sync cfg) (bh_start (r_backhaul (n_relay ?n))) = (out, None)"
    using quiet_announces [of _ h "\<lambda>_. []" "wire_sync cfg"] bh assms(5,7) by (fastforce simp: wire_sync_def)
  have m: "m_frepr ?m = (\<lambda>_. [])" "w_net sample_world = quiet_net" by (simp_all add: sample_machine_def sample_world_def)
  have "\<exists>out n'. start_node ?m sample_world ?bi ?n = (out, Inr n')"
    unfolding start_node_def start_gossip_def Let_def m l(3) a
    by (simp add: start_relay_def start_directory_def with_relay_def l(1,2) sample_boot_def refresh_def fetch_users_def)
  then obtain o2 n' where s: "start_node ?m sample_world ?bi ?n = (o2, Inr n')" by blast
  have i: "bi_organiser (sample_boot x) = Inl OSError" "bi_key_fault (sample_boot x) = None" "bi_key_cache (sample_boot x) = x" for x
    by (simp_all add: sample_boot_def)
  show ?thesis by (simp add: boot_def assms(1)) (simp add: boot_with_def i k c t n s Let_def)
qed

lemma sample_boots: "\<exists>b n. boot (sample_machine sample_query) sample_world (sample_boot (Some (lit ''0a1b''))) = Some b \<and>
    b_result b = Inr (n, None)"
proof -
  have "\<exists>iv. intervals_of sample_settings = Some iv" by (simp add: sample_settings_def intervals_of_def)
  then obtain iv where "intervals_of sample_settings = Some iv" by blast
  moreover have "ascii_lower (WIFI_LISTEN sample_settings) = lit ''off''"
    by (simp add: sample_settings_def) (simp add: lit_def ascii_lower_def)
  moreover have "announceable (\<lambda>_. []) (NODE_ID sample_settings) (NODE_ZONE_ID sample_settings) (BACKHAUL_ADVERTISE_ADDR sample_settings)"
    by (simp add: announceable_def sample_settings_def encodable_def is_surrogate_def INT_MAX_STR_DIGITS_def nat_digits.simps)
  moreover have "ORGANISER_PUBKEY sample_settings = None" "BACKHAUL_ZONE_TABLE sample_settings = None"
    "0 \<le> BACKHAUL_UDP_PORT sample_settings \<and> BACKHAUL_UDP_PORT sample_settings \<le> 65535"
    "BACKHAUL_BROADCAST_ADDR sample_settings = host_addr [57]" by (simp_all add: sample_settings_def)
  moreover have "sample_boot x\<lparr>bi_cfg := sample_settings\<rparr> = sample_boot x" for x by (simp add: sample_boot_def)
  ultimately show ?thesis using quiet_boots [of sample_settings iv "[57]"] by simp
qed

section \<open>Properties\<close>

text \<open>C11. The node never runs open: in every state a booted node can reach, whatever phones, other nodes
  and timers do, attestation is enforced, the relay and the backhaul agree on the configured zone,
  the traffic counters balance, the store has at most one row per identity and no phone is listed by
  both radios.\<close>

theorem booted_node_stays_sound:
  assumes "boot m w bi = Some b" and "b_result b = Inr (n, ap)" and "reachable m n n'"
  shows "r_attestation (n_relay n') \<noteq> None \<and> node_inv (NODE_ZONE_ID (bi_cfg bi)) n'"
proof -
  have "same_uplinks n n'" using assms(3) by induction (simp, metis node_step_uplinks same_uplinks_trans)
  with booted_inv [OF assms(1,2)] reachable_inv [OF assms(3)] show ?thesis by (auto simp: same_uplinks_def)
qed

text \<open>What a boot sends: when it succeeds the node has asked for the organiser key (unless it is
  configured), has announced its zone and has asked for the directory, in this order, and nothing
  else; the backhaul listens and feeds the relay and the gossip, and the heartbeat counts from now.\<close>

theorem boot_sends_in_order:
  assumes "boot m w bi = Some b" and "b_result b = Inr (n, ap)"
  shows "\<exists>iv. intervals_of (bi_cfg bi) = Some iv \<and>
    b_out b = key_request (bi_cfg bi) @
      map Wire (fst (announce_now (m_frepr m) (w_net w) (wire_sync (bi_cfg bi)) (bh_start (bh_on_receive (wire_backhaul (bi_cfg bi) iv))))) @
      [Http (url_request (directory_url (BACKEND_URL (bi_cfg bi)) (EVENT_ID (bi_cfg bi))))] \<and>
    bh_running (r_backhaul (n_relay n)) \<and> data_cb (r_backhaul (n_relay n)) \<and> control_cb (r_backhaul (n_relay n)) \<and>
    hb_started_at (n_heartbeat n) = Some (w_mono w)"
proof -
  obtain iv key t host d out where b: "intervals_of (bi_cfg bi) = Some iv"
    "dir_boot (BACKEND_URL (bi_cfg bi)) (EVENT_ID (bi_cfg bi)) (pubkey_id (w_core w)) (bi_directory_file bi) = Inr d"
    "start_node m w bi (wire_node m (bi_cfg bi) iv t key d (bi_ephem bi)) = (out, Inr n)"
    "b_out b = key_request (bi_cfg bi) @ out"
    using assms by (rule booted_parts)
  let ?n = "wire_node m (bi_cfg bi) iv t key d (bi_ephem bi)"
  have l: "r_location (n_relay ?n) = Some (wire_location (bi_cfg bi) iv d (bi_ephem bi))"
    and bh: "r_backhaul (n_relay ?n) = bh_on_receive (wire_backhaul (bi_cfg bi) iv)" "n_sync ?n = wire_sync (bi_cfg bi)"
    by (simp_all add: wire_node_def relay_init_def)
  obtain ann t' d' where s: "announce_now (m_frepr m) (w_net w) (n_sync ?n) (bh_start (r_backhaul (n_relay ?n))) = (ann, None)"
    "out = map Wire ann @ [Http (url_request (dir_url (ls_directory (wire_location (bi_cfg bi) iv d (bi_ephem bi)))))]"
    "n = ?n\<lparr>n_relay := (n_relay ?n)\<lparr>r_backhaul := bh_start (r_backhaul (n_relay ?n)), r_transport := t',
              r_location := Some (wire_location (bi_cfg bi) iv d (bi_ephem bi)\<lparr>ls_directory := d'\<rparr>)\<rparr>,
            n_heartbeat := hb_start (w_mono w) (n_heartbeat ?n)\<rparr>"
    using b(3) l by (rule start_node_parts)
  show ?thesis
    using b(1,4) s bh dir_boot_url [OF b(2)]
    by (intro exI [of _ iv])
      (simp add: wire_location_def bh_start_def bh_on_receive_def wire_backhaul_def bh_on_control_def hb_start_def)
qed

text \<open>No key, no node: when the backend cannot be reached, nothing is cached and no key is
  configured, the boot ends with \<open>RuntimeError\<close>; it has sent the request for the key only and has
  touched neither the machine nor the cache.\<close>

theorem no_key_no_node:
  assumes "intervals_of (bi_cfg bi) \<noteq> None" and "ORGANISER_PUBKEY (bi_cfg bi) = None"
    and "bi_organiser bi = Inl OSError" and "bi_key_cache bi = None"
  shows "boot m w bi = Some \<lparr>b_out = [Http (url_request (organiser_key_url (BACKEND_URL (bi_cfg bi))))],
    b_host = bi_host bi, b_key_cache = None, b_result = Inl RuntimeError\<rparr>"
  using assms by (auto simp: boot_def boot_with_def organiser_key_def load_organiser_pubkey_def fetch_key_def
      and_then_def key_request_def)

theorem booted_node_stays_sound_witness:
  "\<exists>n :: (unit, unit) node. r_attestation (n_relay n) \<noteq> None \<and> node_inv 1 n"
proof -
  obtain b n where "boot (sample_machine sample_query) sample_world (sample_boot (Some (lit ''0a1b''))) = Some b"
    "b_result b = Inr (n, None)" using sample_boots by blast
  from booted_node_stays_sound [OF this reachable.here] show ?thesis
    by (auto simp: sample_boot_def sample_settings_def)
qed

theorem boot_sends_in_order_witness:
  "\<exists>b. boot (sample_machine sample_query) sample_world (sample_boot (Some (lit ''0a1b''))) = Some b \<and>
     hd (b_out b) = Http (url_request (organiser_key_url (lit ''http://b'')))"
proof -
  obtain b n where b: "boot (sample_machine sample_query) sample_world (sample_boot (Some (lit ''0a1b''))) = Some b"
    "b_result b = Inr (n, None)" using sample_boots by blast
  from boot_sends_in_order [OF this] b(1) show ?thesis
    by (auto simp: sample_boot_def sample_settings_def key_request_def)
qed

theorem no_key_no_node_witness:
  "map_option b_result (boot (sample_machine sample_query) sample_world (sample_boot None)) = Some (Inl RuntimeError)"
  using no_key_no_node [of "sample_boot None" "sample_machine sample_query" sample_world]
  by (simp add: sample_boot_def) (simp add: sample_settings_def intervals_of_def)

text \<open>What is over once \<open>shutdown\<close> has run.\<close>

definition stopped :: "('p, 'c) node \<Rightarrow> bool" where
  "stopped n = (\<not> bh_running (r_backhaul (n_relay n)) \<and>
     {SyncThread, PingThread, DirectoryThread, HeartbeatThread} \<subseteq> n_dead n \<and>
     (\<forall>bp. r_backend_proxy (n_relay n) = Some bp \<longrightarrow> bp_jobs bp = []) \<and>
     (\<forall>pp. r_phone_ping (n_relay n) = Some pp \<longrightarrow> connect_timers pp = []) \<and>
     (\<forall>b w. r_transport (n_relay n) = Multi b w \<longrightarrow> \<not> running w))"

fun from_phone :: "node_event \<Rightarrow> bool" where
  "from_phone (BleInput e) = True"
| "from_phone (WifiInput c (Some d)) = True"
| "from_phone _ = False"

lemma shutdown_stops: "stopped (fst (shutdown move_fails ap n h))"
  by (cases "r_transport (n_relay n)")
    (auto simp: stopped_def shutdown_def Let_def bh_stop_def proxy_stop_def pp_stop_def wifi_stop_def)

lemma stopped_wifi:
  assumes "stopped n" and "\<And>w. \<not> running w \<Longrightarrow> fst (f w) = [] \<and> \<not> running (snd (f w))"
  shows "fst (phone_input m w (wifi_upcalls f (r_transport (n_relay n))) n) = [] \<and>
    stopped (snd (phone_input m w (wifi_upcalls f (r_transport (n_relay n))) n))"
proof (cases "r_transport (n_relay n)")
  case (Multi b wf)
  with assms(1) have "\<not> running wf" by (simp add: stopped_def)
  with assms Multi show ?thesis by (simp add: phone_input_def stopped_def case_prod_beta)
qed (use assms(1) in \<open>simp add: phone_input_def stopped_def\<close>)

lemma stopped_step:
  assumes "stopped n" and "\<not> from_phone e"
  shows "fst (node_step m w e n) = [] \<and> stopped (snd (node_step m w e n))"
proof (cases e)
  case (WifiAccept h p c)
  show ?thesis unfolding WifiAccept node_step.simps
    by (rule stopped_wifi [OF assms(1)]) (simp add: wifi_accept_def)
next
  case (WifiInput c d)
  then have "d = None" using assms(2) by (cases d) simp_all
  show ?thesis unfolding WifiInput \<open>d = None\<close> node_step.simps
    by (rule stopped_wifi [OF assms(1)])
      (auto simp: wifi_recv_def wifi_reader_exit_def Let_def split: option.split)
next
  case (NodeInput h p d)
  then show ?thesis using assms(1) by (simp add: node_input_def bh_input_def bh_recv_def stopped_def)
next
  case TimersDue
  then show ?thesis using assms(1)
    by (auto simp: timers_due_def fire_timers_def stopped_def split: option.split)
next
  case WorkerTurn
  then show ?thesis using assms(1)
    by (auto simp: worker_turn_def proxy_work_def http_made_def stopped_def split: option.split)
qed (use assms in \<open>simp_all add: stopped_def\<close>)



text \<open>A listening address without a port is accepted by the parser and ends the boot.\<close>

theorem bare_listen_host_crashes:
  assumes "parse_addr (WIFI_LISTEN (bi_cfg bi)) = Inr (host_addr h)" and "length h \<noteq> 2"
    and "ascii_lower (WIFI_LISTEN (bi_cfg bi)) \<noteq> lit ''off''"
  shows "wire_transport bi = (Inl ValueError, bi_host bi)"
  using assms by (simp add: wire_transport_def wifi_address_def)

end
