(* ===== verification/Logging.thy ===== *)
theory Logging
  imports Relay Config
begin

text \<open>
  What the node writes to \<open>node.log\<close>: the logging set-up of \<open>main.py\<close>, the records of \<open>relay.py\<close> along
  the branches of \<open>_handle_packet\<close>, and those of the proxy's requests. A record is a level, a logger and a
  message; the texts that CPython and meshlink-core print are arguments.
\<close>

section \<open>The set-up\<close>

datatype log_level = Debug | Info | Warning | Error

fun level_no :: "log_level \<Rightarrow> nat" where
  "level_no Debug = 10"
| "level_no Info = 20"
| "level_no Warning = 30"
| "level_no Error = 40"

fun level_name :: "log_level \<Rightarrow> pystr" where
  "level_name Debug = lit ''DEBUG''"
| "level_name Info = lit ''INFO''"
| "level_name Warning = lit ''WARNING''"
| "level_name Error = lit ''ERROR''"

record log_record =
  lr_level :: log_level
  lr_name :: pystr
  lr_message :: pystr

text \<open>\<open>%(asctime)s %(levelname)s %(name)s: %(message)s\<close>.\<close>

definition log_format :: "pystr \<Rightarrow> log_record \<Rightarrow> pystr" where
  "log_format asctime r = asctime @ [32] @ level_name (lr_level r) @ [32] @ lr_name r @ lit '': '' @ lr_message r"

datatype log_handler = LogFile | Console

record root_logger =
  rl_level :: log_level
  rl_handlers :: "log_handler list"

text \<open>\<open>_configure_logging\<close>: opening \<open>node.log\<close> can raise, the console cannot.\<close>

definition configure_logging :: "exn option \<Rightarrow> exn + root_logger" where
  "configure_logging file_fault =
     (case file_fault of
        Some e \<Rightarrow> Inl e
      | None \<Rightarrow> Inr \<lparr>rl_level = Info, rl_handlers = [LogFile, Console]\<rparr>)"

text \<open>What a handler writes for a record: nothing below the level of the root; a text it cannot encode is
  reported on \<open>stderr\<close> and lost.\<close>

definition written :: "root_logger \<Rightarrow> log_handler \<Rightarrow> pystr \<times> log_record \<Rightarrow> pystr" where
  "written lg h = (\<lambda>(asctime, r).
     if h \<notin> set (rl_handlers lg) \<or> level_no (lr_level r) < level_no (rl_level lg) then []
     else if \<not> encodable (log_format asctime r) then []
     else log_format asctime r @ [10])"

definition log_text :: "root_logger \<Rightarrow> log_handler \<Rightarrow> (pystr \<times> log_record) list \<Rightarrow> pystr" where
  "log_text lg h rs = concat (map (written lg h) rs)"

text \<open>What a reader of the file sees.\<close>

definition log_lines :: "pystr \<Rightarrow> pystr list" where
  "log_lines file = butlast (split_on 10 file)"

section \<open>The records of the relay\<close>

definition relay_info :: "pystr \<Rightarrow> log_record" where
  "relay_info message = \<lparr>lr_level = Info, lr_name = lit ''meshlink.relay'', lr_message = message\<rparr>"

text \<open>What is printed but computed elsewhere: \<open>repr\<close> of a text, the message of the exception that
  \<open>parse_packet\<close> raises, the pipeline's reason for a drop, the exception of a rejected token.\<close>

record log_texts =
  lt_repr :: "pystr \<Rightarrow> pystr"
  lt_why :: "bytes \<Rightarrow> pystr"
  lt_drop :: pystr
  lt_token :: pystr

definition received_record :: "log_texts \<Rightarrow> core \<Rightarrow> real \<Rightarrow> pystr \<Rightarrow> bytes \<Rightarrow> log_record" where
  "received_record lt c now peer_id raw =
     relay_info (lit ''received '' @ str_int (int (length raw)) @ lit ''-byte packet from '' @ peer_id @ lit '': '' @
       summarize_packet (lt_repr lt) (lt_why lt) c now raw)"

definition drop_record :: "log_texts \<Rightarrow> pystr \<Rightarrow> log_record" where
  "drop_record lt peer_id = relay_info (lit ''drop from '' @ peer_id @ lit '': '' @ lt_drop lt)"

definition accepted_record :: "log_texts \<Rightarrow> pystr \<Rightarrow> message \<Rightarrow> log_record" where
  "accepted_record lt peer_id msg =
     relay_info (lit ''accepted msg '' @ take 8 (hex_of (msg_id msg)) @ lit '' from '' @ peer_id @ lit '': '' @
       describe_payload (lt_repr lt) (msg_payload msg))"

definition arrow :: pystr where
  "arrow = [8594]"

definition relayed_record :: "pystr \<Rightarrow> message \<Rightarrow> bytes \<Rightarrow> log_record" where
  "relayed_record peer_id msg relayed =
     relay_info (lit ''relayed msg '' @ take 8 (hex_of (msg_id msg)) @ lit '' from '' @ peer_id @
       lit '' (zone '' @ str_int (msg_zone msg) @ lit '', ttl '' @ str_int (msg_ttl msg) @ arrow @
       str_int (uint (relayed ! TTL_OFFSET)) @ lit '', spray_L '' @ str_int (spray_l msg) @ arrow @
       str_int (uint (relayed ! SPRAY_OFFSET)) @ lit '')'')"

definition presentation_drop_record :: "log_texts \<Rightarrow> pystr \<Rightarrow> log_record" where
  "presentation_drop_record lt peer_id = relay_info (lit ''presentation drop from '' @ peer_id @ lit '': '' @ lt_drop lt)"

definition presentation_rejected_record :: "log_texts \<Rightarrow> pystr \<Rightarrow> log_record" where
  "presentation_rejected_record lt peer_id =
     relay_info (lit ''attestation presentation from '' @ peer_id @ lit '' rejected: '' @ lt_token lt)"

definition presentation_accepted_record :: "pystr \<Rightarrow> bytes \<Rightarrow> log_record" where
  "presentation_accepted_record peer_id key =
     relay_info (lit ''attestation presentation from '' @ peer_id @ lit '' accepted '' @ [8212] @ lit '' sender '' @
       take 16 (hex_of key) @ lit '' cached, not delivered to phones'')"

text \<open>Which of them a packet causes: the branches of \<open>_handle_packet\<close> and \<open>_handle_presentation\<close>.\<close>

definition presentation_records ::
  "('p, 'c) pipeline \<Rightarrow> log_texts \<Rightarrow> world \<Rightarrow> pystr \<Rightarrow> bytes \<Rightarrow> 'c \<Rightarrow> ('p, 'c) relay \<Rightarrow> log_record list" where
  "presentation_records pl lt w peer_id raw cache s =
     (case fst (process pl (w_now w) None (r_presentation s) raw) of
        Drop \<Rightarrow> [presentation_drop_record lt peer_id]
      | Deliver msg fwd \<Rightarrow>
          (case decode_ascii (msg_payload msg) of
             None \<Rightarrow> [presentation_rejected_record lt peer_id]
           | Some token \<Rightarrow>
               (case fst (add_token pl (w_now w) token cache) of
                  None \<Rightarrow> [presentation_rejected_record lt peer_id]
                | Some key \<Rightarrow> [presentation_accepted_record peer_id key])))"

text \<open>The line after the fan-out is written when nothing raised before it and there was a hop left.\<close>

definition onward_records ::
  "world \<Rightarrow> pystr \<Rightarrow> bytes \<Rightarrow> message \<Rightarrow> bytes option \<Rightarrow> ('p, 'c) relay \<Rightarrow> log_record list" where
  "onward_records w peer_id raw msg fwd s =
     (case relay_onward w peer_id raw msg fwd s of
        ((out, None), s') \<Rightarrow>
          (case relayed_copy raw fwd of
             Inr copy \<Rightarrow> if copy ! TTL_OFFSET = 0 then [] else [relayed_record peer_id msg copy]
           | Inl e \<Rightarrow> [])
      | ((out, Some e), s') \<Rightarrow> [])"

definition accepted_records ::
  "log_texts \<Rightarrow> world \<Rightarrow> pystr \<Rightarrow> bytes \<Rightarrow> message \<Rightarrow> bytes option \<Rightarrow> ('p, 'c) relay \<Rightarrow> log_record list" where
  "accepted_records lt w peer_id raw msg fwd s =
     accepted_record lt peer_id msg #
     (case terminate_here w peer_id msg s of
        ((out, Inr False), s') \<Rightarrow> onward_records w peer_id raw msg fwd s'
      | _ \<Rightarrow> [])"

definition packet_records ::
  "('p, 'c) pipeline \<Rightarrow> log_texts \<Rightarrow> world \<Rightarrow> pystr \<Rightarrow> bytes \<Rightarrow> ('p, 'c) relay \<Rightarrow> log_record list" where
  "packet_records pl lt w peer_id raw s =
     (if is_telemetry_frame raw \<or> is_backend_proxy_frame raw then []
      else received_record lt (w_core w) (w_now w) peer_id raw #
        (case (if is_attestation_presentation (w_core w) raw then r_attestation s else None) of
           Some cache \<Rightarrow> presentation_records pl lt w peer_id raw cache s
         | None \<Rightarrow>
             (case process pl (w_now w) (r_attestation s) (r_pipeline s) raw of
                (Drop, p) \<Rightarrow> [drop_record lt peer_id]
              | (Deliver msg fwd, p) \<Rightarrow>
                  accepted_records lt w peer_id raw msg fwd (count (accepted_update Suc \<circ> received_update Suc) (s\<lparr>r_pipeline := p\<rparr>)))))"

text \<open>The log of a run: each packet with the time it was handled at and the texts of its records.\<close>

type_synonym arrival = "pystr \<times> log_texts \<times> world \<times> pystr \<times> bytes"

fun relay_log :: "('p, 'c) pipeline \<Rightarrow> arrival list \<Rightarrow> ('p, 'c) relay \<Rightarrow> (pystr \<times> log_record) list" where
  "relay_log pl [] s = []"
| "relay_log pl ((asctime, lt, w, peer_id, raw) # es) s =
     map (Pair asctime) (packet_records pl lt w peer_id raw s) @
     relay_log pl es (snd (handle_packet pl w peer_id raw s))"

section \<open>The records of the proxy\<close>

text \<open>\<open>_execute\<close>: a refused path is printed with \<open>repr\<close>, an accepted one with \<open>%s\<close>.\<close>

definition proxy_record :: "log_level \<Rightarrow> pystr \<Rightarrow> log_record" where
  "proxy_record level message = \<lparr>lr_level = level, lr_name = lit ''meshlink.backend_proxy'', lr_message = message\<rparr>"

definition proxied :: "pystr \<Rightarrow> pystr \<Rightarrow> pystr \<Rightarrow> pystr" where
  "proxied method path rest = lit ''proxy '' @ method @ [32] @ path @ rest"

text \<open>The record after the backend has answered; \<open>why\<close> is the exception's text.\<close>

definition answer_record :: "pystr \<Rightarrow> http_result \<Rightarrow> pystr \<Rightarrow> pystr \<Rightarrow> log_record option" where
  "answer_record why result method path =
     (let done = (\<lambda>status body.
            if MAX_RESPONSE_BYTES < length body
            then proxy_record Warning (proxied method path (lit '' response over '' @ str_int (int MAX_RESPONSE_BYTES) @
                   lit '' bytes '' @ [8212] @ lit '' refused''))
            else proxy_record Info (proxied method path (lit '' -> '' @ str_int status @ lit '' ('' @
                   str_int (int (length body)) @ lit '' bytes)'')))
      in case result of
           Response status body \<Rightarrow> Some (done status body)
         | Rejection status (Inr body) \<Rightarrow> Some (done status body)
         | Rejection status (Inl e) \<Rightarrow> None
         | NoResponse \<Rightarrow> Some (proxy_record Warning (proxied method path (lit '' failed: '' @ why))))"

definition proxy_records ::
  "(pystr \<Rightarrow> pystr) \<Rightarrow> pystr \<Rightarrow> (json \<Rightarrow> pystr) \<Rightarrow> (http_request \<Rightarrow> http_result) \<Rightarrow> pystr
   \<Rightarrow> (pystr, json) dict \<Rightarrow> log_record list" where
  "proxy_records repr why rp uplink base_url req =
     (let method = dict_get req (lit ''method''); path = dict_get req (lit ''path'')
      in if method \<notin> JStr ` set ALLOWED_METHODS then []
         else if \<not> path_allowed path
         then [proxy_record Info (lit ''proxy refused path '' @ (case path of JStr p \<Rightarrow> repr p | v \<Rightarrow> py_str rp v))]
         else (case execute (\<lambda>_. []) rp uplink base_url req of
             (None, r) \<Rightarrow> []
           | (Some rq, r) \<Rightarrow>
               (case answer_record why (uplink rq) (json_text method) (json_text path) of
                  None \<Rightarrow> [] | Some record \<Rightarrow> [record])))"

section \<open>Plain texts\<close>

text \<open>A text that a handler can encode and that does not end the line.\<close>

definition plain_text :: "pystr \<Rightarrow> bool" where
  "plain_text s = (encodable s \<and> 10 \<notin> set s)"

lemma plain_text_append [simp]: "plain_text (a @ b) \<longleftrightarrow> plain_text a \<and> plain_text b"
  by (auto simp: plain_text_def encodable_def)

lemma plain_text_simps [simp]:
  "plain_text []" "plain_text (c # s) \<longleftrightarrow> c < 1114112 \<and> \<not> is_surrogate c \<and> c \<noteq> 10 \<and> plain_text s"
  by (auto simp: plain_text_def encodable_def)

lemma plain_text_take: "plain_text s \<Longrightarrow> plain_text (take n s)"
  by (auto simp: plain_text_def encodable_def list_all_iff dest: in_set_takeD)

lemma plain_text_lit: "list_all (\<lambda>c. of_char c < (128 :: nat) \<and> of_char c \<noteq> (10 :: nat)) s \<Longrightarrow> plain_text (lit s)"
  by (auto simp: plain_text_def encodable_def lit_def list_all_iff is_surrogate_def)

lemma plain_text_str_int [simp]: "plain_text (str_int n)"
  using str_int_plain [of _ n] by (fastforce simp: plain_text_def encodable_def list_all_iff is_digit_def is_surrogate_def)

lemma set_hex_of: "x \<in> set (hex_of bs) \<Longrightarrow> \<exists>d<16. x = hexdig d"
proof -
  assume "x \<in> set (hex_of bs)"
  then obtain b :: byte where "x = hexdig (unat b div 16) \<or> x = hexdig (unat b mod 16)" by (auto simp: hex_of_def)
  moreover have "unat b div 16 < 16" "unat b mod 16 < 16" using unsigned_less [of b, where ?'a = nat] by auto
  ultimately show ?thesis by blast
qed

lemma plain_text_hex [simp]: "plain_text (hex_of bs)"
proof -
  have "48 \<le> x \<and> x \<le> 102" if "x \<in> set (hex_of bs)" for x using set_hex_of [OF that] hexdig_bounds by fastforce
  then show ?thesis by (force simp: plain_text_def encodable_def list_all_iff is_surrogate_def)
qed

text \<open>\<open>repr\<close> escapes every character that is not printable; the other texts are one line each.\<close>

definition printable_texts :: "log_texts \<Rightarrow> bool" where
  "printable_texts lt =
     ((\<forall>s. plain_text (lt_repr lt s)) \<and> (\<forall>raw. plain_text (lt_why lt raw)) \<and>
      plain_text (lt_drop lt) \<and> plain_text (lt_token lt))"

text \<open>A record of the relay that the root logger passes on and that is one line.\<close>

definition plain_record :: "log_record \<Rightarrow> bool" where
  "plain_record r = (lr_level r \<noteq> Debug \<and> plain_text (lr_name r) \<and> plain_text (lr_message r))"

lemma plain_relay_info [simp]: "plain_record (relay_info msg) \<longleftrightarrow> plain_text msg"
  by (simp add: plain_record_def relay_info_def plain_text_lit)

lemma plain_describe: "\<forall>s. plain_text (rp s) \<Longrightarrow> plain_text (describe_payload rp b)"
  by (simp add: describe_payload_def plain_text_lit plain_text_take is_surrogate_def split: option.split)

lemma plain_summary:
  "\<forall>s. plain_text (rp s) \<Longrightarrow> \<forall>raw. plain_text (why raw) \<Longrightarrow> plain_text (summarize_packet rp why c now raw)"
  by (simp add: summarize_packet_def plain_text_lit plain_text_take plain_describe split: option.split)

lemma plain_arrow [simp]: "plain_text arrow"
  by (simp add: arrow_def is_surrogate_def)

lemma plain_records:
  assumes "printable_texts lt" and "plain_text peer_id"
  shows "plain_record (received_record lt c now peer_id raw)" "plain_record (drop_record lt peer_id)"
    "plain_record (accepted_record lt peer_id msg)" "plain_record (relayed_record peer_id msg copy)"
    "plain_record (presentation_drop_record lt peer_id)" "plain_record (presentation_rejected_record lt peer_id)"
    "plain_record (presentation_accepted_record peer_id key)"
  using assms
  by (simp_all add: printable_texts_def received_record_def drop_record_def accepted_record_def relayed_record_def
      presentation_drop_record_def presentation_rejected_record_def presentation_accepted_record_def plain_text_lit
      plain_text_take plain_describe plain_summary is_surrogate_def)

text \<open>The records after the first.\<close>

inductive later_record :: "log_texts \<Rightarrow> pystr \<Rightarrow> log_record \<Rightarrow> bool" for lt peer_id where
  dropped: "later_record lt peer_id (drop_record lt peer_id)"
| accepted: "later_record lt peer_id (accepted_record lt peer_id msg)"
| relayed: "later_record lt peer_id (relayed_record peer_id msg copy)"
| presentation_dropped: "later_record lt peer_id (presentation_drop_record lt peer_id)"
| presentation_rejected: "later_record lt peer_id (presentation_rejected_record lt peer_id)"
| presentation_accepted: "later_record lt peer_id (presentation_accepted_record peer_id key)"

lemma presentation_later: "list_all (later_record lt peer_id) (presentation_records pl lt w peer_id raw cache s)"
  by (simp add: presentation_records_def later_record.intros split: outcome.split option.split)

lemma accepted_later: "list_all (later_record lt peer_id) (accepted_records lt w peer_id raw msg fwd s)"
  by (simp add: accepted_records_def onward_records_def later_record.intros split: prod.split sum.split bool.split option.split)

lemma packet_records_later:
  obtains rest where "packet_records pl lt w peer_id raw s =
      (if is_telemetry_frame raw \<or> is_backend_proxy_frame raw then []
       else received_record lt (w_core w) (w_now w) peer_id raw # rest)" "list_all (later_record lt peer_id) rest"
proof
  show "list_all (later_record lt peer_id) (tl (received_record lt (w_core w) (w_now w) peer_id raw #
      (case (if is_attestation_presentation (w_core w) raw then r_attestation s else None) of
           Some cache \<Rightarrow> presentation_records pl lt w peer_id raw cache s
         | None \<Rightarrow>
             (case process pl (w_now w) (r_attestation s) (r_pipeline s) raw of
                (Drop, p) \<Rightarrow> [drop_record lt peer_id]
              | (Deliver msg fwd, p) \<Rightarrow>
                  accepted_records lt w peer_id raw msg fwd (count (accepted_update Suc \<circ> received_update Suc) (s\<lparr>r_pipeline := p\<rparr>))))))"
    by (simp add: presentation_later accepted_later later_record.intros del: fun_upd_apply comp_apply
        split: option.split prod.split outcome.split)
qed (simp add: packet_records_def)

lemma plain_packet_records:
  assumes "printable_texts lt" and "plain_text peer_id" and "r \<in> set (packet_records pl lt w peer_id raw s)"
  shows "plain_record r"
proof -
  have "plain_record x" if "later_record lt peer_id x" for x
    using that plain_records [OF assms(1,2)] by cases simp_all
  moreover obtain rest where "packet_records pl lt w peer_id raw s =
      (if is_telemetry_frame raw \<or> is_backend_proxy_frame raw then []
       else received_record lt (w_core w) (w_now w) peer_id raw # rest)" "list_all (later_record lt peer_id) rest"
    by (rule packet_records_later)
  ultimately show ?thesis using assms(3) plain_records [OF assms(1,2)] by (auto simp: list_all_iff split: if_splits)
qed

section \<open>Lines\<close>

lemma log_text_lines:
  assumes "configure_logging None = Inr lg" and "\<forall>(t, r)\<in>set rs. plain_text t \<and> plain_record r"
  shows "log_lines (log_text lg LogFile rs) = map (\<lambda>(t, r). log_format t r) rs"
proof -
  have lg: "lg = \<lparr>rl_level = Info, rl_handlers = [LogFile, Console]\<rparr>" using assms(1) by (simp add: configure_logging_def)
  have f: "plain_text (log_format t r)" if "plain_text t" "plain_record r" for t r
    using that by (cases "lr_level r") (simp_all add: log_format_def plain_record_def plain_text_lit is_surrogate_def)
  have "log_text lg LogFile rs = join [10] (map (\<lambda>(t, r). log_format t r) rs @ [[]]) \<and>
      (\<forall>l\<in>set (map (\<lambda>(t, r). log_format t r) rs @ [[]]). 10 \<notin> set l)"
    using assms(2)
  proof (induction rs)
    case (Cons x rs)
    obtain t r where x: "x = (t, r)" by fastforce
    from Cons.prems x f have p: "plain_text (log_format t r)" "lr_level r \<noteq> Debug" by (auto simp: plain_record_def)
    then have "written lg LogFile x = log_format t r @ [10]"
      by (cases "lr_level r") (simp_all add: written_def x lg plain_text_def)
    with Cons p show ?case by (cases rs) (auto simp: log_text_def x plain_text_def)
  qed (simp add: log_text_def)
  then show ?thesis by (simp add: log_lines_def split_on_join)
qed
section \<open>Reading the log\<close>

text \<open>Of a line that reports the arrival of a packet: the sender and the payload. The words of such a line
  are the date, the time, the level, the logger, \<open>received\<close>, the length, \<open>packet\<close>, \<open>from\<close>, the peer,
  \<open>msg_id=\<close>, \<open>sender=\<close>, \<open>ephem=\<close>, \<open>ttl=\<close>, \<open>zone=\<close>, \<open>msg_type=\<close>, \<open>age=\<close> and what is left, \<open>payload=\<close>.\<close>

definition trail_entry :: "pystr \<Rightarrow> (pystr \<times> pystr) option" where
  "trail_entry line =
     (let ws = split_on 32 line
      in if 16 < length ws \<and> ws ! 4 = lit ''received'' \<and> starts_with (ws ! 9) (lit ''msg_id='')
         then Some (drop 7 (ws ! 10), drop 8 (join [32] (drop 16 ws)))
         else None)"

definition trail :: "pystr \<Rightarrow> (pystr \<times> pystr) list" where
  "trail file = List.map_filter trail_entry (log_lines file)"

lemma split_on_nonempty [simp]: "split_on c s \<noteq> []"
  by (induction s) (auto split: list.split)

lemma join_split_on: "join [c] (split_on c s) = s"
proof (induction s)
  case (Cons x s)
  then show ?case by (cases "split_on c s"; cases "tl (split_on c s)") auto
qed simp

lemma split_on_sep: "split_on c (a @ c # b) = split_on c a @ split_on c b"
proof (induction a)
  case (Cons x a)
  then show ?case by (cases "split_on c a") simp_all
qed simp

lemma split_on_join_last:
  "\<forall>f\<in>set fs. c \<notin> set f \<Longrightarrow> split_on c (concat (map (\<lambda>f. f @ [c]) fs) @ s) = fs @ split_on c s"
  by (induction fs) (simp_all add: split_on_field)

lemma no_blank: "list_all (\<lambda>c. of_char c \<noteq> (32 :: nat)) s \<Longrightarrow> 32 \<notin> set (lit s)"
  by (auto simp: lit_def list_all_iff)

lemma no_blank_str_int: "32 \<notin> set (str_int n)"
  using str_int_plain [of 32 n] by (auto simp: is_digit_def)

lemma no_blank_hex: "32 \<notin> set (hex_of bs)"
  using set_hex_of [of 32 bs] hexdig_bounds by fastforce

lemma line_words:
  assumes "length (split_on 32 t) = 2"
  shows "\<exists>d k. split_on 32 (log_format t (relay_info msg)) = [d, k, lit ''INFO'', lit ''meshlink.relay:''] @ split_on 32 msg"
proof -
  obtain d k where t: "split_on 32 t = [d, k]" using assms by (auto simp: length_Suc_conv numeral_2_eq_2)
  have "log_format t (relay_info msg) = t @ 32 # concat (map (\<lambda>f. f @ [32]) [lit ''INFO'', lit ''meshlink.relay:'']) @ msg"
    by (simp add: log_format_def relay_info_def) (simp add: lit_def)
  moreover have "\<forall>f\<in>set [lit ''INFO'', lit ''meshlink.relay:'']. 32 \<notin> set f" by (simp add: no_blank)
  ultimately show ?thesis by (simp add: split_on_sep t split_on_join_last del: concat.simps list.map)
qed

lemma message_words:
  assumes "length (split_on 32 t) = 2" and "r = relay_info (concat (map (\<lambda>f. f @ [32]) fs) @ rest)"
    and "\<forall>f\<in>set fs. 32 \<notin> set f"
  obtains d k where "split_on 32 (log_format t r) = [d, k, lit ''INFO'', lit ''meshlink.relay:''] @ fs @ split_on 32 rest"
  using line_words [OF assms(1)] split_on_join_last [OF assms(3)] assms(2) by metis

lemma trail_entry_other:
  assumes "length (split_on 32 t) = 2" and "32 \<notin> set word" and "word \<noteq> lit ''received''"
  shows "trail_entry (log_format t (relay_info (word @ 32 # rest))) = None"
proof -
  obtain d k where "split_on 32 (log_format t (relay_info (word @ 32 # rest))) =
      [d, k, lit ''INFO'', lit ''meshlink.relay:''] @ word # split_on 32 rest"
    using line_words [OF assms(1)] split_on_field [OF assms(2)] by metis
  then show ?thesis using assms(3) by (simp add: trail_entry_def)
qed

lemma trail_entry_later:
  assumes "length (split_on 32 t) = 2" and "later_record lt peer_id r"
  shows "trail_entry (log_format t r) = None"
proof -
  have w: "trail_entry (log_format t (relay_info (lit word @ rest))) = None"
    if "list_all (\<lambda>c. of_char c \<noteq> (32 :: nat)) word" "word \<noteq> ''received''" "rest = 32 # x" for word rest x
    using trail_entry_other [OF assms(1) no_blank [OF that(1)]] that by simp
  have l: "lit (a @ CHR '' '' # b) = lit a @ 32 # lit b" for a b by (simp add: lit_def)
  from assms(2) show ?thesis
  proof cases
    case dropped
    show ?thesis unfolding dropped drop_record_def using w [of "''drop''"] l [of "''drop''"] by simp
  next
    case (accepted msg)
    show ?thesis unfolding accepted accepted_record_def using w [of "''accepted''"] l [of "''accepted''"] by simp
  next
    case (relayed msg copy)
    show ?thesis unfolding relayed relayed_record_def using w [of "''relayed''"] l [of "''relayed''"] by simp
  next
    case presentation_dropped
    show ?thesis unfolding presentation_dropped presentation_drop_record_def
      using w [of "''presentation''"] l [of "''presentation''"] by simp
  next
    case presentation_rejected
    show ?thesis unfolding presentation_rejected presentation_rejected_record_def
      using w [of "''attestation''"] l [of "''attestation''"] by simp
  next
    case (presentation_accepted key)
    show ?thesis unfolding presentation_accepted presentation_accepted_record_def
      using w [of "''attestation''"] l [of "''attestation''"] by simp
  qed
qed
lemma trail_entry_words:
  assumes "split_on 32 line = [w0, w1, w2, w3, lit ''received'', w5, w6, w7, w8, lit ''msg_id='' @ x, lit ''sender='' @ y,
      w11, w12, w13, w14, w15] @ split_on 32 (lit ''payload='' @ z)"
  shows "trail_entry line = Some (y, z)"
proof -
  have "0 < length (split_on 32 (lit ''payload='' @ z))" by simp
  then have "16 < length (split_on 32 line)" unfolding assms by (simp del: length_greater_0_conv)
  moreover have "split_on 32 line ! 4 = lit ''received''" "split_on 32 line ! 9 = lit ''msg_id='' @ x"
    "split_on 32 line ! 10 = lit ''sender='' @ y" unfolding assms by simp_all
  moreover have "join [32] (drop 16 (split_on 32 line)) = lit ''payload='' @ z" unfolding assms by (simp add: join_split_on)
  ultimately show ?thesis unfolding trail_entry_def Let_def by (simp add: starts_with_def)
qed

lemma trail_entry_unparseable:
  assumes "split_on 32 line = [w0, w1, w2, w3, w4, w5, w6, w7, w8, lit ''<unparseable,''] @ ws"
  shows "trail_entry line = None"
proof -
  have "split_on 32 line ! 9 = lit ''<unparseable,''" unfolding assms by simp
  moreover have "\<not> starts_with (lit ''<unparseable,'') (lit ''msg_id='')" by (simp add: starts_with_def lit_def)
  ultimately show ?thesis by (simp add: trail_entry_def Let_def)
qed

lemma trail_entry_received:
  assumes "length (split_on 32 t) = 2" and "32 \<notin> set peer_id"
  shows "trail_entry (log_format t (received_record lt c now peer_id raw)) =
    map_option (\<lambda>m. (take 16 (hex_of (sender_key m)), describe_payload (lt_repr lt) (msg_payload m))) (parse_packet c raw)"
proof -
  let ?n = "str_int (int (length raw)) @ lit ''-byte''"
  have l: "lit (a @ b) = lit a @ lit b" for a b by (simp add: lit_def)
  let ?start = "[lit ''received'', ?n, lit ''packet'', lit ''from'', peer_id @ lit '':'']"
  have nb: "\<forall>f\<in>set ?start. 32 \<notin> set f" using assms(2) by (simp add: no_blank no_blank_str_int)
  show ?thesis
  proof (cases "parse_packet c raw")
    case None
    let ?fs = "?start @ [lit ''<unparseable,'']"
    let ?rest = "str_int (int (length raw)) @ lit '' bytes: '' @ lt_why lt raw @ lit ''>''"
    have m: "received_record lt c now peer_id raw = relay_info (concat (map (\<lambda>f. f @ [32]) ?fs) @ ?rest)"
      by (simp add: received_record_def summarize_packet_def None) (simp add: lit_def)
    have "\<forall>f\<in>set ?fs. 32 \<notin> set f" using nb by (simp add: no_blank)
    from message_words [OF assms(1) m this] obtain d k where
      "split_on 32 (log_format t (received_record lt c now peer_id raw)) =
        [d, k, lit ''INFO'', lit ''meshlink.relay:''] @ ?fs @ split_on 32 ?rest" .
    then show ?thesis unfolding None option.map by (intro trail_entry_unparseable) simp
  next
    case (Some msg)
    let ?fs = "?start @ [lit ''msg_id='' @ take 8 (hex_of (msg_id msg)), lit ''sender='' @ take 16 (hex_of (sender_key msg)),
      lit ''ephem='' @ take 8 (hex_of (ephem_id msg)), lit ''ttl='' @ str_int (msg_ttl msg), lit ''zone='' @ str_int (msg_zone msg),
      lit ''msg_type='' @ str_int (msg_type msg), lit ''age='' @ str_int (py_trunc now - msg_timestamp msg) @ lit ''s'']"
    let ?rest = "lit ''payload='' @ describe_payload (lt_repr lt) (msg_payload msg)"
    have m: "received_record lt c now peer_id raw = relay_info (concat (map (\<lambda>f. f @ [32]) ?fs) @ ?rest)"
      by (simp add: received_record_def summarize_packet_def Some) (simp add: lit_def)
    have "\<forall>f\<in>set ?fs. 32 \<notin> set f"
      using nb by (auto simp: no_blank no_blank_str_int no_blank_hex dest!: in_set_takeD)
    from message_words [OF assms(1) m this] obtain d k where
      "split_on 32 (log_format t (received_record lt c now peer_id raw)) =
        [d, k, lit ''INFO'', lit ''meshlink.relay:''] @ ?fs @ split_on 32 ?rest" .
    then show ?thesis unfolding Some option.map by (intro trail_entry_words) simp
  qed
qed

section \<open>Payloads\<close>

text \<open>Strict UTF-8 loses nothing: what decodes encodes back to the same bytes.\<close>

lemma base64_digits: "r < 64 \<Longrightarrow> (q * 64 + r) div 64 = q \<and> (q * 64 + r) mod 64 = (r :: nat)"
  by simp

lemma utf8_point_char:
  assumes "utf8_need (hd bs) = length bs" and "bs \<noteq> []" and "utf8_point False bs = Some c"
  shows "utf8_char c = map of_nat bs \<and> c < 1114112 \<and> \<not> is_surrogate c"
proof -
  obtain x xs where bs: "bs = x # xs" using assms(2) by (cases bs) simp_all
  have n: "length bs \<in> {1, 2, 3, 4}" using assms(1,2) by (auto simp: utf8_need_def split: if_splits)
  have c: "c = cont_val (utf8_lead x) xs" "list_all is_cont xs" "c < 1114112" "\<not> is_surrogate c"
    "length bs = 3 \<Longrightarrow> 2048 \<le> c" "length bs = 4 \<Longrightarrow> 65536 \<le> c"
    using assms(3) by (auto simp: utf8_point_def bs Let_def split: if_splits)
  from n consider "xs = []" | a where "xs = [a]" | a b where "xs = [a, b]" | a b d where "xs = [a, b, d]"
    by (auto simp: bs length_Suc_conv eval_nat_numeral)
  then have "utf8_char c = map of_nat bs"
  proof cases
    case 1
    then show ?thesis using assms(1) c(1) by (auto simp: bs utf8_need_def utf8_lead_def utf8_char_def split: if_splits)
  next
    case (2 a)
    then have x: "194 \<le> x" "x \<le> 223" "128 \<le> a" "a \<le> 191"
      using assms(1) c(2) by (auto simp: bs utf8_need_def is_cont_def split: if_splits)
    then have c2: "c = (x - 192) * 64 + (a - 128)" using c(1) 2 by (simp add: utf8_lead_def)
    then have "c div 64 = x - 192" "c mod 64 = a - 128" using base64_digits [of "a - 128" "x - 192"] x by auto
    moreover have "128 \<le> c" "c < 2048" using c2 x by linarith+
    ultimately show ?thesis using x by (simp add: bs 2 utf8_char_def)
  next
    case (3 a b)
    then have x: "224 \<le> x" "x \<le> 239" "128 \<le> a" "a \<le> 191" "128 \<le> b" "b \<le> 191"
      using assms(1) c(2) by (auto simp: bs utf8_need_def is_cont_def split: if_splits)
    define k where "k = (x - 224) * 64 + (a - 128)"
    have "c = k * 64 + (b - 128)" using c(1) 3 x by (simp add: utf8_lead_def k_def)
    moreover have "c div 64 = k" "c mod 64 = b - 128"
      unfolding calculation using base64_digits [of "b - 128" k] x by auto
    moreover have "k div 64 = x - 224" "k mod 64 = a - 128"
      unfolding k_def using base64_digits [of "a - 128" "x - 224"] x by auto
    moreover have "c div 4096 = k div 64" using calculation(2) by (simp add: div_mult2_eq [of c 64 64, simplified])
    moreover have "2048 \<le> c" "c < 65536" using c(5) x calculation(1) by (simp_all add: bs 3 k_def)
    ultimately show ?thesis using x by (simp add: bs 3 utf8_char_def)
  next
    case (4 a b d)
    then have x: "240 \<le> x" "x \<le> 244" "128 \<le> a" "a \<le> 191" "128 \<le> b" "b \<le> 191" "128 \<le> d" "d \<le> 191"
      using assms(1) c(2) by (auto simp: bs utf8_need_def is_cont_def split: if_splits)
    define j where "j = (x - 240) * 64 + (a - 128)"
    define k where "k = j * 64 + (b - 128)"
    have "c = k * 64 + (d - 128)" using c(1) 4 x by (simp add: utf8_lead_def k_def j_def)
    moreover have "c div 64 = k" "c mod 64 = d - 128"
      unfolding calculation using base64_digits [of "d - 128" k] x by auto
    moreover have "k div 64 = j" "k mod 64 = b - 128"
      unfolding k_def using base64_digits [of "b - 128" j] x by auto
    moreover have "j div 64 = x - 240" "j mod 64 = a - 128"
      unfolding j_def using base64_digits [of "a - 128" "x - 240"] x by auto
    moreover have "c div 4096 = j" using calculation(2,4) by (simp add: div_mult2_eq [of c 64 64, simplified])
    moreover have "c div 262144 = j div 64" using calculation(8) by (simp add: div_mult2_eq [of c 4096 64, simplified])
    moreover have "65536 \<le> c" using c(6) by (simp add: bs 4)
    ultimately show ?thesis using x by (simp add: bs 4 utf8_char_def)
  qed
  with c show ?thesis by simp
qed

lemma utf8_decode_encodes:
  "utf8_decode False bs = Some s \<Longrightarrow> encodable s \<and> concat (map utf8_char s) = map of_nat bs"
proof (induction "False" bs arbitrary: s rule: utf8_decode.induct)
  case (1 bs)
  show ?case
  proof (cases "bs = []")
    case False
    let ?n = "utf8_need (hd bs)"
    from 1(2) False obtain c s' where n: "?n \<noteq> 0" "?n \<le> length bs" "utf8_point False (take ?n bs) = Some c"
      "utf8_decode False (drop ?n bs) = Some s'" "s = c # s'"
      by (subst (asm) utf8_decode.simps) (auto simp: Let_def split: if_splits option.splits)
    have h: "hd (take ?n bs) = hd bs" using n False by (cases bs; cases ?n) auto
    have "utf8_char c = map of_nat (take ?n bs) \<and> c < 1114112 \<and> \<not> is_surrogate c"
      using n False by (intro utf8_point_char) (auto simp: h)
    moreover have "encodable s' \<and> concat (map utf8_char s') = map of_nat (drop ?n bs)"
      using 1(1) [OF False refl _ n(3,4)] n(1,2) by simp
    ultimately show ?thesis by (simp add: n(5) encodable_def flip: map_append)
  qed (use 1(2) in \<open>simp add: utf8_decode.simps encodable_def\<close>)
qed

lemma decode_utf8_encodes: "decode_utf8 b = Some s \<Longrightarrow> utf8_encode s = Inr b"
proof -
  assume "decode_utf8 b = Some s"
  then have "encodable s" "concat (map utf8_char s) = map of_nat (map unat b)"
    using utf8_decode_encodes unfolding decode_utf8_def by blast+
  moreover have "map of_nat (map unat b) = b" by (induction b) simp_all
  ultimately show ?thesis by (simp add: utf8_encode_def)
qed

lemma hex_of_inject: "hex_of a = hex_of b \<Longrightarrow> a = b"
  by (metis fromhex_hex_of option.inject)

text \<open>So the text of a payload of at most 32 bytes is the payload: it is quoted or in hexadecimal.\<close>

definition quotes :: "(pystr \<Rightarrow> pystr) \<Rightarrow> bool" where
  "quotes rp = (inj rp \<and> (\<forall>s. \<exists>r. rp s = 39 # r \<or> rp s = 34 # r))"

lemma payload_text_inject:
  assumes "quotes rp" and "length a \<le> 32" and "length b \<le> 32"
    and "describe_payload rp a = describe_payload rp b"
  shows "a = b"
proof -
  have q: "rp s \<noteq> 60 # x" for s x
  proof -
    obtain r where "rp s = 39 # r \<or> rp s = 34 # r" using assms(1) unfolding quotes_def by blast
    then show ?thesis by auto
  qed
  then have q': "60 # x \<noteq> rp s" for s x by metis
  have lt: "lit ''<'' @ x = 60 # x" for x by (simp add: lit_def)
  show ?thesis
  proof (cases "decode_utf8 a"; cases "decode_utf8 b")
    fix s s' assume s: "decode_utf8 a = Some s" "decode_utf8 b = Some s'"
    then have "s = s'" using assms(1,4) by (simp add: describe_payload_def quotes_def inj_eq)
    then show ?thesis using decode_utf8_encodes [OF s(1)] decode_utf8_encodes [OF s(2)] by simp
  next
    assume n: "decode_utf8 a = None" "decode_utf8 b = None"
    have f: "describe_payload rp x = (lit ''<'' @ str_int (int (length x)) @ lit '' bytes:'') @ 32 # hex_of x @ lit ''>''"
      if "decode_utf8 x = None" "length x \<le> 32" for x
      using that by (simp add: describe_payload_def) (simp add: lit_def)
    have "split_on 32 (describe_payload rp x) ! 2 = hex_of x @ lit ''>''" if "decode_utf8 x = None" "length x \<le> 32" for x
    proof -
      have h: "split_on 32 (hex_of x @ lit ''>'') = [hex_of x @ lit ''>'']"
        by (rule split_on_plain) (simp add: no_blank_hex no_blank)
      let ?fs = "[lit ''<'' @ str_int (int (length x)), lit ''bytes:'']"
      have "describe_payload rp x = concat (map (\<lambda>f. f @ [32]) ?fs) @ hex_of x @ lit ''>''"
        unfolding f [OF that] by (simp add: lit_def)
      moreover have "\<forall>f\<in>set ?fs. 32 \<notin> set f" by (simp add: no_blank no_blank_str_int)
      ultimately have "split_on 32 (describe_payload rp x) = ?fs @ [hex_of x @ lit ''>'']"
        using split_on_join_last [of ?fs 32 "hex_of x @ lit ''>''"] h by simp
      then show ?thesis by simp
    qed
    then have "hex_of a @ lit ''>'' = hex_of b @ lit ''>''" using n assms(2-4) by metis
    then show ?thesis using hex_of_inject by simp
  qed (use assms(4) q q' in \<open>auto simp: describe_payload_def lt\<close>)
qed
section \<open>Properties\<close>

lemma relay_log_plain:
  assumes "\<forall>(t, lt, w, p, raw)\<in>set es. plain_text t \<and> printable_texts lt \<and> plain_text p"
  shows "\<forall>(t, r)\<in>set (relay_log pl es s). plain_text t \<and> plain_record r"
  using assms
proof (induction pl es s rule: relay_log.induct)
  case (2 pl t lt w p raw es s)
  then show ?case using plain_packet_records [of lt p _ pl w raw s] by auto
qed simp

text \<open>No phone can forge a line of the log through the relay: whatever packets arrive, the file has one
  line for each record of the relay, in order, because payloads are printed with \<open>repr\<close> or in hexadecimal.\<close>

theorem relay_log_one_line_per_record:
  assumes "configure_logging None = Inr lg"
    and "\<forall>(t, lt, w, p, raw)\<in>set es. plain_text t \<and> printable_texts lt \<and> plain_text p"
  shows "log_lines (log_text lg LogFile (relay_log pl es s)) = map (\<lambda>(t, r). log_format t r) (relay_log pl es s)"
  by (rule log_text_lines [OF assms(1) relay_log_plain [OF assms(2)]])

text \<open>The messages among the packets of a run.\<close>

definition messages_seen :: "arrival list \<Rightarrow> message list" where
  "messages_seen es = List.map_filter (\<lambda>(t, lt, w, p, raw).
     if is_telemetry_frame raw \<or> is_backend_proxy_frame raw then None else parse_packet (w_core w) raw) es"

lemma map_filter_append: "List.map_filter f (xs @ ys) = List.map_filter f xs @ List.map_filter f ys"
  by (simp add: List.map_filter_def)

lemma map_filter_none: "\<forall>x\<in>set xs. f x = None \<Longrightarrow> List.map_filter f xs = []"
  by (simp add: List.map_filter_def)

lemma trail_of_packet:
  assumes "length (split_on 32 t) = 2" and "32 \<notin> set p"
  shows "List.map_filter trail_entry (map (\<lambda>(t, r). log_format t r) (map (Pair t) (packet_records pl lt w p raw s))) =
    map (\<lambda>m. (take 16 (hex_of (sender_key m)), describe_payload (lt_repr lt) (msg_payload m))) (messages_seen [(t, lt, w, p, raw)])"
proof -
  obtain rest where r: "packet_records pl lt w p raw s =
      (if is_telemetry_frame raw \<or> is_backend_proxy_frame raw then []
       else received_record lt (w_core w) (w_now w) p raw # rest)" "list_all (later_record lt p) rest"
    by (rule packet_records_later)
  have "List.map_filter trail_entry (map (log_format t) rest) = []"
    using r(2) trail_entry_later [OF assms(1)] by (intro map_filter_none) (auto simp: list_all_iff)
  then show ?thesis unfolding r(1)
    by (simp add: messages_seen_def comp_def trail_entry_received [OF assms] split: option.split)
qed

text \<open>C24. And it is a movement trail on disk. The store keeps the last position of an identity only (\<open>at most
  a snapshot, never a movement trail\<close>), but \<open>node.log\<close> keeps, for every message that ever arrived, the first
  eight bytes of the sender's key and the payload: reading the file back gives them all, in order, and the
  text of a payload of up to 32 bytes, such as a location beacon, determines the payload.\<close>

theorem log_keeps_every_payload:
  assumes "configure_logging None = Inr lg" and "quotes rp"
    and "\<forall>(t, lt, w, p, raw)\<in>set es. plain_text t \<and> length (split_on 32 t) = 2 \<and> printable_texts lt \<and> lt_repr lt = rp \<and>
      plain_text p \<and> 32 \<notin> set p"
  shows "trail (log_text lg LogFile (relay_log pl es s)) =
      map (\<lambda>m. (take 16 (hex_of (sender_key m)), describe_payload rp (msg_payload m))) (messages_seen es) \<and>
    inj_on (describe_payload rp) {b. length b \<le> 32}"
proof
  have "\<forall>(t, lt, w, p, raw)\<in>set es. plain_text t \<and> printable_texts lt \<and> plain_text p" using assms(3) by auto
  note l = log_text_lines [OF assms(1) relay_log_plain [OF this]]
  show "trail (log_text lg LogFile (relay_log pl es s)) =
      map (\<lambda>m. (take 16 (hex_of (sender_key m)), describe_payload rp (msg_payload m))) (messages_seen es)"
    unfolding trail_def l using assms(3)
  proof (induction pl es s rule: relay_log.induct)
    case (2 pl t lt w p raw es s)
    have t: "length (split_on 32 t) = 2" "32 \<notin> set p" and rp: "lt_repr lt = rp" using 2(2) by auto
    have "messages_seen ((t, lt, w, p, raw) # es) = messages_seen [(t, lt, w, p, raw)] @ messages_seen es"
      by (simp add: messages_seen_def split: option.split)
    with 2 trail_of_packet [OF t, of pl lt w raw s] show ?case
      by (simp add: map_filter_append rp)
  qed (simp add: messages_seen_def)
  show "inj_on (describe_payload rp) {b. length b \<le> 32}"
    using payload_text_inject [OF assms(2)] by (auto simp: inj_on_def)
qed
text \<open>A \<open>repr\<close> for the witnesses: quoted, injective and on one line.\<close>

definition sample_repr :: "pystr \<Rightarrow> pystr" where
  "sample_repr s = 39 # concat (map (\<lambda>f. f @ [98]) (map (\<lambda>c. replicate c 97) s))"

lemma sample_repr_quotes: "quotes sample_repr" "plain_text (sample_repr s)"
proof -
  have "a = b" if "sample_repr a = sample_repr b" for a b
  proof -
    have "split_on 98 (tl (sample_repr x)) = map (\<lambda>c. replicate c 97) x @ [[]]" for x
      using split_on_join_last [of "map (\<lambda>c. replicate c 97) x" 98 "[]"] by (simp add: sample_repr_def)
    then have "map length (map (\<lambda>c. replicate c (97 :: nat)) a) = map length (map (\<lambda>c. replicate c (97 :: nat)) b)"
      using that by (metis append_same_eq)
    then show ?thesis by (simp add: comp_def)
  qed
  then show "quotes sample_repr" by (auto simp: quotes_def inj_on_def) (simp add: sample_repr_def)
  have "plain_text (replicate c 97)" for c by (induction c) (simp_all add: is_surrogate_def)
  then show "plain_text (sample_repr s)" by (induction s) (simp_all add: sample_repr_def is_surrogate_def)
qed

definition sample_texts :: log_texts where
  "sample_texts = \<lparr>lt_repr = sample_repr, lt_why = (\<lambda>_. []), lt_drop = lit ''ttl'', lt_token = []\<rparr>"

lemma sample_texts_printable: "printable_texts sample_texts" "lt_repr sample_texts = sample_repr"
  by (simp_all add: printable_texts_def sample_texts_def sample_repr_quotes plain_text_lit)
definition sample_lines :: root_logger where
  "sample_lines = \<lparr>rl_level = Info, rl_handlers = [LogFile, Console]\<rparr>"

definition beaconing :: "bytes \<Rightarrow> arrival" where
  "beaconing b = (lit ''2026-07-04 12:01:43,096'', sample_texts,
     sample_world\<lparr>w_core := sample_core\<lparr>parse_packet := \<lambda>raw. Some (sample_query\<lparr>msg_type := 2, msg_payload := raw\<rparr>)\<rparr>\<rparr>, [112], b)"

lemma beaconing_plain:
  "\<forall>(t, lt, w, p, raw)\<in>set (map beaconing bs). plain_text t \<and> length (split_on 32 t) = 2 \<and> printable_texts lt \<and>
     lt_repr lt = sample_repr \<and> plain_text p \<and> 32 \<notin> set p"
proof -
  have "plain_text (lit ''2026-07-04 12:01:43,096'')" by (simp add: plain_text_lit)
  moreover have "length (split_on 32 (lit ''2026-07-04 12:01:43,096'')) = 2" by (simp add: lit_def)
  ultimately show ?thesis by (auto simp: beaconing_def sample_texts_printable is_surrogate_def)
qed

theorem relay_log_one_line_per_record_witness:
  "length (log_lines (log_text sample_lines LogFile
     (relay_log (sample_pipeline sample_query) [beaconing [10, 10, 73]] sample_relay))) =
   length (relay_log (sample_pipeline sample_query) [beaconing [10, 10, 73]] sample_relay)"
proof -
  have lg: "configure_logging None = Inr sample_lines" by (simp add: configure_logging_def sample_lines_def)
  have "\<forall>(t, lt, w, p, raw)\<in>set [beaconing [10, 10, 73]]. plain_text t \<and> printable_texts lt \<and> plain_text p"
    using beaconing_plain [of "[[10, 10, 73]]"] by auto
  from arg_cong [OF relay_log_one_line_per_record [OF lg this, of "sample_pipeline sample_query" sample_relay], of length]
  show ?thesis by (simp only: length_map)
qed

theorem log_keeps_every_payload_witness:
  "trail (log_text sample_lines LogFile
     (relay_log (sample_pipeline sample_query) [beaconing [200, 1], beaconing [200, 2]] sample_relay)) =
   [(lit ''0304'', lit ''<2 bytes: c801>''), (lit ''0304'', lit ''<2 bytes: c802>'')]"
proof -
  have m: "messages_seen (map beaconing [[200, 1], [200, 2]]) =
      [sample_query\<lparr>msg_type := 2, msg_payload := [200, 1]\<rparr>, sample_query\<lparr>msg_type := 2, msg_payload := [200, 2]\<rparr>]"
    by (simp add: messages_seen_def beaconing_def is_telemetry_frame_def is_backend_proxy_frame_def sample_world_def
        starts_with_def PHONE_PING_MAGIC_def BACKEND_PROXY_MAGIC_def blit_def)
  have d: "describe_payload sample_repr [200, 1] = lit ''<2 bytes: c801>''" "describe_payload sample_repr [200, 2] = lit ''<2 bytes: c802>''"
    "take 16 (hex_of (sender_key sample_query)) = lit ''0304''"
    by (simp_all add: describe_payload_def decode_utf8_def utf8_decode.simps utf8_need_def utf8_point_def is_cont_def hex_of_def
        hexdig_def str_int_def nat_digits.simps sample_query_def) (simp_all add: lit_def)
  show ?thesis
    using log_keeps_every_payload [of sample_lines sample_repr "map beaconing [[200, 1], [200, 2]]" "sample_pipeline sample_query" sample_relay]
    by (simp add: configure_logging_def sample_lines_def sample_repr_quotes beaconing_plain [of "[[200, 1], [200, 2]]", simplified] m [simplified] d
        del: relay_log.simps)
qed

section \<open>A forged line\<close>

text \<open>Two consecutive full stops.\<close>

lemma contains_dotdot_iff: "contains_dotdot s \<longleftrightarrow> (\<exists>i. Suc i < length s \<and> s ! i = 46 \<and> s ! Suc i = 46)"
proof -
  have "starts_with (drop i s) (lit ''..'') \<longleftrightarrow> Suc i < length s \<and> s ! i = 46 \<and> s ! Suc i = 46" if "i < length s" for i
  proof (cases "Suc i < length s")
    case True
    then have "drop i s = s ! i # s ! Suc i # drop (Suc (Suc i)) s" by (simp add: Cons_nth_drop_Suc)
    with True show ?thesis by (simp add: starts_with_def) (simp add: lit_def)
  next
    case False
    then have "length (drop i s) < 2" by simp
    then have "length (take 2 (drop i s)) \<noteq> length (lit ''..'')" by simp
    then have "take 2 (drop i s) \<noteq> lit ''..''" by metis
    with False show ?thesis by (simp add: starts_with_def numeral_2_eq_2)
  qed
  then show ?thesis by (auto simp: contains_dotdot_def list_ex_iff)
qed

lemma dotdot_apart: "contains_dotdot (a @ c # b) \<Longrightarrow> c \<noteq> 46 \<Longrightarrow> contains_dotdot a \<or> contains_dotdot b"
proof -
  assume "contains_dotdot (a @ c # b)" "c \<noteq> 46"
  then obtain i where i: "Suc i < length (a @ c # b)" "(a @ c # b) ! i = 46" "(a @ c # b) ! Suc i = 46"
    by (auto simp: contains_dotdot_iff)
  consider "Suc i < length a" | "Suc i = length a" | "i = length a" | "length a < i" by linarith
  then show ?thesis
  proof cases
    case 4
    then obtain k where "i = Suc (length a + k)" by (metis less_iff_Suc_add)
    with i show ?thesis by (auto simp: contains_dotdot_iff nth_append)
  qed (use i \<open>c \<noteq> 46\<close> in \<open>auto simp: contains_dotdot_iff nth_append\<close>)
qed

text \<open>C36. The proxy prints an accepted path as it is, and a path may hold line breaks. A phone that asks for such
  a path, which \<open>http.client\<close> then refuses to send, puts any line of its choice into the log, exactly as
  the node itself would have written it.\<close>

theorem proxied_path_forges_log_line:
  assumes "configure_logging None = Inr lg" and "plain_text t0" and "plain_text why"
    and "plain_text t" and "plain_record r" and "\<not> contains_dotdot (log_format t r)"
    and "\<And>rq. 10 \<in> set (rq_url rq) \<Longrightarrow> uplink rq = NoResponse"
  shows "\<exists>path before after.
    log_lines (log_text lg LogFile (map (Pair t0) (proxy_records rp why rpj uplink base
      [(lit ''t'', JStr (lit ''req'')), (lit ''method'', JStr (lit ''GET'')), (lit ''path'', JStr path)]))) =
    [before, log_format t r, after]"
proof -
  let ?l = "log_format t r"
  let ?path = "lit ''/health'' @ 10 # ?l @ 10 # []"
  let ?req = "[(lit ''t'', JStr (lit ''req'')), (lit ''method'', JStr (lit ''GET'')), (lit ''path'', JStr ?path)]"
  have lg: "lg = \<lparr>rl_level = Info, rl_handlers = [LogFile, Console]\<rparr>" using assms(1) by (simp add: configure_logging_def)
  have l: "plain_text ?l" using assms(4,5) by (cases "lr_level r")
    (simp_all add: log_format_def plain_record_def plain_text_lit is_surrogate_def)
  have "\<not> contains_dotdot (lit ''/health'')" "\<not> contains_dotdot []"
    by (simp_all add: contains_dotdot_def starts_with_def) (simp add: lit_def)
  then have "\<not> contains_dotdot ?path" using assms(6)
      dotdot_apart [of "lit ''/health''" 10 "?l @ 10 # []"] dotdot_apart [of ?l 10 "[]"] by auto
  then have a: "path_allowed (JStr ?path)"
    by (simp add: ALLOWED_PATH_PREFIXES_def starts_with_def) (simp add: lit_def)
  have d: "dict_get ?req (lit ''method'') = JStr (lit ''GET'')" "dict_get ?req (lit ''path'') = JStr ?path"
    "dict_get ?req (lit ''body'') = JNull" by (simp_all add: dict_get_def)
  obtain rq rep where e: "execute (\<lambda>_. []) rpj uplink base ?req = (Some rq, rep)" "10 \<in> set (rq_url rq)"
    using a by (simp add: execute_def d ALLOWED_METHODS_def request_data_def json_text_def Let_def del: path_allowed.simps)
  let ?m = "proxied (lit ''GET'') ?path (lit '' failed: '' @ why)"
  have r: "proxy_records rp why rpj uplink base ?req = [proxy_record Warning ?m]"
    using a by (simp add: proxy_records_def d e ALLOWED_METHODS_def assms(7) answer_record_def json_text_def Let_def del: path_allowed.simps)
  let ?before = "log_format t0 (proxy_record Warning (lit ''proxy GET /health''))"
  have f: "log_format t0 (proxy_record Warning ?m) = ?before @ 10 # ?l @ 10 # lit '' failed: '' @ why"
    by (simp add: log_format_def proxy_record_def proxied_def) (simp add: lit_def)
  have p: "plain_text ?before" "plain_text (lit '' failed: '' @ why)"
    using assms(2,3) by (simp_all add: log_format_def proxy_record_def plain_text_lit is_surrogate_def)
  have "encodable (log_format t0 (proxy_record Warning ?m))"
    using p l by (simp add: f plain_text_def encodable_def is_surrogate_def)
  then have "log_text lg LogFile (map (Pair t0) (proxy_records rp why rpj uplink base ?req)) =
      concat (map (\<lambda>x. x @ [10]) [?before, ?l, lit '' failed: '' @ why]) @ []"
    by (simp add: log_text_def r written_def lg proxy_record_def [THEN arg_cong [where f = lr_level]] f)
  moreover have "\<forall>x\<in>set [?before, ?l, lit '' failed: '' @ why]. 10 \<notin> set x" using p l by (simp add: plain_text_def)
  ultimately show ?thesis using split_on_join_last [of "[?before, ?l, lit '' failed: '' @ why]" 10 "[]"]
    by (intro exI [of _ ?path] exI [of _ ?before] exI [of _ "lit '' failed: '' @ why"])
      (simp add: log_lines_def del: concat.simps list.map)
qed

theorem proxied_path_forges_log_line_witness:
  "\<exists>path before after.
    log_lines (log_text sample_lines LogFile (map (Pair (lit ''12:00'')) (proxy_records sample_repr [] (\<lambda>_. []) (\<lambda>_. NoResponse) []
      [(lit ''t'', JStr (lit ''req'')), (lit ''method'', JStr (lit ''GET'')), (lit ''path'', JStr path)]))) =
    [before, lit ''12:01 INFO meshlink.relay: drop from p: ttl'', after]"
proof -
  have f: "log_format (lit ''12:01'') (drop_record sample_texts (lit ''p'')) = lit ''12:01 INFO meshlink.relay: drop from p: ttl''"
    by (simp add: log_format_def drop_record_def relay_info_def sample_texts_def) (simp add: lit_def)
  have "\<not> contains_dotdot (lit ''12:01 INFO meshlink.relay: drop from p: ttl'')"
    by (simp add: contains_dotdot_def starts_with_def upt_rec) (simp add: lit_def)
  moreover have "plain_record (drop_record sample_texts (lit ''p''))"
    by (rule plain_records) (simp_all add: sample_texts_printable plain_text_lit)
  ultimately show ?thesis
    using proxied_path_forges_log_line [of sample_lines "lit ''12:00''" "[]" "lit ''12:01''" "drop_record sample_texts (lit ''p'')"
        "\<lambda>_. NoResponse" sample_repr "\<lambda>_. []" "[]"]
    by (simp add: f configure_logging_def sample_lines_def plain_text_lit)
qed

end
