(* ===== verification/Program.thy ===== *)
theory Program
  imports Startup Logging
begin

text \<open>
  The life of the process \<open>python3 -m node.main\<close>: logging, the imports that \<open>main\<close> begins with (the settings
  are read while \<open>config\<close> is imported, meshlink-core is found by the shim \<open>node/core/__init__.py\<close>), the boot,
  everything that happens while the Bluetooth loop runs, and the \<open>finally\<close> after it.
\<close>

section \<open>From the environment to the exit\<close>

text \<open>The shim puts the submodule on \<open>sys.path\<close>, once, if it is checked out.\<close>

definition core_shim :: "bool \<Rightarrow> pystr \<Rightarrow> pystr list \<Rightarrow> exn + pystr list" where
  "core_shim checked_out core_root path =
     (if \<not> checked_out then Inl ImportError
      else Inr (if core_root \<in> set path then path else core_root # path))"

text \<open>What the process finds: the faults of the log file and of the imports, the environment variables, the
  platform, \<open>node_info.json\<close>, and what the boot reads beyond its settings.\<close>

record surroundings =
  su_log_fault :: "exn option"
  su_environ :: environ
  su_darwin :: bool
  su_hostname :: pystr
  su_home :: pystr
  su_node_info :: "(exn + pystr) option"
  su_core_present :: bool
  su_core_root :: pystr
  su_path :: "pystr list"
  su_core_fault :: "exn option"
  su_boot :: boot_inputs
  su_move_fails :: bool

definition settings_of :: "surroundings \<Rightarrow> exn + settings" where
  "settings_of su = load_settings (su_environ su) (su_darwin su) (su_hostname su) (su_home su) (su_node_info su)"

definition boot_inputs_of :: "surroundings \<Rightarrow> settings \<Rightarrow> boot_inputs" where
  "boot_inputs_of su cfg =
     (su_boot su)\<lparr>bi_cfg := cfg, bi_darwin := su_darwin su,
       bi_ble_backend := map_of (su_environ su) (lit ''MESHLINK_BLE_BACKEND''),
       bi_ap_backend := map_of (su_environ su) (lit ''MESHLINK_AP_BACKEND'')\<rparr>"

text \<open>The imports at the head of \<open>main\<close>: the settings come first, then the first module that needs the core.\<close>

definition imports_of :: "surroundings \<Rightarrow> exn + settings" where
  "imports_of su =
     and_then (settings_of su) (\<lambda>cfg.
     and_then (core_shim (su_core_present su) (su_core_root su) (su_path su)) (\<lambda>path.
     case su_core_fault su of Some e \<Rightarrow> Inl e | None \<Rightarrow> Inr cfg))"

text \<open>How \<open>run_forever\<close> ends: with Control-C, by returning, or with any other exception.\<close>

datatype loop_end = Interrupted | Returned | Raised exn

datatype exit_status = Finished | Traceback exn

fun exit_of :: "loop_end \<Rightarrow> exit_status" where
  "exit_of Interrupted = Finished"
| "exit_of Returned = Finished"
| "exit_of (Raised e) = Traceback e"

text \<open>What the process did: what it sent, the machine and the key cache it leaves, the node after the \<open>finally\<close>
  if the loop was entered, and how it ended.\<close>

record ('p, 'c) life =
  lf_out :: "emission list"
  lf_host :: host
  lf_key_cache :: "pystr option"
  lf_node :: "('p, 'c) node option"
  lf_exit :: exit_status

definition serve_and_stop ::
  "('p, 'c) machine \<Rightarrow> bool \<Rightarrow> (world \<times> node_event) list \<Rightarrow> loop_end \<Rightarrow> ('p, 'c) booted \<Rightarrow> ('p, 'c) life" where
  "serve_and_stop m move_fails es ended b =
     (case b_result b of
        Inl e \<Rightarrow> \<lparr>lf_out = b_out b, lf_host = b_host b, lf_key_cache = b_key_cache b, lf_node = None, lf_exit = Traceback e\<rparr>
      | Inr (n, ap) \<Rightarrow>
          (case node_run m es n of
             (out, n') \<Rightarrow>
               (case shutdown move_fails ap n' (b_host b) of
                  (n'', h) \<Rightarrow> \<lparr>lf_out = b_out b @ out, lf_host = h, lf_key_cache = b_key_cache b, lf_node = Some n'',
                              lf_exit = exit_of ended\<rparr>)))"

definition stillborn :: "surroundings \<Rightarrow> exn \<Rightarrow> ('p, 'c) life" where
  "stillborn su e = \<lparr>lf_out = [], lf_host = bi_host (su_boot su), lf_key_cache = bi_key_cache (su_boot su), lf_node = None,
     lf_exit = Traceback e\<rparr>"

text \<open>\<open>None\<close> only for an interval that is no finite number.\<close>

definition main_program ::
  "('p, 'c) machine \<Rightarrow> world \<Rightarrow> surroundings \<Rightarrow> (world \<times> node_event) list \<Rightarrow> loop_end \<Rightarrow> ('p, 'c) life option" where
  "main_program m w su es ended =
     (case configure_logging (su_log_fault su) of
        Inl e \<Rightarrow> Some (stillborn su e)
      | Inr lg \<Rightarrow>
          (case imports_of su of
             Inl e \<Rightarrow> Some (stillborn su e)
           | Inr cfg \<Rightarrow> map_option (serve_and_stop m (su_move_fails su) es ended) (boot m w (boot_inputs_of su cfg))))"

section \<open>Lemmas\<close>

text \<open>The requests of a boot, whether it succeeds or not.\<close>

lemma key_request_is: "Http rq \<in> set (key_request cfg) \<Longrightarrow> rq = url_request (organiser_key_url (BACKEND_URL cfg))"
  by (auto simp: key_request_def split: option.splits list.splits)

lemma start_node_requests:
  assumes "Http rq \<in> set (fst (start_node m w bi n))" and "r_location (n_relay n) = Some ls"
  shows "rq = url_request (dir_url (ls_directory ls))"
  using assms by (auto simp: start_node_def start_gossip_def start_relay_def start_directory_def with_relay_def Let_def
      split: prod.splits option.splits sum.splits)

lemma boot_requests:
  assumes "boot m w bi = Some b" and "Http rq \<in> set (b_out b)"
  shows "rq = url_request (organiser_key_url (BACKEND_URL (bi_cfg bi))) \<or>
    rq = url_request (directory_url (BACKEND_URL (bi_cfg bi)) (EVENT_ID (bi_cfg bi)))"
proof -
  obtain iv where b: "b = boot_with m w bi iv" using assms(1) by (auto simp: boot_def)
  consider "Http rq \<in> set (key_request (bi_cfg bi))"
    | t key n where "build_node m w bi iv t key = Inr n" "Http rq \<in> set (fst (start_node m w bi n))"
    using assms(2) by (auto simp: b boot_with_def Let_def split: prod.splits sum.splits option.splits)
  then show ?thesis
  proof cases
    case 2
    then obtain d where d: "dir_boot (BACKEND_URL (bi_cfg bi)) (EVENT_ID (bi_cfg bi)) (pubkey_id (w_core w)) (bi_directory_file bi) = Inr d"
      "n = wire_node m (bi_cfg bi) iv t key d (bi_ephem bi)" using build_node_wired by blast
    have "r_location (n_relay n) = Some (wire_location (bi_cfg bi) iv d (bi_ephem bi))" by (simp add: d(2) wire_node_def relay_init_def)
    from start_node_requests [OF 2(2) this] dir_boot_url [OF d(1)] show ?thesis by (simp add: wire_location_def)
  qed (simp add: key_request_is)
qed

lemma start_node_uplinks: "start_node m w bi n = (out, Inr n') \<Longrightarrow> same_uplinks n n'"
proof -
  assume s: "start_node m w bi n = (out, Inr n')"
  show ?thesis
  proof (cases "r_location (n_relay n)")
    case None
    with s show ?thesis
      by (auto simp: start_node_def start_gossip_def start_relay_def start_directory_def start_heartbeat_def with_relay_def Let_def
          hb_start_def same_uplinks_def base_url_of_def directory_of_def split: prod.splits option.splits sum.splits)
  next
    case (Some ls)
    from s Some show ?thesis
      by (auto simp: start_node_def start_gossip_def start_relay_def start_directory_def start_heartbeat_def with_relay_def Let_def
          hb_start_def same_uplinks_def base_url_of_def directory_of_def split: prod.splits option.splits sum.splits)
        (metis refresh_url snd_conv)
  qed
qed

text \<open>What a booted node may ask, in terms of the settings.\<close>

lemma booted_uplinks:
  assumes "boot m w bi = Some b" and "b_result b = Inr (n, ap)" and "allowed_request n rq"
  shows "rq_url rq = rstrip_char 47 (BACKEND_URL (bi_cfg bi)) @ lit ''/heartbeat'' \<and> rq_method rq = lit ''POST'' \<or>
    rq = url_request (directory_url (BACKEND_URL (bi_cfg bi)) (EVENT_ID (bi_cfg bi))) \<or>
    (\<exists>path. rq_url rq = rstrip_char 47 (BACKEND_URL (bi_cfg bi)) @ path \<and> path_allowed (JStr path) \<and>
       rq_method rq \<in> set ALLOWED_METHODS)"
proof -
  obtain iv key t host d out where b:
    "dir_boot (BACKEND_URL (bi_cfg bi)) (EVENT_ID (bi_cfg bi)) (pubkey_id (w_core w)) (bi_directory_file bi) = Inr d"
    "start_node m w bi (wire_node m (bi_cfg bi) iv t key d (bi_ephem bi)) = (out, Inr n)"
    using assms(1,2) by (rule booted_parts)
  let ?n = "wire_node m (bi_cfg bi) iv t key d (bi_ephem bi)"
  have "allowed_request ?n rq" by (rule allowed_earlier [OF start_node_uplinks [OF b(2)] assms(3)])
  with dir_boot_url [OF b(1)] show ?thesis
    by (auto simp: allowed_request_def directory_of_def base_url_of_def wire_node_def relay_init_def hb_init_def proxy_init_def
        wire_location_def)
qed

lemma shutdown_host: "snd (shutdown move_fails ap n h) = (case ap of None \<Rightarrow> h | Some b \<Rightarrow> ap_stop move_fails b h)"
  by (simp add: shutdown_def Let_def)

section \<open>Properties\<close>

text \<open>C18. Where the process talks to: from its start to its exit, however it boots, whatever phones and nodes send
  and however it ends, every HTTP request goes to the configured backend and is one of five: the
  organiser's key, the event's directory, a heartbeat, or a phone's GET or POST of a path of the allow-list.
  Before the settings are read there is none.\<close>

theorem program_talks_to_backend_only:
  assumes "main_program m w su es ended = Some life" and "Http rq \<in> set (lf_out life)"
  shows "\<exists>cfg path. settings_of su = Inr cfg \<and> rq_url rq = rstrip_char 47 (BACKEND_URL cfg) @ path \<and>
    (rq_method rq = lit ''GET'' \<and> path = lit ''/attestation/public-key'' \<or>
     rq_method rq = lit ''GET'' \<and> path = lit ''/directory/sync?event_id='' @ EVENT_ID cfg \<or>
     rq_method rq = lit ''POST'' \<and> path = lit ''/heartbeat'' \<or>
     rq_method rq \<in> {lit ''GET'', lit ''POST''} \<and> path_allowed (JStr path))"
proof -
  obtain cfg b where b: "settings_of su = Inr cfg" "boot m w (boot_inputs_of su cfg) = Some b"
    "life = serve_and_stop m (su_move_fails su) es ended b"
    using assms by (auto simp: main_program_def imports_of_def and_then_def stillborn_def split: sum.splits option.splits)
  have c: "bi_cfg (boot_inputs_of su cfg) = cfg" by (simp add: boot_inputs_of_def)
  consider "Http rq \<in> set (b_out b)" | n ap where "b_result b = Inr (n, ap)" "Http rq \<in> set (fst (node_run m es n))"
    using assms(2) by (auto simp: b(3) serve_and_stop_def split: sum.splits prod.splits)
  then show ?thesis
  proof cases
    case 1
    from boot_requests [OF b(2) this] b(1) show ?thesis
      by (auto simp: c url_request_def organiser_key_url_def directory_url_def)
  next
    case 2
    from booted_uplinks [OF b(2) 2(1) run_requests [OF 2(2)]] b(1) show ?thesis
      by (auto simp: c url_request_def directory_url_def ALLOWED_METHODS_def)
  qed
qed


text \<open>But what starts the access point is not what the \<open>finally\<close> covers: it is brought up while the transport is
  built, and an exception of anything after that and before the loop, such as a backhaul port that is
  taken, ends the process with the access point as it was started.\<close>

theorem failed_boot_leaves_access_point:
  assumes "configure_logging (su_log_fault su) = Inr lg" and "imports_of su = Inr cfg"
    and "intervals_of cfg = Some iv"
    and "fst (organiser_key cfg (bi_organiser (su_boot su)) (bi_key_fault (su_boot su)) (bi_key_cache (su_boot su))) = Inr key"
    and "boot_checks (boot_inputs_of su cfg) = None"
    and "wire_transport (boot_inputs_of su cfg) = (Inr (t, Some ap), host)"
    and "build_node m w (boot_inputs_of su cfg) iv t key = Inl e"
  shows "\<exists>life. main_program m w su es ended = Some life \<and> lf_node life = None \<and> lf_exit life = Traceback e \<and> lf_host life = host"
proof -
  obtain cache where k: "organiser_key cfg (bi_organiser (su_boot su)) (bi_key_fault (su_boot su)) (bi_key_cache (su_boot su)) = (Inr key, cache)"
    using assms(4) by (metis prod.collapse)
  have c: "bi_cfg (boot_inputs_of su cfg) = cfg" "bi_organiser (boot_inputs_of su cfg) = bi_organiser (su_boot su)"
    "bi_key_fault (boot_inputs_of su cfg) = bi_key_fault (su_boot su)" "bi_key_cache (boot_inputs_of su cfg) = bi_key_cache (su_boot su)"
    by (simp_all add: boot_inputs_of_def)
  show ?thesis
    by (simp add: main_program_def assms(1,2) boot_def boot_with_def c k assms(3,5,6,7) serve_and_stop_def Let_def)
qed

section \<open>Witnesses\<close>

text \<open>A Raspberry Pi with one variable set: no WiFi.\<close>

definition sample_surroundings :: "pystr option \<Rightarrow> surroundings" where
  "sample_surroundings cache =
     \<lparr>su_log_fault = None, su_environ = [(lit ''MESHLINK_WIFI_LISTEN'', lit ''off'')], su_darwin = False, su_hostname = lit ''pi'',
      su_home = [], su_node_info = None, su_core_present = True, su_core_root = lit ''/core'', su_path = [], su_core_fault = None,
      su_boot = sample_boot cache, su_move_fails = False\<rparr>"

lemma sample_imports:
  "\<exists>cfg. settings_of (sample_surroundings cache) = Inr cfg \<and> imports_of (sample_surroundings cache) = Inr cfg \<and>
     (\<exists>iv. intervals_of cfg = Some iv) \<and> ORGANISER_PUBKEY cfg = None \<and> BACKHAUL_ZONE_TABLE cfg = None \<and>
     ascii_lower (WIFI_LISTEN cfg) = lit ''off'' \<and> BACKHAUL_UDP_PORT cfg = 19788 \<and>
     BACKHAUL_BROADCAST_ADDR cfg = host_addr (lit ''10.77.0.255'') \<and> BACKHAUL_ADVERTISE_ADDR cfg = host_addr (lit ''10.77.0.1'') \<and>
     NODE_ID cfg = lit ''pi'' \<and> NODE_ZONE_ID cfg = 1 \<and> BACKEND_URL cfg = lit ''http://10.77.0.254:8000''"
proof -
  have off: "ascii_lower (lit ''off'') = lit ''off''" by (simp add: ascii_lower_def lit_def)
  have url: "backend_url [(lit ''MESHLINK_WIFI_LISTEN'', lit ''off'')] False = lit ''http://10.77.0.254:8000''"
    by (simp add: backend_url_def backend_channel_def env_get_def env_set_def) (simp add: ascii_lower_def lit_def)
  have "lit ''10.77.0.'' @ lit ''1'' = lit ''10.77.0.1''" by (simp add: lit_def)
  then show ?thesis
    by (simp add: settings_of_def imports_of_def sample_surroundings_def core_shim_def load_settings_def and_then_def env_get_def
        env_set_def default_numbers default_floats default_addresses(2) default_node url off intervals_of_def)
qed

lemma sample_inputs: "boot_inputs_of (sample_surroundings cache) cfg = sample_boot cache\<lparr>bi_cfg := cfg\<rparr>"
  by (simp add: boot_inputs_of_def sample_surroundings_def sample_boot_def)

lemma sample_lives:
  "\<exists>life n. main_program (sample_machine sample_query) sample_world (sample_surroundings (Some (lit ''0a1b''))) es ended = Some life \<and>
     lf_node life = Some n"
proof -
  let ?su = "sample_surroundings (Some (lit ''0a1b''))"
  obtain cfg iv where c: "imports_of ?su = Inr cfg" "intervals_of cfg = Some iv" "ORGANISER_PUBKEY cfg = None"
    "BACKHAUL_ZONE_TABLE cfg = None" "ascii_lower (WIFI_LISTEN cfg) = lit ''off''" "BACKHAUL_UDP_PORT cfg = 19788"
    "BACKHAUL_BROADCAST_ADDR cfg = host_addr (lit ''10.77.0.255'')" "BACKHAUL_ADVERTISE_ADDR cfg = host_addr (lit ''10.77.0.1'')"
    "NODE_ID cfg = lit ''pi''" "NODE_ZONE_ID cfg = 1" using sample_imports by blast
  have "announceable (\<lambda>_. []) (NODE_ID cfg) (NODE_ZONE_ID cfg) (BACKHAUL_ADVERTISE_ADDR cfg)"
    by (simp add: c announceable_def encodable_lit INT_MAX_STR_DIGITS_def nat_digits.simps)
  then obtain b n where b: "boot (sample_machine sample_query) sample_world (boot_inputs_of ?su cfg) = Some b" "b_result b = Inr (n, None)"
    using quiet_boots [OF c(2-5) _ c(7)] c(6) by (auto simp: sample_inputs)
  have "su_log_fault ?su = None" by (simp add: sample_surroundings_def)
  then show ?thesis
    by (auto simp: main_program_def configure_logging_def c(1) b serve_and_stop_def split: prod.split)
qed


theorem program_talks_to_backend_only_witness:
  "\<exists>life rq path. main_program (sample_machine sample_query) sample_world (sample_surroundings None) [] Interrupted = Some life \<and>
     Http rq \<in> set (lf_out life) \<and> rq_url rq = lit ''http://10.77.0.254:8000'' @ path"
proof -
  obtain cfg iv where c: "settings_of (sample_surroundings None) = Inr cfg" "imports_of (sample_surroundings None) = Inr cfg"
    "intervals_of cfg = Some iv" "ORGANISER_PUBKEY cfg = None" "BACKEND_URL cfg = lit ''http://10.77.0.254:8000''"
    using sample_imports by blast
  have "\<exists>life. main_program (sample_machine sample_query) sample_world (sample_surroundings None) [] Interrupted = Some life \<and>
      lf_out life = [Http (url_request (organiser_key_url (BACKEND_URL cfg)))]"
  proof -
    have f: "su_log_fault (sample_surroundings None) = None" by (simp add: sample_surroundings_def)
    have i: "bi_organiser (sample_boot None) = Inl OSError" "bi_key_cache (sample_boot None) = None" by (simp_all add: sample_boot_def)
    have "organiser_key cfg (Inl OSError) x None = (Inl RuntimeError, None)" for x
      by (simp add: organiser_key_def c(4) load_organiser_pubkey_def fetch_key_def and_then_def)
    then show ?thesis
      by (simp add: main_program_def f configure_logging_def c(2,3) boot_def boot_with_def sample_inputs i key_request_def c(4)
          serve_and_stop_def Let_def)
  qed
  then obtain life rq where l: "main_program (sample_machine sample_query) sample_world (sample_surroundings None) [] Interrupted = Some life"
    "Http rq \<in> set (lf_out life)" by auto
  from program_talks_to_backend_only [OF l] c(1,5) have "\<exists>path. rq_url rq = rstrip_char 47 (lit ''http://10.77.0.254:8000'') @ path" by auto
  moreover have "rstrip_char 47 (lit ''http://10.77.0.254:8000'') = lit ''http://10.77.0.254:8000''"
    by (simp add: rstrip_char_def lit_def)
  ultimately show ?thesis using l by auto
qed

text \<open>A Mac, as root, whose backhaul port is taken: it is left sharing its connection under the venue's SSID.\<close>

definition sample_mac_host :: host where
  "sample_mac_host = \<lparr>h_darwin = True, h_pi = \<lparr>script = None, hostapd_conf = None\<rparr>, h_mac = sample_mac\<rparr>"

definition sample_mac_surroundings :: surroundings where
  "sample_mac_surroundings =
     \<lparr>su_log_fault = None, su_environ = [], su_darwin = True, su_hostname = lit ''mac'',
      su_home = [], su_node_info = None, su_core_present = True, su_core_root = lit ''/core'', su_path = [], su_core_fault = None,
      su_boot = sample_boot (Some (lit ''0a1b''))\<lparr>bi_deployment := Inr sample_deployment, bi_host := sample_mac_host,
        bi_udp_fault := Some OSError\<rparr>, su_move_fails = False\<rparr>"

lemma sample_mac_shares:
  "\<exists>host. ap_start 6 Sharing \<lparr>ssid = lit ''Mesh'', passphrase = lit ''s3cret=pass''\<rparr> sample_mac_host = (Inr True, host) \<and>
     sharing_ssid (h_mac host) = Some (lit ''Mesh'')"
proof -
  let ?c = "\<lparr>ssid = lit ''Mesh'', passphrase = lit ''s3cret=pass''\<rparr>"
  have f: "fst (sharing_start 6 ?c sample_mac) = Inr True"
    by (simp add: sample_mac_def sharing_start_def enable_sharing_def write_sharing_config_def current_plist_def Let_def
        build_nat_airport_dict_def merge_sharing_def sharing_verify_def sharing_configured_ssid_def
        ssid_from_nat_plist_def sub_dict_def)
  have s: "sharing_ssid (snd (sharing_start 6 ?c sample_mac)) = Some (lit ''Mesh'')"
    by (simp add: sample_mac_def sharing_start_def enable_sharing_def write_sharing_config_def current_plist_def Let_def
        build_nat_airport_dict_def merge_sharing_def sharing_verify_def sharing_configured_ssid_def sharing_ssid_def
        ssid_from_nat_plist_def sub_dict_def)
  from f s show ?thesis
    by (intro exI [of _ "sample_mac_host\<lparr>h_mac := snd (sharing_start 6 ?c sample_mac)\<rparr>"])
      (simp add: ap_start_def sample_mac_host_def case_prod_beta)
qed

theorem failed_boot_leaves_access_point_witness:
  "\<exists>life :: (unit, unit) life. main_program (sample_machine sample_query) sample_world sample_mac_surroundings [] Interrupted = Some life \<and>
     lf_exit life = Traceback OSError \<and> sharing_ssid (h_mac (lf_host life)) = Some (lit ''Mesh'')"
proof -
  let ?su = sample_mac_surroundings
  have "\<exists>cfg. imports_of ?su = Inr cfg \<and> intervals_of cfg = Some \<lparr>iv_ttl = 180, iv_query = 60, iv_ping = 90, iv_delay = 3\<rparr> \<and>
      ORGANISER_PUBKEY cfg = None \<and> BACKHAUL_ZONE_TABLE cfg = None \<and> BACKHAUL_UDP_PORT cfg = 19788 \<and>
      WIFI_LISTEN cfg = lit ''10.78.0.1:7800'' \<and> WIFI_AP_PROVISION cfg = lit ''auto''"
  proof -
    have a: "ascii_lower (lit ''auto'') = lit ''auto''" by (simp add: ascii_lower_def lit_def)
    show ?thesis
      by (simp add: settings_of_def imports_of_def sample_mac_surroundings_def core_shim_def load_settings_def and_then_def env_get_def
          env_set_def default_numbers default_floats default_addresses(2) default_node a intervals_of_def)
  qed
  then obtain cfg where c: "imports_of ?su = Inr cfg" "intervals_of cfg = Some \<lparr>iv_ttl = 180, iv_query = 60, iv_ping = 90, iv_delay = 3\<rparr>"
    "ORGANISER_PUBKEY cfg = None" "BACKHAUL_ZONE_TABLE cfg = None" "BACKHAUL_UDP_PORT cfg = 19788"
    "WIFI_LISTEN cfg = lit ''10.78.0.1:7800''" "WIFI_AP_PROVISION cfg = lit ''auto''" by blast
  let ?bi = "boot_inputs_of ?su cfg"
  have bi: "bi_cfg ?bi = cfg" "bi_darwin ?bi = True" "bi_ble_backend ?bi = None" "bi_ap_backend ?bi = None" "bi_channel ?bi = 6"
    "bi_deployment ?bi = Inr sample_deployment" "bi_host ?bi = sample_mac_host" "bi_udp_fault ?bi = Some OSError"
    "bi_iw ?bi = None" "bi_gatt_fault ?bi = None"
    by (simp_all add: boot_inputs_of_def sample_mac_surroundings_def sample_boot_def)
  obtain host where h: "ap_start 6 Sharing \<lparr>ssid = lit ''Mesh'', passphrase = lit ''s3cret=pass''\<rparr> sample_mac_host = (Inr True, host)"
    "sharing_ssid (h_mac host) = Some (lit ''Mesh'')" using sample_mac_shares by blast
  have d: "load_deployment_config (Inr sample_deployment) = Inr \<lparr>ssid = lit ''Mesh'', passphrase = lit ''s3cret=pass''\<rparr>"
    by (simp add: load_deployment_config_def sample_deployment_parses)
  have "provision_ap (lit ''auto'') None 6 (Inr sample_deployment) sample_mac_host = (Inr (Some Sharing), host)"
    by (simp add: provision_ap_def d create_ap_provisioner_def h(1)) (simp add: sample_mac_host_def)
  moreover have "ascii_lower (lit ''10.78.0.1:7800'') \<noteq> lit ''off''" by (simp add: ascii_lower_def lit_def)
  moreover have "wifi_address (lit ''10.78.0.1:7800'') = Inr (lit ''10.78.0.1'', Some 7800)"
    by (simp add: wifi_address_def default_addresses(1))
  ultimately have t: "wire_transport ?bi = (Inr (Multi (ble_init gatt_init) (wifi_init 7800), Some Sharing), host)"
    by (simp add: wire_transport_def bi c)
  have k: "fst (organiser_key cfg (bi_organiser (su_boot ?su)) (bi_key_fault (su_boot ?su)) (bi_key_cache (su_boot ?su))) = Inr [10, 27]"
    by (simp add: organiser_key_def c(3) load_organiser_pubkey_def fetch_key_def and_then_def sample_mac_surroundings_def sample_boot_def)
      (simp add: lit_def strip_def trim_def is_space_def ascii_space_def unhex_def)
  have ck: "boot_checks ?bi = None"
    by (simp add: boot_checks_def bi c(4) check_backhaul_radio_def find_radio_def create_gatt_server_def)
  have f: "build_node (sample_machine sample_query) sample_world ?bi \<lparr>iv_ttl = 180, iv_query = 60, iv_ping = 90, iv_delay = 3\<rparr>
      (Multi (ble_init gatt_init) (wifi_init 7800)) [10, 27] = Inl OSError" by (simp add: build_node_def bi c(5))
  have "configure_logging (su_log_fault ?su) = Inr sample_lines"
    by (simp add: sample_mac_surroundings_def configure_logging_def sample_lines_def)
  from failed_boot_leaves_access_point [OF this c(1,2) k ck t f, of "[]" Interrupted] h(2) show ?thesis by auto
qed

end
