(* ===== verification/Network.thy ===== *)
theory Network
  imports Backhaul
begin

text \<open>
  Several nodes on one backhaul: the gossip of \<open>zone_sync.py\<close> over the receive loops of
  \<open>batman_backhaul.py\<close>. The medium delivers a broadcast datagram to every node, its sender included,
  from the sender's own endpoint; what the nodes do with it is the code's.
\<close>

section \<open>The medium\<close>

type_synonym peer = "zone_sync \<times> backhaul"

fun site_of :: "peer \<Rightarrow> addr" where
  "site_of (zs, bh) = endpoint (bh_port bh) (bh_own_addr bh)"

fun hears :: "(json \<Rightarrow> pystr) \<Rightarrow> real \<Rightarrow> addr \<Rightarrow> bytes \<Rightarrow> peer \<Rightarrow> peer" where
  "hears rp now (ATuple [JStr h, JInt p]) frame (zs, bh) = (zs, snd (bh_input rp now zs bh h p frame))"
| "hears rp now site frame q = q"

fun payload_of :: "datagram \<Rightarrow> bytes" where
  "payload_of (Datagram h p f) = f"

text \<open>The node at \<open>k\<close> announces itself, and all hear what it sends.\<close>

definition announces :: "(real \<Rightarrow> pystr) \<Rightarrow> (json \<Rightarrow> pystr) \<Rightarrow> real \<Rightarrow> nat \<Rightarrow> peer list \<Rightarrow> peer list" where
  "announces frepr rp now k peers =
     (case peers ! k of (zs, bh) \<Rightarrow>
        fold (\<lambda>d. map (hears rp now (site_of (zs, bh)) (payload_of d))) (fst (announce_now frepr quiet_net zs bh)) peers)"

fun gossip :: "(real \<Rightarrow> pystr) \<Rightarrow> (json \<Rightarrow> pystr) \<Rightarrow> (real \<times> nat) list \<Rightarrow> peer list \<Rightarrow> peer list" where
  "gossip frepr rp [] peers = peers"
| "gossip frepr rp ((now, k) # turns) peers = gossip frepr rp turns (announces frepr rp now k peers)"

section \<open>A sound network\<close>

definition is_site :: "addr \<Rightarrow> bool" where
  "is_site a = (\<exists>h p. a = pair_addr h p \<and> 0 \<le> p \<and> p \<le> 65535)"

text \<open>A node as \<open>main\<close> wires and starts it: it announces the zone and the address of its backhaul.\<close>

fun peer_ok :: "(real \<Rightarrow> pystr) \<Rightarrow> int \<Rightarrow> real \<Rightarrow> peer \<Rightarrow> bool" where
  "peer_ok frepr udp ttl (zs, bh) =
     (announceable frepr (zs_node_id zs) (zs_zone_id zs) (zs_own_addr zs) \<and> bh_own_addr bh = zs_own_addr zs \<and>
      bh_zone_id bh = zs_zone_id zs \<and> bh_port bh = udp \<and> is_site (endpoint udp (zs_own_addr zs)) \<and>
      is_site (endpoint udp (bh_broadcast_addr bh)) \<and> bh_running bh \<and> control_cb bh \<and> ztable_ok (bh_table bh) \<and>
      entry_ttl_s (bh_table bh) = ttl)"

text \<open>No two nodes share a node id, a zone or an address.\<close>

definition network_ok :: "(real \<Rightarrow> pystr) \<Rightarrow> int \<Rightarrow> real \<Rightarrow> peer list \<Rightarrow> bool" where
  "network_ok frepr udp ttl peers =
     (list_all (peer_ok frepr udp ttl) peers \<and> distinct (map (zs_node_id \<circ> fst) peers) \<and>
      distinct (map (zs_zone_id \<circ> fst) peers) \<and> distinct (map site_of peers))"

section \<open>Lemmas\<close>

lemma network_ok_peer: "network_ok frepr udp ttl peers \<Longrightarrow> j < length peers \<Longrightarrow> peer_ok frepr udp ttl (peers ! j)"
  by (simp add: network_ok_def list_all_length)

lemma network_ok_distinct:
  assumes "network_ok frepr udp ttl peers" and "i < length peers" and "j < length peers" and "i \<noteq> j"
  shows "zs_node_id (fst (peers ! i)) \<noteq> zs_node_id (fst (peers ! j))"
    "zs_zone_id (fst (peers ! i)) \<noteq> zs_zone_id (fst (peers ! j))" "site_of (peers ! i) \<noteq> site_of (peers ! j)"
  using assms by (auto simp: network_ok_def distinct_conv_nth)

lemma announces_one:
  assumes "peer_ok frepr udp ttl (zs, bh)"
  obtains h p f where "fst (announce_now frepr quiet_net zs bh) = [Datagram h p f]"
    "encode_announcement frepr (zs_node_id zs) (zs_zone_id zs) (zs_own_addr zs) = Inr f" "starts_with f ZONE_SYNC_MAGIC"
proof -
  obtain h p where b: "endpoint udp (bh_broadcast_addr bh) = pair_addr h p" "0 \<le> p" "p \<le> 65535"
    using assms by (auto simp: is_site_def)
  obtain f where f: "encode_announcement frepr (zs_node_id zs) (zs_zone_id zs) (zs_own_addr zs) = Inr f"
    "starts_with f ZONE_SYNC_MAGIC" using assms encode_announcement_ok by auto
  have "fst (announce_now frepr quiet_net zs bh) = [Datagram h p f]"
    using assms b f(1) by (simp add: announce_now_def broadcast_control_def bh_send_def sendto_pair_def quiet_net_def)
  with f that show thesis by blast
qed

text \<open>What one announcement does to a node: itself ignores it, another learns the route.\<close>

lemma hears_announcement:
  assumes "peer_ok frepr udp ttl (za, a)" and "peer_ok frepr udp ttl (zb, b)"
    and "encode_announcement frepr (zs_node_id za) (zs_zone_id za) (zs_own_addr za) = Inr f" and "starts_with f ZONE_SYNC_MAGIC"
  shows "site_of (za, a) = site_of (zb, b) \<Longrightarrow> hears rp now (site_of (za, a)) f (zb, b) = (zb, b)"
    "site_of (za, a) \<noteq> site_of (zb, b) \<Longrightarrow> zs_node_id za \<noteq> zs_node_id zb \<Longrightarrow>
       hears rp now (site_of (za, a)) f (zb, b) =
         (zb, b\<lparr>bh_table := learn now (zs_zone_id za) (zs_own_addr za) (bh_table b)\<rparr>)"
proof -
  obtain h p where s: "site_of (za, a) = pair_addr h p" using assms(1) by (auto simp: is_site_def)
  have d: "decode_announcement rp f = Inr (Some \<lparr>ann_node_id = zs_node_id za, ann_zone_id = zs_zone_id za, ann_addr = zs_own_addr za\<rparr>)"
    using assms(1,3) by (intro announced_decodes) simp_all
  have e: "endpoint (bh_port b) (bh_own_addr b) = site_of (zb, b)" by simp
  show "site_of (za, a) = site_of (zb, b) \<Longrightarrow> hears rp now (site_of (za, a)) f (zb, b) = (zb, b)"
    using s by (simp add: bh_input_def bh_recv_def)
  show "site_of (za, a) \<noteq> site_of (zb, b) \<Longrightarrow> zs_node_id za \<noteq> zs_node_id zb \<Longrightarrow>
      hears rp now (site_of (za, a)) f (zb, b) =
         (zb, b\<lparr>bh_table := learn now (zs_zone_id za) (zs_own_addr za) (bh_table b)\<rparr>)"
    using assms(2,4) d unfolding s
    by (simp add: bh_input_def bh_recv_def bh_deliver_def bh_control_def on_control_def)
qed

definition with_route :: "real \<Rightarrow> peer \<Rightarrow> peer \<Rightarrow> peer" where
  "with_route now a q =
     (fst q, (snd q)\<lparr>bh_table := learn now (zs_zone_id (fst a)) (zs_own_addr (fst a)) (bh_table (snd q))\<rparr>)"

lemma with_route_keeps:
  "fst (with_route now a q) = fst q" "site_of (with_route now a q) = site_of q"
  "peer_ok frepr udp ttl q \<Longrightarrow> peer_ok frepr udp ttl (with_route now a q)"
proof -
  obtain zs bh where q: "q = (zs, bh)" by fastforce
  show "fst (with_route now a q) = fst q" "site_of (with_route now a q) = site_of q" by (simp_all add: with_route_def q)
  show "peer_ok frepr udp ttl q \<Longrightarrow> peer_ok frepr udp ttl (with_route now a q)"
    using ztable_ok_learn [of "bh_table bh"] by (simp add: with_route_def q learn_frame)
qed

lemma announces_nth:
  assumes "network_ok frepr udp ttl peers" and "k < length peers"
  shows "length (announces frepr rp now k peers) = length peers"
    "j < length peers \<Longrightarrow> announces frepr rp now k peers ! j = (if j = k then peers ! j else with_route now (peers ! k) (peers ! j))"
proof -
  obtain za a where a: "peers ! k = (za, a)" by fastforce
  have oka: "peer_ok frepr udp ttl (za, a)" using network_ok_peer [OF assms] a by simp
  obtain h p f where f: "fst (announce_now frepr quiet_net za a) = [Datagram h p f]"
    "encode_announcement frepr (zs_node_id za) (zs_zone_id za) (zs_own_addr za) = Inr f" "starts_with f ZONE_SYNC_MAGIC"
    using oka by (rule announces_one)
  have e: "announces frepr rp now k peers = map (hears rp now (site_of (za, a)) f) peers"
    by (simp add: announces_def a f(1) del: site_of.simps)
  then show "length (announces frepr rp now k peers) = length peers" by simp
  assume j: "j < length peers"
  obtain zb b where b: "peers ! j = (zb, b)" by fastforce
  have okb: "peer_ok frepr udp ttl (zb, b)" using network_ok_peer [OF assms(1) j] b by simp
  note h = hears_announcement [OF oka okb f(2,3), of rp now]
  show "announces frepr rp now k peers ! j = (if j = k then peers ! j else with_route now (peers ! k) (peers ! j))"
  proof (cases "j = k")
    case True
    then show ?thesis using h(1) a b j by (simp add: e del: site_of.simps hears.simps)
  next
    case False
    then have "site_of (za, a) \<noteq> site_of (zb, b)" "zs_node_id za \<noteq> zs_node_id zb"
      using network_ok_distinct(1,3) [OF assms j] a b by auto
    then show ?thesis using h(2) a b j False by (simp add: e with_route_def del: site_of.simps hears.simps)
  qed
qed

lemma announces_ok:
  assumes "network_ok frepr udp ttl peers" and "k < length peers"
  shows "network_ok frepr udp ttl (announces frepr rp now k peers)"
    "j < length peers \<Longrightarrow> fst (announces frepr rp now k peers ! j) = fst (peers ! j)"
proof -
  let ?ps = "announces frepr rp now k peers"
  note n = announces_nth [OF assms, where rp = rp and now = now]
  have f: "fst (?ps ! j) = fst (peers ! j) \<and> site_of (?ps ! j) = site_of (peers ! j) \<and> peer_ok frepr udp ttl (?ps ! j)"
    if "j < length peers" for j
    using n(2) [OF that] network_ok_peer [OF assms(1) that] by (cases "j = k") (simp_all add: with_route_keeps)
  then show "j < length peers \<Longrightarrow> fst (?ps ! j) = fst (peers ! j)" by simp
  have "map fst ?ps = map fst peers" using f n(1) by (intro nth_equalityI) simp_all
  then have "map (zs_node_id \<circ> fst) ?ps = map (zs_node_id \<circ> fst) peers"
    "map (zs_zone_id \<circ> fst) ?ps = map (zs_zone_id \<circ> fst) peers" by (simp_all flip: map_map)
  moreover have "map site_of ?ps = map site_of peers" using f n(1) by (intro nth_equalityI) simp_all
  moreover have "list_all (peer_ok frepr udp ttl) ?ps" using f n(1) by (simp add: list_all_length)
  ultimately show "network_ok frepr udp ttl ?ps" using assms(1) by (simp add: network_ok_def)
qed

lemma with_route_addr:
  assumes "peer_ok frepr udp ttl q" and "m - now \<le> ttl"
  shows "addr_for m z (bh_table (snd (with_route now a q))) =
    (if z = zs_zone_id (fst a) then Some (zs_own_addr (fst a)) else addr_for m z (bh_table (snd q)))"
  using assms by (cases q) (simp add: with_route_def addr_for_learn)

lemma gossip_routes:
  assumes "network_ok frepr udp ttl peers" and "\<forall>(n, k)\<in>set turns. k < length peers \<and> m - n \<le> ttl"
    and "i < length peers" and "j < length peers" and "i \<noteq> j"
  shows "peer_ok frepr udp ttl (gossip frepr rp turns peers ! j) \<and> fst (gossip frepr rp turns peers ! j) = fst (peers ! j) \<and>
    addr_for m (zs_zone_id (fst (peers ! i))) (bh_table (snd (gossip frepr rp turns peers ! j))) =
      (if i \<in> snd ` set turns then Some (zs_own_addr (fst (peers ! i)))
       else addr_for m (zs_zone_id (fst (peers ! i))) (bh_table (snd (peers ! j))))"
  using assms
proof (induction turns arbitrary: peers)
  case Nil
  then show ?case by (simp add: network_ok_peer)
next
  case (Cons t turns)
  obtain n k where t: "t = (n, k)" by fastforce
  then have k: "k < length peers" "m - n \<le> ttl" using Cons.prems(2) by auto
  let ?ps = "announces frepr rp n k peers" and ?z = "zs_zone_id (fst (peers ! i))"
  note ok = announces_ok [OF Cons.prems(1) k(1), where rp = rp and now = n]
    and nth = announces_nth [OF Cons.prems(1) k(1), where rp = rp and now = n]
  have r: "addr_for m ?z (bh_table (snd (?ps ! j))) =
      (if k = i then Some (zs_own_addr (fst (peers ! i))) else addr_for m ?z (bh_table (snd (peers ! j))))"
    using nth(2) [OF Cons.prems(4)] with_route_addr [OF network_ok_peer [OF Cons.prems(1,4)] k(2), of ?z "peers ! k"]
      network_ok_distinct(2) [OF Cons.prems(1,3) k(1)] Cons.prems(5) by auto
  have "peer_ok frepr udp ttl (gossip frepr rp turns ?ps ! j) \<and> fst (gossip frepr rp turns ?ps ! j) = fst (?ps ! j) \<and>
      addr_for m (zs_zone_id (fst (?ps ! i))) (bh_table (snd (gossip frepr rp turns ?ps ! j))) =
        (if i \<in> snd ` set turns then Some (zs_own_addr (fst (?ps ! i)))
         else addr_for m (zs_zone_id (fst (?ps ! i))) (bh_table (snd (?ps ! j))))"
    using Cons.prems nth(1) by (intro Cons.IH ok(1)) (auto simp: t)
  then show ?case using ok(2) Cons.prems(3,4) r by (auto simp: t)
qed

section \<open>Properties\<close>

text \<open>C21. The mesh wires itself: in any network of nodes with distinct ids, zones and addresses, after each
  has announced itself, in whatever order and however often, every node forwards a packet for any
  other zone as one datagram to that zone's node, until the announcements expire. No zone table is
  configured anywhere.\<close>

theorem mesh_converges:
  assumes "network_ok frepr udp ttl peers" and "\<forall>(n, k)\<in>set turns. k < length peers \<and> m - n \<le> ttl"
    and "i < length peers" and "j < length peers" and "i \<noteq> j" and "i \<in> snd ` set turns"
    and "endpoint udp (zs_own_addr (fst (peers ! i))) = pair_addr h p"
  shows "forward_to_zone m quiet_net (snd (gossip frepr rp turns peers ! j)) (zs_zone_id (fst (peers ! i))) packet =
    ([Datagram h p packet], None)"
proof -
  obtain zs bh where g: "gossip frepr rp turns peers ! j = (zs, bh)" by fastforce
  let ?a = "zs_own_addr (fst (peers ! i))" and ?z = "zs_zone_id (fst (peers ! i))"
  note r = gossip_routes [OF assms(1-5), of rp, unfolded g]
  have bh: "bh_zone_id bh = zs_zone_id zs" "bh_port bh = udp" "zs = fst (peers ! j)" using r by simp_all
  have route: "addr_for m ?z (bh_table bh) = Some ?a" using r assms(6) by simp
  have other: "?z \<noteq> bh_zone_id bh" using network_ok_distinct(2) [OF assms(1,3,4,5)] bh(1,3) by simp
  obtain z b where "peers ! i = (z, b)" by fastforce
  then have "is_site (endpoint udp ?a)" using network_ok_peer [OF assms(1,3)] by simp
  then have p: "0 \<le> p" "p \<le> 65535" using assms(7) by (simp_all add: is_site_def)
  have "?a \<noteq> AValue JNull" using assms(7) by auto
  with route other bh(2) assms(7) have "forward_to_zone m quiet_net bh ?z packet = bh_send quiet_net (pair_addr h p) packet"
    by (simp add: forward_to_zone_def)
  also have "\<dots> = ([Datagram h p packet], None)"
    using p by (simp add: bh_send_def sendto_pair_def quiet_net_def)
  finally show ?thesis by (simp add: g)
qed

definition sample_peer :: "nat \<Rightarrow> peer" where
  "sample_peer k =
     (\<lparr>zs_node_id = [65 + k], zs_zone_id = int k, zs_own_addr = host_addr [49 + k]\<rparr>,
      bh_start (bh_on_control (bh_init (int k) None (Some (host_addr [49 + k])) (host_addr [57]) 7)))"

theorem mesh_converges_witness:
  "forward_to_zone 100 quiet_net (snd (gossip (\<lambda>_. []) (\<lambda>_. []) [(0, 2), (5, 0), (9, 1)] (map sample_peer [0, 1, 2]) ! 0)) 2 [1, 2, 3] =
     ([Datagram [51] 7 [1, 2, 3]], None)"
proof -
  let ?ps = "map sample_peer [0, 1, 2]"
  have t: "ztable_ok (ztable_init z [] 180 :: addr ztable)" "entry_ttl_s (ztable_init z [] 180 :: addr ztable) = 180" for z
    by (simp add: ztable_ok_init) (simp add: ztable_init_def)
  have "announceable (\<lambda>_. []) [65 + k] (int k) (host_addr [49 + k])" if "k < 3" for k
    using that by (simp add: announceable_def encodable_def is_surrogate_def INT_MAX_STR_DIGITS_def nat_digits.simps)
  then have "peer_ok (\<lambda>_. []) 7 180 (sample_peer k)" if "k < 3" for k
    using that by (simp add: sample_peer_def bh_start_def bh_on_control_def bh_init_def is_site_def t)
  then have "network_ok (\<lambda>_. []) 7 180 ?ps"
    by (simp add: network_ok_def) (simp add: sample_peer_def bh_start_def bh_on_control_def bh_init_def)
  moreover have "\<forall>(n, k)\<in>set [(0 :: real, 2), (5, 0), (9, 1)]. k < length ?ps \<and> 100 - n \<le> 180" by simp
  moreover have "zs_zone_id (fst (?ps ! 2)) = 2" "endpoint 7 (zs_own_addr (fst (?ps ! 2))) = pair_addr [51] 7"
    by (simp_all add: sample_peer_def)
  ultimately show ?thesis
    using mesh_converges [of "\<lambda>_. []" 7 180 ?ps "[(0, 2), (5, 0), (9, 1)]" 100 2 0 "[51]" 7 "\<lambda>_. []" "[1, 2, 3]"]
    by (simp del: gossip.simps list.map)
qed

end
