(* ===== verification/ProxyPool.thy ===== *)
theory ProxyPool
  imports BackendProxy "HOL-Library.Multiset"
begin

text \<open>
  The worker pool of \<open>BackendProxyService\<close>: four workers on one queue, so up to four requests are under
  way at a time and finish in any order. The node's machine serves one request at a time; this theory
  shows that the pool gives the phones the same answers.
\<close>

section \<open>The pool\<close>

definition MAX_WORKERS :: nat where
  "MAX_WORKERS = 4"

type_synonym job = "pystr \<times> (pystr, json) dict"

text \<open>The service, and the requests the workers are busy with.\<close>

record pool =
  pool_proxy :: proxy
  busy :: "job list"

definition pool_init :: "pystr \<Rightarrow> pool" where
  "pool_init base_url = \<lparr>pool_proxy = proxy_init base_url, busy = []\<rparr>"

text \<open>A frame from the relay; an idle worker takes the next job and calls the backend; the answer of the
  \<open>i\<close>th call under way comes in, and its worker replies; \<open>stop\<close>, which drops the queue and lets the
  calls under way finish.\<close>

datatype pool_event =
    Frame pystr bytes
  | Take
  | Finish nat "http_request \<Rightarrow> http_result" faults transport
  | Shut

datatype pool_act = Calls job "http_request option" | Replies job "radio list"

fun pool_step ::
  "(real \<Rightarrow> pystr) \<Rightarrow> (json \<Rightarrow> pystr) \<Rightarrow> pool_event \<Rightarrow> pool \<Rightarrow> pool_act list \<times> pool" where
  "pool_step frepr rp (Frame p fr) s = ([], s\<lparr>pool_proxy := proxy_handle_frame p fr (pool_proxy s)\<rparr>)"
| "pool_step frepr rp Take s =
     (case bp_jobs (pool_proxy s) of
        [] \<Rightarrow> ([], s)
      | (p, req) # jobs \<Rightarrow>
          (if length (busy s) < MAX_WORKERS
           then ([Calls (p, req) (fst (execute frepr rp (\<lambda>_. NoResponse) (bp_base_url (pool_proxy s)) req))],
                 s\<lparr>pool_proxy := (pool_proxy s)\<lparr>bp_jobs := jobs\<rparr>, busy := busy s @ [(p, req)]\<rparr>)
           else ([], s)))"
| "pool_step frepr rp (Finish i uplink f t) s =
     (if i < length (busy s)
      then (case busy s ! i of (p, req) \<Rightarrow>
              ([Replies (p, req) (serve frepr rp uplink (bp_base_url (pool_proxy s)) f t p req)],
               s\<lparr>busy := take i (busy s) @ drop (Suc i) (busy s)\<rparr>))
      else ([], s))"
| "pool_step frepr rp Shut s = ([], s\<lparr>pool_proxy := proxy_stop (pool_proxy s)\<rparr>)"

fun pool_run ::
  "(real \<Rightarrow> pystr) \<Rightarrow> (json \<Rightarrow> pystr) \<Rightarrow> pool_event list \<Rightarrow> pool \<Rightarrow> pool_act list \<times> pool" where
  "pool_run frepr rp [] s = ([], s)"
| "pool_run frepr rp (e # es) s =
     (case pool_step frepr rp e s of (out, s') \<Rightarrow> (case pool_run frepr rp es s' of (out', s'') \<Rightarrow> (out @ out', s'')))"

text \<open>The jobs the relay handed over before \<open>stop\<close>.\<close>

definition jobs_of :: "pystr \<Rightarrow> bytes \<Rightarrow> job list" where
  "jobs_of p fr =
     (case proxy_decode fr of
        None \<Rightarrow> []
      | Some body \<Rightarrow> if dict_get body (lit ''t'') = JStr (lit ''req'') then [(p, body)] else [])"

fun submitted :: "pool_event list \<Rightarrow> job list" where
  "submitted [] = []"
| "submitted (Frame p fr # es) = jobs_of p fr @ submitted es"
| "submitted (Shut # es) = []"
| "submitted (e # es) = submitted es"

fun called :: "pool_act \<Rightarrow> job list" where
  "called (Calls j rq) = [j]"
| "called a = []"

fun replied :: "pool_act \<Rightarrow> job list" where
  "replied (Replies j out) = [j]"
| "replied a = []"

fun reply_sent :: "pool_act \<Rightarrow> radio list list" where
  "reply_sent (Replies j out) = [out]"
| "reply_sent a = []"

abbreviation all_of :: "('a \<Rightarrow> 'b list) \<Rightarrow> 'a list \<Rightarrow> 'b list" where
  "all_of f xs \<equiv> concat (map f xs)"

text \<open>The service of the node's machine, that works off its queue one by one.\<close>

fun work_off ::
  "(real \<Rightarrow> pystr) \<Rightarrow> (json \<Rightarrow> pystr) \<Rightarrow> (http_request \<Rightarrow> http_result) \<Rightarrow> faults \<Rightarrow> transport \<Rightarrow> nat \<Rightarrow> proxy
   \<Rightarrow> radio list list" where
  "work_off frepr rp uplink f t 0 s = []"
| "work_off frepr rp uplink f t (Suc n) s =
     (case proxy_work frepr rp uplink f t s of (out, s') \<Rightarrow> out # work_off frepr rp uplink f t n s')"

section \<open>Lemmas\<close>

lemma handle_frame_jobs:
  "proxy_handle_frame p fr s = (if bp_shut s then s else s\<lparr>bp_jobs := bp_jobs s @ jobs_of p fr\<rparr>)"
  by (simp add: proxy_handle_frame_def jobs_of_def split: option.split)

lemma execute_asks:
  "fst (execute frepr rp uplink base req) = fst (execute frepr rp uplink' base req)"
  by (simp add: execute_def Let_def split: sum.split)

lemma mset_take_nth:
  "i < length xs \<Longrightarrow> mset xs = add_mset (xs ! i) (mset (take i xs @ drop (Suc i) xs))"
  by (subst id_take_nth_drop [of i xs]) simp_all

text \<open>Where the jobs are: called in the order of the queue, and each called one replied to or under way.\<close>

lemma pool_run_invariant:
  assumes "length (busy s) \<le> MAX_WORKERS"
  shows "length (busy (snd (pool_run frepr rp es s))) \<le> MAX_WORKERS \<and>
    mset (busy s) + mset (all_of called (fst (pool_run frepr rp es s))) =
      mset (all_of replied (fst (pool_run frepr rp es s))) + mset (busy (snd (pool_run frepr rp es s))) \<and>
    (if bp_shut (pool_proxy s) then prefix (all_of called (fst (pool_run frepr rp es s))) (bp_jobs (pool_proxy s))
     else prefix (all_of called (fst (pool_run frepr rp es s))) (bp_jobs (pool_proxy s) @ submitted es))"
  using assms
proof (induction es arbitrary: s)
  case (Cons e es)
  show ?case
  proof (cases e)
    case (Frame p fr)
    with Cons.IH [of "s\<lparr>pool_proxy := proxy_handle_frame p fr (pool_proxy s)\<rparr>"] Cons.prems show ?thesis
      by (simp add: handle_frame_jobs case_prod_beta split: if_splits)
  next
    case Take
    show ?thesis
    proof (cases "bp_jobs (pool_proxy s) = [] \<or> \<not> length (busy s) < MAX_WORKERS")
      case True
      then have "pool_step frepr rp e s = ([], s)" by (auto simp: Take split: list.split)
      with Cons.IH [of s] Cons.prems Take show ?thesis by (simp add: case_prod_beta)
    next
      case False
      then obtain p req js where j: "bp_jobs (pool_proxy s) = (p, req) # js" by (cases "bp_jobs (pool_proxy s)") auto
      let ?s = "s\<lparr>pool_proxy := (pool_proxy s)\<lparr>bp_jobs := js\<rparr>, busy := busy s @ [(p, req)]\<rparr>"
      have "pool_step frepr rp e s =
          ([Calls (p, req) (fst (execute frepr rp (\<lambda>_. NoResponse) (bp_base_url (pool_proxy s)) req))], ?s)"
        using j False by (simp add: Take)
      with Cons.IH [of ?s] False j Take show ?thesis by (simp add: case_prod_beta ac_simps split: if_splits)
    qed
  next
    case (Finish i u f t)
    show ?thesis
    proof (cases "i < length (busy s)")
      case True
      obtain p req where b: "busy s ! i = (p, req)" by fastforce
      define s' where "s' = s\<lparr>busy := take i (busy s) @ drop (Suc i) (busy s)\<rparr>"
      have r: "pool_step frepr rp e s = ([Replies (p, req) (serve frepr rp u (bp_base_url (pool_proxy s)) f t p req)], s')"
        using True b by (simp add: Finish s'_def)
      have "length (busy s') \<le> MAX_WORKERS" "pool_proxy s' = pool_proxy s" "submitted (e # es) = submitted es"
        using Cons.prems True by (simp_all add: s'_def Finish)
      moreover have "mset (busy s) = add_mset (p, req) (mset (busy s'))" using mset_take_nth [OF True] b by (simp add: s'_def)
      ultimately show ?thesis using Cons.IH [of s'] r by (simp add: case_prod_beta split: if_splits)
    next
      case False
      with Cons.IH [of s] Cons.prems Finish show ?thesis by (simp add: case_prod_beta)
    qed
  next
    case Shut
    let ?s = "s\<lparr>pool_proxy := proxy_stop (pool_proxy s)\<rparr>"
    from Cons.IH [of ?s] Cons.prems show ?thesis 
      by (auto simp: Shut case_prod_beta proxy_stop_def simp del: concat_eq_Nil_conv)
  qed
qed simp

text \<open>Without \<open>stop\<close> nothing is lost between the queue and the calls.\<close>

lemma pool_run_queue:
  assumes "Shut \<notin> set es" and "\<not> bp_shut (pool_proxy s)"
  shows "bp_jobs (pool_proxy s) @ submitted es =
      all_of called (fst (pool_run frepr rp es s)) @ bp_jobs (pool_proxy (snd (pool_run frepr rp es s))) \<and>
    bp_base_url (pool_proxy (snd (pool_run frepr rp es s))) = bp_base_url (pool_proxy s)"
  using assms
proof (induction es arbitrary: s)
  case (Cons e es)
  have "\<not> bp_shut (pool_proxy (snd (pool_step frepr rp e s)))"
    "bp_base_url (pool_proxy (snd (pool_step frepr rp e s))) = bp_base_url (pool_proxy s)"
    using Cons.prems by (cases e; auto simp: handle_frame_jobs split: list.split prod.split)+
  moreover have "bp_jobs (pool_proxy s) @ submitted (e # es) =
      all_of called (fst (pool_step frepr rp e s)) @ bp_jobs (pool_proxy (snd (pool_step frepr rp e s))) @ submitted es"
    using Cons.prems by (cases e) (auto simp: handle_frame_jobs split: list.split prod.split)
  ultimately show ?case using Cons.IH [of "snd (pool_step frepr rp e s)"] Cons.prems(1) by (simp add: case_prod_beta)
qed simp

text \<open>Every reply is that of the sequential service to its job.\<close>

lemma pool_run_replies:
  assumes "Shut \<notin> set es" and "\<not> bp_shut (pool_proxy s)" and "\<forall>e\<in>set es. \<forall>i u f' t'. e = Finish i u f' t' \<longrightarrow> u = uplink \<and> f' = f \<and> t' = t"
  shows "all_of reply_sent (fst (pool_run frepr rp es s)) =
    map (\<lambda>(p, req). serve frepr rp uplink (bp_base_url (pool_proxy s)) f t p req) (all_of replied (fst (pool_run frepr rp es s)))"
  using assms
proof (induction es arbitrary: s)
  case (Cons e es)
  have b: "bp_base_url (pool_proxy (snd (pool_step frepr rp e s))) = bp_base_url (pool_proxy s) \<and>
      \<not> bp_shut (pool_proxy (snd (pool_step frepr rp e s)))"
    using Cons.prems by (cases e) (auto simp: handle_frame_jobs split: list.split prod.split)
  have "all_of reply_sent (fst (pool_step frepr rp e s)) =
      map (\<lambda>(p, req). serve frepr rp uplink (bp_base_url (pool_proxy s)) f t p req) (all_of replied (fst (pool_step frepr rp e s)))"
    using Cons.prems(3) by (cases e) (auto split: list.split prod.split)
  with b Cons.IH [of "snd (pool_step frepr rp e s)"] Cons.prems(1,3) show ?case by (simp add: case_prod_beta)
qed simp

lemma work_off_all:
  "length (bp_jobs s) = n \<Longrightarrow> work_off frepr rp uplink f t n s =
     map (\<lambda>(p, req). serve frepr rp uplink (bp_base_url s) f t p req) (bp_jobs s)"
proof (induction n arbitrary: s)
  case (Suc n)
  then obtain p req js where "bp_jobs s = (p, req) # js" by (cases "bp_jobs s") auto
  with Suc show ?case by (simp add: proxy_work_def)
qed simp

section \<open>Properties\<close>

text \<open>The pool keeps its accounts: whatever frames, answers and stops come in whatever order, at most
  four calls are under way; the backend is called for the jobs in the order in which the phones' frames
  came, each at most once; and every call is replied to once or still under way.\<close>

theorem pool_serves_each_job_once:
  "case pool_run frepr rp es (pool_init base_url) of (acts, s) \<Rightarrow>
     length (busy s) \<le> 4 \<and> prefix (all_of called acts) (submitted es) \<and>
     mset (all_of called acts) = mset (all_of replied acts) + mset (busy s)"
  using pool_run_invariant [of "pool_init base_url" frepr rp es]
  by (simp add: pool_init_def proxy_init_def MAX_WORKERS_def case_prod_beta)


definition sample_schedule :: "bytes \<Rightarrow> pool_event list" where
  "sample_schedule fr = [Frame [1] fr, Frame [2] fr, Take, Take,
     Finish 1 (\<lambda>_. Response 200 [79, 75]) no_faults (BleOnly (ble_init gatt_init)),
     Finish 0 (\<lambda>_. Response 200 [79, 75]) no_faults (BleOnly (ble_init gatt_init))]"

lemma sample_schedule_ends:
  assumes "\<And>q. jobs_of q fr = [(q, req)]"
  obtains acts s where "pool_run frepr rp (sample_schedule fr) (pool_init b) = (acts, s)" "busy s = []"
    "bp_jobs (pool_proxy s) = []" "submitted (sample_schedule fr) = [([1], req), ([2], req)]"
  by (simp add: sample_schedule_def pool_init_def proxy_init_def handle_frame_jobs assms MAX_WORKERS_def)


end
