(* ===== verification/GattBackends.thy ===== *)
theory GattBackends
  imports Gatt
begin

text \<open>
  What the two Bluetooth backends publish and when. \<open>ble/bluez.py\<close>: the D-Bus object tree the node
  exports, the search for an adapter and the calls of \<open>start\<close>. \<open>ble/corebluetooth.py\<close>: the life of the
  peripheral manager, from its creation over the registered service to advertising and the stop.
\<close>

section \<open>BlueZ\<close>

definition GATT_MANAGER_IFACE :: pystr where
  "GATT_MANAGER_IFACE = lit ''org.bluez.GattManager1''"

definition GATT_SERVICE_IFACE :: pystr where
  "GATT_SERVICE_IFACE = lit ''org.bluez.GattService1''"

definition GATT_CHRC_IFACE :: pystr where
  "GATT_CHRC_IFACE = lit ''org.bluez.GattCharacteristic1''"

definition LE_AD_MANAGER_IFACE :: pystr where
  "LE_AD_MANAGER_IFACE = lit ''org.bluez.LEAdvertisingManager1''"

definition LE_AD_IFACE :: pystr where
  "LE_AD_IFACE = lit ''org.bluez.LEAdvertisement1''"

definition APP_PATH :: pystr where
  "APP_PATH = lit ''/com/meshlink/node''"

definition MESH_SERVICE_UUID :: pystr where
  "MESH_SERVICE_UUID = lit ''4d455348-4c49-4e4b-0001-000000000001''"

definition RX_CHAR_UUID :: pystr where
  "RX_CHAR_UUID = lit ''4d455348-4c49-4e4b-0002-000000000002''"

definition TX_CHAR_UUID :: pystr where
  "TX_CHAR_UUID = lit ''4d455348-4c49-4e4b-0003-000000000003''"

definition BLE_LOCAL_NAME :: pystr where
  "BLE_LOCAL_NAME = lit ''MeshLink''"

text \<open>The values of D-Bus properties the node uses.\<close>

datatype dbus_value = DString pystr | DBoolean bool | DPath pystr | DArray "pystr list"

type_synonym dbus_props = "(pystr, dbus_value) dict"

definition ADVERTISEMENT_PATH :: pystr where
  "ADVERTISEMENT_PATH = APP_PATH @ lit ''/advertisement0''"

definition advertisement_properties :: dbus_props where
  "advertisement_properties =
     [(lit ''Type'', DString (lit ''peripheral'')), (lit ''ServiceUUIDs'', DArray [MESH_SERVICE_UUID]),
      (lit ''LocalName'', DString BLE_LOCAL_NAME), (lit ''Discoverable'', DBoolean True)]"

text \<open>\<open>GetAll\<close>: \<open>None\<close> is the D-Bus error \<open>InvalidArguments\<close>.\<close>

definition advertisement_get_all :: "pystr \<Rightarrow> dbus_props option" where
  "advertisement_get_all interface = (if interface \<noteq> LE_AD_IFACE then None else Some advertisement_properties)"

record chrc =
  chrc_path :: pystr
  chrc_uuid :: pystr
  chrc_flags :: "pystr list"
  chrc_service :: pystr

definition chrc_properties :: "chrc \<Rightarrow> (pystr, dbus_props) dict" where
  "chrc_properties c =
     [(GATT_CHRC_IFACE,
       [(lit ''Service'', DPath (chrc_service c)), (lit ''UUID'', DString (chrc_uuid c)), (lit ''Flags'', DArray (chrc_flags c))])]"

definition chrc_get_all :: "chrc \<Rightarrow> pystr \<Rightarrow> dbus_props option" where
  "chrc_get_all c interface = (if interface \<noteq> GATT_CHRC_IFACE then None else map_of (chrc_properties c) GATT_CHRC_IFACE)"

definition SERVICE_PATH :: pystr where
  "SERVICE_PATH = APP_PATH @ lit ''/service0''"

definition rx_chrc :: "pystr \<Rightarrow> chrc" where
  "rx_chrc service_path = \<lparr>chrc_path = service_path @ lit ''/char_rx'', chrc_uuid = RX_CHAR_UUID,
     chrc_flags = [lit ''write'', lit ''write-without-response''], chrc_service = service_path\<rparr>"

definition tx_chrc :: "pystr \<Rightarrow> chrc" where
  "tx_chrc service_path = \<lparr>chrc_path = service_path @ lit ''/char_tx'', chrc_uuid = TX_CHAR_UUID,
     chrc_flags = [lit ''notify''], chrc_service = service_path\<rparr>"

definition service_properties :: "(pystr, dbus_props) dict" where
  "service_properties =
     [(GATT_SERVICE_IFACE, [(lit ''UUID'', DString MESH_SERVICE_UUID), (lit ''Primary'', DBoolean True)])]"

definition service_get_all :: "pystr \<Rightarrow> dbus_props option" where
  "service_get_all interface = (if interface \<noteq> GATT_SERVICE_IFACE then None else map_of service_properties GATT_SERVICE_IFACE)"

text \<open>\<open>Application.GetManagedObjects\<close>.\<close>

definition managed_objects :: "(pystr, (pystr, dbus_props) dict) dict" where
  "managed_objects =
     [(SERVICE_PATH, service_properties),
      (chrc_path (rx_chrc SERVICE_PATH), chrc_properties (rx_chrc SERVICE_PATH)),
      (chrc_path (tx_chrc SERVICE_PATH), chrc_properties (tx_chrc SERVICE_PATH))]"

text \<open>\<open>_find_adapter\<close> on what BlueZ answers: the paths and the interfaces of each.\<close>

fun find_adapter :: "(pystr \<times> pystr list) list \<Rightarrow> exn + pystr" where
  "find_adapter [] = Inl RuntimeError"
| "find_adapter ((path, ifaces) # rest) =
     (if GATT_MANAGER_IFACE \<in> set ifaces \<and> LE_AD_MANAGER_IFACE \<in> set ifaces then Inr path else find_adapter rest)"

datatype dbus_call = PowerOn pystr | RegisterApplication pystr pystr | RegisterAdvertisement pystr pystr

definition bluez_start :: "(pystr \<times> pystr list) list \<Rightarrow> exn + dbus_call list" where
  "bluez_start objects =
     (case find_adapter objects of
        Inl e \<Rightarrow> Inl e
      | Inr path \<Rightarrow> Inr [PowerOn path, RegisterApplication path APP_PATH, RegisterAdvertisement path ADVERTISEMENT_PATH])"

section \<open>CoreBluetooth\<close>

text \<open>The manager is created or not, advertises or not; the run loop runs or not; \<open>added\<close> and
  \<open>answered\<close> count the services handed to the manager and its answers.\<close>

record cb =
  manager :: bool
  advertising :: bool
  runloop :: bool
  added :: nat
  answered :: nat
  tx :: cb_tx

definition cb_init :: cb where
  "cb_init = \<lparr>manager = False, advertising = False, runloop = False, added = 0, answered = 0,
     tx = \<lparr>tx_char = False, pending = []\<rparr>\<rparr>"

datatype cb_call = AddService | StartAdvertising | StopAdvertising | StopLoop

definition cb_start :: "cb \<Rightarrow> cb" where
  "cb_start s = s\<lparr>manager := True\<rparr>"

definition cb_run_forever :: "cb \<Rightarrow> cb" where
  "cb_run_forever s = s\<lparr>runloop := True\<rparr>"

definition cb_stop :: "cb \<Rightarrow> cb_call list \<times> cb" where
  "cb_stop s =
     ((if manager s \<and> advertising s then [StopAdvertising] else []) @ (if runloop s then [StopLoop] else []),
      s\<lparr>advertising := False, runloop := False\<rparr>)"

definition register_service :: "cb \<Rightarrow> cb_call list \<times> cb" where
  "register_service s = ([AddService], s\<lparr>tx := (tx s)\<lparr>tx_char := True\<rparr>, added := Suc (added s)\<rparr>)"

definition cb_state_changed :: "bool \<Rightarrow> cb \<Rightarrow> cb_call list \<times> cb" where
  "cb_state_changed powered_on s = (if \<not> powered_on then ([], s) else register_service s)"

definition cb_service_added :: "bool \<Rightarrow> cb \<Rightarrow> cb_call list \<times> cb" where
  "cb_service_added failed s =
     (if failed then cb_stop s else ([StartAdvertising], s\<lparr>advertising := True\<rparr>))"

text \<open>The life of the backend: the manager calls its delegate only once it exists and answers each
  \<open>addService\<close> at most once; notifications and flushes come in between.\<close>

inductive cb_life :: "cb_call list \<Rightarrow> cb \<Rightarrow> bool" where
  born: "cb_life [] cb_init"
| start: "cb_life cs s \<Longrightarrow> cb_life cs (cb_start s)"
| run: "cb_life cs s \<Longrightarrow> cb_life cs (cb_run_forever s)"
| stop: "cb_life cs s \<Longrightarrow> cb_life (cs @ fst (cb_stop s)) (snd (cb_stop s))"
| state_changed: "cb_life cs s \<Longrightarrow> manager s \<Longrightarrow>
    cb_life (cs @ fst (cb_state_changed on s)) (snd (cb_state_changed on s))"
| service_added: "cb_life cs s \<Longrightarrow> manager s \<Longrightarrow> answered s < added s \<Longrightarrow> s' = s\<lparr>answered := Suc (answered s)\<rparr> \<Longrightarrow>
    cb_life (cs @ fst (cb_service_added failed s')) (snd (cb_service_added failed s'))"
| notify: "cb_life cs s \<Longrightarrow> cb_life cs (s\<lparr>tx := snd (cb_notify_chunk (tx s) data accepted)\<rparr>)"
| flush: "cb_life cs s \<Longrightarrow> cb_life cs (s\<lparr>tx := snd (cb_flush_pending (tx s) answers)\<rparr>)"

section \<open>Lemmas\<close>

lemma cb_queue_keeps_char:
  "tx_char (snd (cb_notify_chunk q d a)) = tx_char q" "tx_char (snd (cb_flush_pending q f)) = tx_char q"
  by (simp_all add: cb_notify_chunk_def cb_flush_pending_def split: prod.split)

lemma cb_no_char_no_queue:
  "\<not> tx_char q \<Longrightarrow> pending q = [] \<Longrightarrow> pending (snd (cb_notify_chunk q d a)) = []"
  "pending q = [] \<Longrightarrow> pending (snd (cb_flush_pending q f)) = []"
  by (simp_all add: cb_notify_chunk_def cb_flush_pending_def)

text \<open>The invariant: what is published follows what was registered, call by call.\<close>

lemma cb_life_inv:
  "cb_life cs s \<Longrightarrow>
   length (filter (\<lambda>c. c = AddService) cs) = added s \<and> length (filter (\<lambda>c. c = StartAdvertising) cs) \<le> answered s \<and>
   answered s \<le> added s \<and> (tx_char (tx s) \<longleftrightarrow> 0 < added s) \<and> (advertising s \<longrightarrow> manager s \<and> 0 < answered s) \<and>
   (\<not> tx_char (tx s) \<longrightarrow> pending (tx s) = [])"
proof (induction rule: cb_life.induct)
  case (state_changed cs s on)
  then show ?case by (auto simp: cb_state_changed_def register_service_def)
next
  case (service_added cs s s' failed)
  then show ?case by (auto simp: cb_service_added_def cb_stop_def)
qed (auto simp: cb_init_def cb_start_def cb_run_forever_def cb_stop_def cb_queue_keeps_char cb_no_char_no_queue)

lemma find_adapter_skips:
  "\<forall>(p, ifs)\<in>set before. \<not> (GATT_MANAGER_IFACE \<in> set ifs \<and> LE_AD_MANAGER_IFACE \<in> set ifs) \<Longrightarrow>
   find_adapter (before @ rest) = find_adapter rest"
  by (induction before) auto

section \<open>Properties\<close>

text \<open>BlueZ finds a tree that fits together: every exported characteristic lies under the exported
  service and names it, \<open>GetAll\<close> answers exactly what the tree shows and refuses other interfaces,
  and the advertisement announces the service's own UUID.\<close>

theorem gatt_tree_consistent:
  "(\<forall>c\<in>{rx_chrc SERVICE_PATH, tx_chrc SERVICE_PATH}.
      chrc_service c = SERVICE_PATH \<and> starts_with (chrc_path c) (SERVICE_PATH @ [47]) \<and>
      map_of managed_objects (chrc_path c) = Some (chrc_properties c) \<and>
      (\<forall>i. chrc_get_all c i = (if i = GATT_CHRC_IFACE then map_of (chrc_properties c) i else None)) \<and>
      (\<exists>ps. chrc_get_all c GATT_CHRC_IFACE = Some ps \<and> map_of ps (lit ''Service'') = Some (DPath SERVICE_PATH))) \<and>
   map_of managed_objects SERVICE_PATH = Some service_properties \<and>
   (\<exists>sp ap. service_get_all GATT_SERVICE_IFACE = Some sp \<and> advertisement_get_all LE_AD_IFACE = Some ap \<and>
      (\<exists>u. map_of sp (lit ''UUID'') = Some (DString u) \<and> map_of ap (lit ''ServiceUUIDs'') = Some (DArray [u])))"
  by (simp add: rx_chrc_def tx_chrc_def chrc_properties_def chrc_get_all_def managed_objects_def service_properties_def
      service_get_all_def advertisement_get_all_def advertisement_properties_def starts_with_def lit_def)

text \<open>The peripheral publishes in order: in whatever order the manager reports power, registration and
  failures, it starts to advertise at most once for each service it has registered, advertises only
  when one is registered, and queues nothing for the phones before there is a characteristic.\<close>

theorem cb_publishes_in_order:
  assumes "cb_life cs s"
  shows "length (filter (\<lambda>c. c = StartAdvertising) cs) \<le> length (filter (\<lambda>c. c = AddService) cs) \<and>
    (advertising s \<longrightarrow> AddService \<in> set cs \<and> tx_char (tx s)) \<and>
    (AddService \<notin> set cs \<longrightarrow> pending (tx s) = [] \<and> fst (cb_notify_chunk (tx s) d a) = [])"
proof -
  note i = cb_life_inv [OF assms]
  have "0 < length (filter (\<lambda>c. c = AddService) cs) \<longleftrightarrow> AddService \<in> set cs"
    unfolding length_greater_0_conv filter_empty_conv by blast
  then have "AddService \<in> set cs \<longleftrightarrow> 0 < added s" using i by simp
  then show ?thesis using i by (auto simp: cb_notify_chunk_def)
qed

theorem cb_publishes_in_order_witness:
  "\<exists>s. cb_life [AddService, StartAdvertising] s \<and> advertising s \<and> tx_char (tx s)"
proof -
  let ?s = "snd (register_service (cb_start cb_init))"
  have a: "cb_life [AddService] ?s"
    using cb_life.state_changed [OF cb_life.start [OF cb_life.born], of True]
    by (simp add: cb_state_changed_def cb_start_def register_service_def)
  have b: "cb_life ([AddService] @ fst (cb_service_added False (?s\<lparr>answered := Suc (answered ?s)\<rparr>)))
      (snd (cb_service_added False (?s\<lparr>answered := Suc (answered ?s)\<rparr>)))"
    by (rule cb_life.service_added [OF a]) (simp_all add: register_service_def cb_start_def cb_init_def)
  from cb_publishes_in_order [OF b] b show ?thesis
    by (intro exI [of _ "snd (cb_service_added False (?s\<lparr>answered := Suc (answered ?s)\<rparr>))"])
      (simp add: cb_service_added_def)
qed

text \<open>The start picks the first adapter that can both serve and advertise, powers it and registers the
  tree and the advertisement there, in this order; without one the start raises and calls nothing.\<close>

theorem bluez_start_on_first_adapter:
  assumes "\<forall>(p, ifs)\<in>set before. \<not> (GATT_MANAGER_IFACE \<in> set ifs \<and> LE_AD_MANAGER_IFACE \<in> set ifs)"
  shows "bluez_start before = Inl RuntimeError \<and>
    (GATT_MANAGER_IFACE \<in> set ifaces \<and> LE_AD_MANAGER_IFACE \<in> set ifaces \<longrightarrow>
     bluez_start (before @ (path, ifaces) # after) =
       Inr [PowerOn path, RegisterApplication path APP_PATH, RegisterAdvertisement path ADVERTISEMENT_PATH])"
  using find_adapter_skips [OF assms, of "[]"] find_adapter_skips [OF assms, of "(path, ifaces) # after"]
  by (simp add: bluez_start_def)

theorem bluez_start_on_first_adapter_witness:
  "bluez_start ([([49], [GATT_MANAGER_IFACE])] @ ([50], [LE_AD_MANAGER_IFACE, GATT_MANAGER_IFACE]) # []) =
     Inr [PowerOn [50], RegisterApplication [50] APP_PATH, RegisterAdvertisement [50] ADVERTISEMENT_PATH]"
proof -
  have "LE_AD_MANAGER_IFACE \<noteq> GATT_MANAGER_IFACE" by (simp add: LE_AD_MANAGER_IFACE_def GATT_MANAGER_IFACE_def lit_def)
  then have "\<forall>(p, ifs)\<in>set [([49 :: nat], [GATT_MANAGER_IFACE])].
      \<not> (GATT_MANAGER_IFACE \<in> set ifs \<and> LE_AD_MANAGER_IFACE \<in> set ifs)" by simp
  from bluez_start_on_first_adapter [OF this] show ?thesis by simp
qed

end
