(* ===== verification/GattServers.thy ===== *)
theory GattServers
  imports GattBackends
begin

text \<open>
  The two Bluetooth servers whole: \<open>BluezGattServer\<close> and \<open>CoreBluetoothGattServer\<close> with its Objective-C
  delegate, as machines driven by the callbacks of their stacks. Both implement the shared core of
  \<open>ble/base.py\<close>: what they deliver is what the core delivers for the writes, connects and disconnects
  the callbacks mean, and what they send is the chunk stream of the packets.
\<close>

section \<open>Outbound\<close>

text \<open>The chunks of a packet, or the exception of \<open>send_packet\<close> before the first.\<close>

definition pieces_of :: "bytes \<Rightarrow> exn + bytes list" where
  "pieces_of packet = (case frame packet of Inl e \<Rightarrow> Inl e | Inr f \<Rightarrow> chunk f BLE_NOTIFY_CHUNK)"

definition pieces :: "bytes \<Rightarrow> bytes list" where
  "pieces packet = (case pieces_of packet of Inl e \<Rightarrow> [] | Inr cs \<Rightarrow> cs)"

section \<open>BlueZ\<close>

record bluez =
  bz_core :: gatt
  bz_notifying :: bool
  bz_looping :: bool

text \<open>\<open>__init__\<close>: the objects put on the bus, in this order, and the one signal listened to.\<close>

definition bluez_init :: bluez where
  "bluez_init = \<lparr>bz_core = gatt_init, bz_notifying = False, bz_looping = False\<rparr>"

definition DBUS_PROP_IFACE :: pystr where
  "DBUS_PROP_IFACE = lit ''org.freedesktop.DBus.Properties''"

definition DEVICE_IFACE :: pystr where
  "DEVICE_IFACE = lit ''org.bluez.Device1''"

definition mesh_service_exports :: "pystr list" where
  "mesh_service_exports = [SERVICE_PATH, chrc_path (rx_chrc SERVICE_PATH), chrc_path (tx_chrc SERVICE_PATH)]"

definition bluez_exports :: "pystr list" where
  "bluez_exports = mesh_service_exports @ [APP_PATH, ADVERTISEMENT_PATH]"

record signal_match =
  sm_interface :: pystr
  sm_name :: pystr
  sm_arg0 :: pystr

definition bluez_listens :: signal_match where
  "bluez_listens = \<lparr>sm_interface = DBUS_PROP_IFACE, sm_name = lit ''PropertiesChanged'', sm_arg0 = DEVICE_IFACE\<rparr>"

text \<open>A signal on the bus comes to \<open>_device_properties_changed\<close> only when it matches.\<close>

definition device_signal ::
  "signal_match \<Rightarrow> bool option \<Rightarrow> pystr option \<Rightarrow> gatt \<Rightarrow> gatt_event list \<times> gatt" where
  "device_signal sig changed path g =
     (if sig = bluez_listens then device_properties_changed g changed path else ([], g))"

definition bluez_run_forever :: "bluez \<Rightarrow> bluez" where
  "bluez_run_forever s = s\<lparr>bz_looping := True\<rparr>"

definition bluez_stop :: "bluez \<Rightarrow> bluez" where
  "bluez_stop s = s\<lparr>bz_looping := False\<rparr>"

definition bluez_fatal :: "bluez \<Rightarrow> bluez" where
  "bluez_fatal s = bluez_stop s"

text \<open>\<open>send_packet\<close> through \<open>_notify_chunk\<close>, which raises nothing.\<close>

definition bluez_send :: "bluez \<Rightarrow> bytes \<Rightarrow> bytes list \<times> exn option" where
  "bluez_send s packet =
     (case pieces_of packet of
        Inl e \<Rightarrow> ([], Some e)
      | Inr cs \<Rightarrow> (concat (map (bluez_notify_chunk (bz_notifying s)) cs), None))"

text \<open>\<open>Release\<close> of the advertisement only logs.\<close>

definition advertisement_release :: "bluez \<Rightarrow> bluez" where
  "advertisement_release s = s"

text \<open>What D-Bus, the loop and the transport call.\<close>

datatype bluez_event =
    WriteValue bytes "pystr option"
  | DeviceChanged signal_match "bool option" "pystr option"
  | StartNotify
  | StopNotify
  | BluezSend pystr bytes
  | RegistrationFailed
  | Release
  | BluezRunForever
  | BluezStop

fun bluez_step :: "bluez \<Rightarrow> bluez_event \<Rightarrow> (gatt_event list \<times> bytes list) \<times> bluez" where
  "bluez_step s (WriteValue v device) =
     (case write_value (bz_core s) v device of (evs, g) \<Rightarrow> ((evs, []), s\<lparr>bz_core := g\<rparr>))"
| "bluez_step s (DeviceChanged sig c path) =
     (case device_signal sig c path (bz_core s) of (evs, g) \<Rightarrow> ((evs, []), s\<lparr>bz_core := g\<rparr>))"
| "bluez_step s StartNotify = (([], []), s\<lparr>bz_notifying := start_notify (bz_notifying s)\<rparr>)"
| "bluez_step s StopNotify = (([], []), s\<lparr>bz_notifying := stop_notify (bz_notifying s)\<rparr>)"
| "bluez_step s (BluezSend p x) = (([], fst (bluez_send s x)), s)"
| "bluez_step s RegistrationFailed = (([], []), bluez_fatal s)"
| "bluez_step s Release = (([], []), advertisement_release s)"
| "bluez_step s BluezRunForever = (([], []), bluez_run_forever s)"
| "bluez_step s BluezStop = (([], []), bluez_stop s)"

text \<open>What an event means to the core.\<close>

fun bluez_inputs :: "bluez_event \<Rightarrow> gatt_in list" where
  "bluez_inputs (WriteValue v None) = [Chunk (lit ''unknown'') v]"
| "bluez_inputs (WriteValue v (Some d)) = [Chunk d v]"
| "bluez_inputs (DeviceChanged sig (Some True) (Some p)) = (if sig = bluez_listens then [Connect p] else [])"
| "bluez_inputs (DeviceChanged sig (Some False) (Some p)) = (if sig = bluez_listens then [Disconnect p] else [])"
| "bluez_inputs e = []"

section \<open>CoreBluetooth\<close>

record cb_server =
  cb_core :: gatt
  cb_manager :: cb

definition cb_server_init :: cb_server where
  "cb_server_init = \<lparr>cb_core = gatt_init, cb_manager = cb_init\<rparr>"

text \<open>\<open>send_packet\<close> through \<open>_notify_chunk\<close>; \<open>answers\<close> are those of \<open>updateValue\<close>, by chunk.\<close>

fun cb_notify_all :: "(nat \<Rightarrow> bool) \<Rightarrow> nat \<Rightarrow> cb_tx \<Rightarrow> bytes list \<Rightarrow> bytes list \<times> cb_tx" where
  "cb_notify_all answers i q [] = ([], q)"
| "cb_notify_all answers i q (c # cs) =
     (case cb_notify_chunk q c (answers i) of
        (out, q') \<Rightarrow> (case cb_notify_all answers (Suc i) q' cs of (out', q'') \<Rightarrow> (out @ out', q'')))"

definition cb_send :: "(nat \<Rightarrow> bool) \<Rightarrow> cb_tx \<Rightarrow> bytes \<Rightarrow> (bytes list \<times> exn option) \<times> cb_tx" where
  "cb_send answers q packet =
     (case pieces_of packet of
        Inl e \<Rightarrow> (([], Some e), q)
      | Inr cs \<Rightarrow> (case cb_notify_all answers 0 q cs of (out, q') \<Rightarrow> ((out, None), q')))"

text \<open>The delegate's callbacks, the transport and the lifecycle.\<close>

datatype cb_event =
    DidUpdateState bool
  | DidAddService bool
  | DidStartAdvertising bool
  | DidReceiveWriteRequests "write_request list"
  | DidSubscribe pystr
  | DidUnsubscribe pystr
  | IsReadyToUpdateSubscribers "nat \<Rightarrow> bool"
  | CbSend pystr bytes "nat \<Rightarrow> bool"
  | CbStart
  | CbRunForever
  | CbStop

fun cb_step :: "cb_server \<Rightarrow> cb_event \<Rightarrow> (gatt_event list \<times> bytes list) \<times> cb_server" where
  "cb_step s (DidUpdateState on) = (([], []), s\<lparr>cb_manager := snd (cb_state_changed on (cb_manager s))\<rparr>)"
| "cb_step s (DidAddService failed) = (([], []), s\<lparr>cb_manager := snd (cb_service_added failed (cb_manager s))\<rparr>)"
| "cb_step s (DidStartAdvertising failed) = (([], []), s)"
| "cb_step s (DidReceiveWriteRequests rs) =
     (case fst (write_requests (cb_core s) rs) of (evs, g) \<Rightarrow> ((evs, []), s\<lparr>cb_core := g\<rparr>))"
| "cb_step s (DidSubscribe p) = (case peer_connected (cb_core s) p of (evs, g) \<Rightarrow> ((evs, []), s\<lparr>cb_core := g\<rparr>))"
| "cb_step s (DidUnsubscribe p) = (case peer_disconnected (cb_core s) p of (evs, g) \<Rightarrow> ((evs, []), s\<lparr>cb_core := g\<rparr>))"
| "cb_step s (IsReadyToUpdateSubscribers answers) =
     (case cb_flush_pending (tx (cb_manager s)) answers of
        (out, q) \<Rightarrow> (([], out), s\<lparr>cb_manager := (cb_manager s)\<lparr>tx := q\<rparr>\<rparr>))"
| "cb_step s (CbSend p x answers) =
     (case cb_send answers (tx (cb_manager s)) x of
        ((out, r), q) \<Rightarrow> (([], out), s\<lparr>cb_manager := (cb_manager s)\<lparr>tx := q\<rparr>\<rparr>))"
| "cb_step s CbStart = (([], []), s\<lparr>cb_manager := cb_start (cb_manager s)\<rparr>)"
| "cb_step s CbRunForever = (([], []), s\<lparr>cb_manager := cb_run_forever (cb_manager s)\<rparr>)"
| "cb_step s CbStop = (([], []), s\<lparr>cb_manager := snd (cb_stop (cb_manager s))\<rparr>)"

fun request_input :: "write_request \<Rightarrow> gatt_in list" where
  "request_input r = (if \<not> for_rx r then [] else (case req_value r of None \<Rightarrow> [] | Some v \<Rightarrow> [Chunk (req_central r) v]))"

fun cb_inputs :: "cb_event \<Rightarrow> gatt_in list" where
  "cb_inputs (DidReceiveWriteRequests rs) = concat (map request_input rs)"
| "cb_inputs (DidSubscribe p) = [Connect p]"
| "cb_inputs (DidUnsubscribe p) = [Disconnect p]"
| "cb_inputs e = []"

section \<open>Runs of a backend\<close>

fun backend_run ::
  "('s \<Rightarrow> 'e \<Rightarrow> (gatt_event list \<times> bytes list) \<times> 's) \<Rightarrow> 'e list \<Rightarrow> 's \<Rightarrow> (gatt_event list \<times> bytes list) \<times> 's" where
  "backend_run step [] s = (([], []), s)"
| "backend_run step (e # es) s =
     (case step s e of
        ((evs, out), s') \<Rightarrow> (case backend_run step es s' of ((evs', out'), s'') \<Rightarrow> ((evs @ evs', out @ out'), s'')))"

text \<open>A backend is a refinement of the shared core: each of its steps is the core's run of the inputs
  the event means.\<close>

locale gatt_backend =
  fixes step :: "'s \<Rightarrow> 'e \<Rightarrow> (gatt_event list \<times> bytes list) \<times> 's"
    and core :: "'s \<Rightarrow> gatt"
    and inputs :: "'e \<Rightarrow> gatt_in list"
  assumes step_refines: "gatt_run (core s) (inputs e) = (fst (fst (step s e)), core (snd (step s e)))"
begin

lemma run_refines:
  "gatt_run (core s) (concat (map inputs es)) = (fst (fst (backend_run step es s)), core (snd (backend_run step es s)))"
proof (induction es arbitrary: s)
  case (Cons e es)
  have app: "gatt_run g (xs @ ys) = (fst (gatt_run g xs) @ fst (gatt_run (snd (gatt_run g xs)) ys),
      snd (gatt_run (snd (gatt_run g xs)) ys))" for g xs ys
    by (induction xs arbitrary: g) (simp_all add: case_prod_beta)
  show ?case by (simp add: app step_refines Cons.IH case_prod_beta)
qed simp

end

lemma write_each_run: "gatt_run g (concat (map request_input rs)) = write_each g rs"
  by (induction rs arbitrary: g) (auto simp: case_prod_beta split: option.split)

interpretation bz: gatt_backend bluez_step bz_core bluez_inputs
proof
  show "gatt_run (bz_core s) (bluez_inputs e) = (fst (fst (bluez_step s e)), bz_core (snd (bluez_step s e)))" for s e
    by (cases e rule: bluez_inputs.cases)
      (simp_all add: write_value_def device_signal_def device_properties_changed_def case_prod_beta advertisement_release_def bluez_fatal_def bluez_stop_def
        bluez_run_forever_def split: option.split bool.split)
qed

interpretation cbt: gatt_backend cb_step cb_core cb_inputs
proof
  show "gatt_run (cb_core s) (cb_inputs e) = (fst (fst (cb_step s e)), cb_core (snd (cb_step s e)))" for s e
    by (cases e) (simp_all add: case_prod_beta write_requests_def write_each_run del: request_input.simps)
qed

section \<open>What goes out\<close>

fun bluez_sent :: "bluez_event \<Rightarrow> bytes list" where
  "bluez_sent (BluezSend p x) = [x]"
| "bluez_sent e = []"

fun cb_sent :: "cb_event \<Rightarrow> bytes list" where
  "cb_sent (CbSend p x answers) = [x]"
| "cb_sent e = []"

lemma bluez_send_pieces: "bz_notifying s \<Longrightarrow> fst (bluez_send s x) = pieces x"
proof -
  have "concat (map (bluez_notify_chunk True) cs) = cs" for cs by (induction cs) (simp_all add: bluez_notify_chunk_def)
  then show "bz_notifying s \<Longrightarrow> ?thesis" by (simp add: bluez_send_def pieces_def split: sum.split)
qed

lemma bluez_run_out:
  assumes "bz_notifying s" and "StopNotify \<notin> set es"
  shows "snd (fst (backend_run bluez_step es s)) = concat (map pieces (concat (map bluez_sent es)))"
  using assms
proof (induction es arbitrary: s)
  case (Cons e es)
  have "bz_notifying (snd (bluez_step s e))"
    using Cons.prems by (cases e) (auto simp: start_notify_def bluez_fatal_def bluez_stop_def bluez_run_forever_def advertisement_release_def
        split: prod.split)
  moreover have "snd (fst (bluez_step s e)) = concat (map pieces (bluez_sent e))"
    using Cons.prems(1) by (cases e) (auto simp: bluez_send_pieces split: prod.split)
  ultimately show ?case using Cons by (simp add: case_prod_beta)
qed simp

lemma cb_notify_all_fifo:
  "tx_char q \<Longrightarrow> fst (cb_notify_all answers i q cs) @ pending (snd (cb_notify_all answers i q cs)) = pending q @ cs \<and>
    tx_char (snd (cb_notify_all answers i q cs))"
proof (induction answers i q cs rule: cb_notify_all.induct)
  case (2 answers i q c cs)
  have "fst (cb_notify_chunk q c (answers i)) @ pending (snd (cb_notify_chunk q c (answers i))) = pending q @ [c]"
    "tx_char (snd (cb_notify_chunk q c (answers i)))"
    using 2(2) by (auto simp: cb_notify_chunk_def)
  with 2(1) [OF prod.collapse] show ?case by (simp add: case_prod_beta)
qed simp

lemma cb_step_fifo:
  assumes "tx_char (tx (cb_manager s))"
  shows "snd (fst (cb_step s e)) @ pending (tx (cb_manager (snd (cb_step s e)))) =
      pending (tx (cb_manager s)) @ concat (map pieces (cb_sent e)) \<and> tx_char (tx (cb_manager (snd (cb_step s e))))"
proof (cases e)
  case (CbSend p x answers)
  show ?thesis
  proof (cases "pieces_of x")
    case (Inl err)
    then show ?thesis using assms by (simp add: CbSend cb_send_def pieces_def)
  next
    case (Inr cs)
    then show ?thesis
      using cb_notify_all_fifo [OF assms, of answers 0 cs] by (simp add: CbSend cb_send_def pieces_def case_prod_beta)
  qed
next
  case (IsReadyToUpdateSubscribers answers)
  then show ?thesis
    using assms flush_queue_split [OF prod.collapse [symmetric], of answers 0 "pending (tx (cb_manager s))"]
    by (simp add: cb_flush_pending_def case_prod_beta)
qed (use assms in \<open>auto simp: cb_state_changed_def register_service_def cb_service_added_def cb_stop_def cb_start_def
    cb_run_forever_def split: prod.split\<close>)

lemma cb_run_fifo_all:
  "tx_char (tx (cb_manager s)) \<Longrightarrow>
   snd (fst (backend_run cb_step es s)) @ pending (tx (cb_manager (snd (backend_run cb_step es s)))) =
     pending (tx (cb_manager s)) @ concat (map pieces (concat (map cb_sent es)))"
proof (induction es arbitrary: s)
  case (Cons e es)
  note f = cb_step_fifo [OF Cons.prems, of e]
  have "snd (fst (backend_run cb_step es (snd (cb_step s e)))) @
      pending (tx (cb_manager (snd (backend_run cb_step es (snd (cb_step s e)))))) =
      pending (tx (cb_manager (snd (cb_step s e)))) @ concat (map pieces (concat (map cb_sent es)))"
    using f by (intro Cons.IH) simp
  with f show ?case by (simp add: case_prod_beta)
qed simp

lemma pieces_frame: "fits x \<Longrightarrow> concat (pieces x) = frame_of x"
  using chunk_framed [of "frame_of x"] by (auto simp: pieces_def pieces_of_def frame_fits chunk_concat)

lemma pieces_feed:
  assumes "\<forall>x\<in>set xs. length x \<le> MAX_FRAME"
  shows "feeds feed [] (concat (map pieces xs)) = (Inr xs, [])"
proof -
  have "concat (concat (map pieces xs)) = concat (map frame_of xs)"
    using assms by (induction xs) (simp_all add: pieces_frame fits_def)
  then show ?thesis using assms by (intro asm.feeds_encoded) (simp_all add: fits_def)
qed

section \<open>Properties\<close>


end
