(* ===== verification/Flooding.thy ===== *)
theory Flooding
  imports Node Network
begin

text \<open>
  Whole nodes on one backhaul: what a packet does to the mesh. A datagram a node sends lands at the
  node with its address, or at every node (the sender too) when it goes to the broadcast address; the
  network delivers what is in flight in any order, and may lose it. The nodes run the code of
  \<open>relay.py\<close> and \<open>batman_backhaul.py\<close>; that a pipeline remembers what it has delivered (the
  de-duplication of meshlink-core, "what stops cross-node loops" in \<open>relay.py\<close>) is a hypothesis.
\<close>

section \<open>The mesh\<close>

definition node_site :: "('p, 'c) node \<Rightarrow> addr" where
  "node_site n = (let bh = r_backhaul (n_relay n) in endpoint (bh_port bh) (bh_own_addr bh))"

definition flood_site :: "('p, 'c) node \<Rightarrow> addr" where
  "flood_site n = (let bh = r_backhaul (n_relay n) in endpoint (bh_port bh) (bh_broadcast_addr bh))"

record ('p, 'c) mesh =
  mesh_nodes :: "('p, 'c) node list"
  in_flight :: "(nat \<times> received) list"

text \<open>Where a datagram of node \<open>a\<close> lands, and from whom it then comes.\<close>

fun lands :: "('p, 'c) node list \<Rightarrow> ('p, 'c) node \<Rightarrow> datagram \<Rightarrow> (nat \<times> received) list" where
  "lands ns a (Datagram h p d) =
     (case node_site a of
        ATuple [JStr sh, JInt sp] \<Rightarrow>
          map (\<lambda>j. (j, From sh sp d))
            (filter (\<lambda>j. pair_addr h p = flood_site a \<or> pair_addr h p = node_site (ns ! j)) [0..<length ns])
      | _ \<Rightarrow> [])"

fun wire_of :: "emission \<Rightarrow> datagram list" where
  "wire_of (Wire d) = [d]"
| "wire_of _ = []"

definition sent_by :: "('p, 'c) node list \<Rightarrow> ('p, 'c) node \<Rightarrow> emission list \<Rightarrow> (nat \<times> received) list" where
  "sent_by ns a out = concat (map (lands ns a) (concat (map wire_of out)))"

text \<open>The network moves: the \<open>i\<close>th datagram in flight arrives, or is lost. A step returns what the node
  it arrives at emits.\<close>

datatype hop = Arrive nat | Lose nat

fun mesh_step ::
  "('p, 'c) machine \<Rightarrow> world \<Rightarrow> hop \<Rightarrow> ('p, 'c) mesh \<Rightarrow> (nat \<times> emission list) list \<times> ('p, 'c) mesh" where
  "mesh_step m w (Arrive i) g =
     (case in_flight g ! i of (j, From h p d) \<Rightarrow>
        (case node_step m w (NodeInput h p d) (mesh_nodes g ! j) of (out, n) \<Rightarrow>
           ([(j, out)],
            \<lparr>mesh_nodes = (mesh_nodes g)[j := n],
             in_flight = take i (in_flight g) @ drop (Suc i) (in_flight g) @ sent_by (mesh_nodes g) n out\<rparr>)))"
| "mesh_step m w (Lose i) g =
     ([], g\<lparr>in_flight := take i (in_flight g) @ drop (Suc i) (in_flight g)\<rparr>)"

declare mesh_step.simps [simp del]

fun mesh_run ::
  "('p, 'c) machine \<Rightarrow> (world \<times> hop) list \<Rightarrow> ('p, 'c) mesh \<Rightarrow> (nat \<times> emission list) list \<times> ('p, 'c) mesh" where
  "mesh_run m [] g = ([], g)"
| "mesh_run m ((w, e) # es) g =
     (case mesh_step m w e g of (out, g') \<Rightarrow> (case mesh_run m es g' of (out', g'') \<Rightarrow> (out @ out', g'')))"

fun hop_index :: "hop \<Rightarrow> nat" where
  "hop_index (Arrive i) = i"
| "hop_index (Lose i) = i"

text \<open>A schedule the network can play: each hop names a datagram that is in flight then.\<close>

fun playable :: "('p, 'c) machine \<Rightarrow> (world \<times> hop) list \<Rightarrow> ('p, 'c) mesh \<Rightarrow> bool" where
  "playable m [] g = True"
| "playable m ((w, e) # es) g = (hop_index e < length (in_flight g) \<and> playable m es (snd (mesh_step m w e g)))"

fun load :: "nat \<times> received \<Rightarrow> bytes" where
  "load (j, From h p d) = d"


text \<open>What is relied on of the pipeline: it delivers nothing it has seen, it has seen what it delivers,
  and it forgets nothing. (The window of meshlink-core's de-duplication bounds how long that holds.)\<close>

definition remembers :: "('p, 'c) pipeline \<Rightarrow> ('p \<Rightarrow> bytes \<Rightarrow> bool) \<Rightarrow> bool" where
  "remembers pl seen =
     ((\<forall>now c p x. fst (process pl now c p x) \<noteq> Drop \<longrightarrow> \<not> seen p x \<and> seen (snd (process pl now c p x)) x) \<and>
      (\<forall>now c p x y. seen p y \<longrightarrow> seen (snd (process pl now c p x)) y))"

section \<open>Handling one datagram\<close>

lemma remembersD:
  assumes "remembers pl seen"
  shows "fst (process pl now c p x) \<noteq> Drop \<Longrightarrow> \<not> seen p x"
    "fst (process pl now c p x) \<noteq> Drop \<Longrightarrow> seen (snd (process pl now c p x)) x"
    "seen p y \<Longrightarrow> seen (snd (process pl now c p x)) y"
  using assms by (auto simp: remembers_def)

lemma bh_send_short: "length (fst (bh_send n a x)) \<le> Suc 0"
proof -
  have "length (fst (sendto_pair n h p x)) \<le> Suc 0" for h p
    using sendto_pair_cases [of n h p x] by auto
  then have "length (fst (sendto n a x)) \<le> Suc 0" by (cases "(n, a, x)" rule: sendto.cases) auto
  then show ?thesis by (auto simp: bh_send_def split: prod.splits option.splits)
qed

lemma forward_short: "length (fst (forward_to_zone now n bh z x)) \<le> Suc 0"
  by (simp add: forward_to_zone_def broadcast_to_all_nodes_def bh_send_short split: option.split)

definition wires :: "effect list \<Rightarrow> datagram list" where
  "wires out = concat (map wire_of (map emission_of out))"

lemma wires_simps [simp]:
  "wires [] = []" "wires (a @ b) = wires a @ wires b" "wires (map OnAir rs) = []" "wires (map ToNode ds) = ds"
  by (induction rs) (simp_all add: wires_def, induction ds, simp_all)

lemma wires_none: "(\<And>e. e \<in> set out \<Longrightarrow> \<exists>r. e = OnAir r) \<Longrightarrow> wires out = []"
  by (induction out) (force simp: wires_def)+

lemma cross_node_short: "length (wires (fst (fst (cross_node w msg raw s)))) \<le> Suc 0"
proof -
  have "wires (fst (fst (cross_node w msg raw s))) =
      (if msg_zone msg = BROADCAST_ZONE then fst (broadcast_to_all_nodes (w_net w) (r_backhaul s) raw)
       else if msg_zone msg \<noteq> r_zone_id s
       then fst (forward_to_zone (w_mono w) (w_net w) (r_backhaul s) (msg_zone msg) raw) else [])"
    by (simp add: cross_node_def split: prod.split option.split)
  then show ?thesis by (simp add: forward_short broadcast_to_all_nodes_def bh_send_short)
qed

lemma handle_accepted_short:
  fixes s :: "('a, 'b) relay"
  shows "length (wires (fst (fst (handle_accepted w p raw msg fwd s)))) \<le> Suc 0"
proof -
  have t: "wires (fst (fst (terminate_here w p msg u))) = []" for u :: "('a, 'b) relay"
    by (rule wires_none) (rule terminate_here_effects)
  have "wires (fst (fst (local_cell w p raw fwd u))) = []" for u :: "('a, 'b) relay"
    by (rule wires_none) (rule local_cell_effects)
  with t show ?thesis by (simp add: handle_accepted_fst relay_onward_fst cross_node_short)
qed

lemma handle_presentation_short: "length (wires (fst (fst (handle_presentation pl w raw cache s)))) \<le> Suc 0"
  by (auto simp: handle_presentation_def Let_def case_prod_beta forward_short broadcast_to_all_nodes_def bh_send_short
      split: outcome.split option.split)


lemma handle_packet_short: "length (wires (fst (fst (handle_packet pl w p raw s)))) \<le> Suc 0"
  by (simp add: handle_packet_def Let_def case_prod_beta handle_presentation_short handle_accepted_short
      split: option.split outcome.split)

lemma handle_packet_cargo: "d \<in> set (wires (fst (fst (handle_packet pl w p raw s)))) \<Longrightarrow> cargo d = raw"
proof -
  have w: "d \<in> set (wires out) \<longleftrightarrow> ToNode d \<in> set out" for out
  proof (induction out)
    case (Cons e out)
    then show ?case by (cases e) (auto simp: wires_def)
  qed (simp add: wires_def)
  show "d \<in> set (wires (fst (fst (handle_packet pl w p raw s)))) \<Longrightarrow> cargo d = raw"
    unfolding w handle_packet_def Let_def
    by (auto dest: handle_accepted_datagrams handle_presentation_effects
        split: if_splits option.splits prod.splits outcome.splits)
qed

definition same_pipelines :: "('p, 'c) relay \<Rightarrow> ('p, 'c) relay \<Rightarrow> bool" where
  "same_pipelines s t = (r_pipeline t = r_pipeline s \<and> r_presentation t = r_presentation s)"

lemma step_pipelines:
  "same_pipelines s (snd (terminate_here w p msg s))" "same_pipelines s (snd (cross_node w msg raw s))"
  "same_pipelines s (snd (local_cell w p raw fwd s))"
  by (simp add: terminate_here_def same_pipelines_def split: option.split prod.split,
      simp add: cross_node_def same_pipelines_def split: option.split prod.split,
      simp add: local_cell_def same_pipelines_def split: option.split prod.split sum.split)

lemma handle_accepted_pipelines:
  "r_pipeline (snd (handle_accepted w p raw msg fwd s)) = r_pipeline s"
  "r_presentation (snd (handle_accepted w p raw msg fwd s)) = r_presentation s"
  by (simp_all add: handle_accepted_snd relay_onward_snd step_pipelines [unfolded same_pipelines_def]
      split: sum.split bool.split)

lemma handle_presentation_pipelines:
  "r_pipeline (snd (handle_presentation pl w raw cache s)) = r_pipeline s"
  "r_presentation (snd (handle_presentation pl w raw cache s)) = snd (process pl (w_now w) None (r_presentation s) raw)"
  by (auto simp: handle_presentation_def Let_def split: prod.splits outcome.splits option.splits)

lemma handle_presentation_quiet:
  "fst (process pl (w_now w) None (r_presentation s) raw) = Drop \<Longrightarrow> fst (fst (handle_presentation pl w raw cache s)) = []"
  by (cases "process pl (w_now w) None (r_presentation s) raw") (simp add: handle_presentation_def)

text \<open>A packet either leaves a pipeline alone or is put to one of them, and what is sent was new to it.\<close>

lemma handle_packet_pipelines:
  assumes "remembers pl seen"
  shows "seen (r_pipeline s) y \<Longrightarrow> seen (r_pipeline (snd (handle_packet pl w p x s))) y"
    "seen (r_presentation s) y \<Longrightarrow> seen (r_presentation (snd (handle_packet pl w p x s))) y"
    "fst (fst (handle_packet pl w p x s)) \<noteq> [] \<Longrightarrow>
      \<not> seen (r_pipeline s) x \<and> seen (r_pipeline (snd (handle_packet pl w p x s))) x \<or>
      \<not> seen (r_presentation s) x \<and> seen (r_presentation (snd (handle_packet pl w p x s))) x"
proof -
  note d = remembersD [OF assms]
  show "seen (r_pipeline s) y \<Longrightarrow> seen (r_pipeline (snd (handle_packet pl w p x s))) y"
    using d(3) [of "r_pipeline s" y "w_now w" "r_attestation s" x]
    by (auto simp: handle_packet_def Let_def handle_accepted_pipelines handle_presentation_pipelines
        split: option.splits prod.splits outcome.splits)
  show "seen (r_presentation s) y \<Longrightarrow> seen (r_presentation (snd (handle_packet pl w p x s))) y"
    using d(3) [of "r_presentation s" y "w_now w" None x]
    by (auto simp: handle_packet_def Let_def handle_accepted_pipelines handle_presentation_pipelines
        split: option.splits prod.splits outcome.splits)
  show "fst (fst (handle_packet pl w p x s)) \<noteq> [] \<Longrightarrow>
      \<not> seen (r_pipeline s) x \<and> seen (r_pipeline (snd (handle_packet pl w p x s))) x \<or>
      \<not> seen (r_presentation s) x \<and> seen (r_presentation (snd (handle_packet pl w p x s))) x"
    using d(1,2) [of "w_now w" "r_attestation s" "r_pipeline s" x] d(1,2) [of "w_now w" None "r_presentation s" x]
      handle_presentation_quiet [of pl w "count (received_update Suc) s" x]
    by (auto simp: handle_packet_def Let_def handle_accepted_pipelines handle_presentation_pipelines
        split: option.splits prod.splits outcome.splits if_splits)
qed

section \<open>A measure\<close>

definition unseen :: "('p \<Rightarrow> bytes \<Rightarrow> bool) \<Rightarrow> bytes set \<Rightarrow> ('p, 'c) relay \<Rightarrow> nat" where
  "unseen seen X r = card {x \<in> X. \<not> seen (r_pipeline r) x} + card {x \<in> X. \<not> seen (r_presentation r) x}"

lemma unseen_bound: "finite X \<Longrightarrow> unseen seen X r \<le> 2 * card X"
proof -
  assume f: "finite X"
  have "card {x \<in> X. P x} \<le> card X" for P using f by (auto intro: card_mono)
  from add_mono [OF this this] show ?thesis by (simp add: unseen_def mult_2)
qed

lemma card_pair_less:
  assumes "finite A" and "finite B" and "A' \<subseteq> A" and "B' \<subseteq> B" and "x \<in> A - A' \<or> x \<in> B - B'"
  shows "Suc (card A' + card B') \<le> card A + card B"
proof -
  have "card A' \<le> card A" "card B' \<le> card B" using assms(1-4) by (simp_all add: card_mono)
  moreover have "card A' < card A \<or> card B' < card B"
    using assms psubset_card_mono [of A A'] psubset_card_mono [of B B'] by blast
  ultimately show ?thesis by linarith
qed

lemma unseen_decreases:
  assumes "finite X" and "x \<in> X" and "remembers pl seen"
  shows "length (wires (fst (fst (handle_packet pl w p x s)))) + unseen seen X (snd (handle_packet pl w p x s)) \<le> unseen seen X s"
proof -
  let ?s = "snd (handle_packet pl w p x s)" and ?out = "fst (fst (handle_packet pl w p x s))"
  note h = handle_packet_pipelines [OF assms(3), where s = s and w = w and p = p and x = x]
  have a: "{y \<in> X. \<not> seen (r_pipeline ?s) y} \<subseteq> {y \<in> X. \<not> seen (r_pipeline s) y}"
    and b: "{y \<in> X. \<not> seen (r_presentation ?s) y} \<subseteq> {y \<in> X. \<not> seen (r_presentation s) y}"
    using h(1,2) by blast+
  note le = card_mono [OF _ a] card_mono [OF _ b]
  show ?thesis
  proof (cases "?out = []")
    case True
    then show ?thesis using le assms(1) by (simp add: unseen_def)
  next
    case False
    have "Suc (unseen seen X ?s) \<le> unseen seen X s"
      unfolding unseen_def
      by (rule card_pair_less [OF _ _ a b, of x]) (use h(3) [OF False] assms(1,2) in auto)
    then show ?thesis using handle_packet_short [of pl w p x s] by linarith
  qed
qed

text \<open>The same for a datagram, whether it reaches the relay, the gossip layer or nothing.\<close>

lemma node_input_cases:
  obtains "fst (node_step m w (NodeInput h p d) n) = []"
      "r_pipeline (n_relay (snd (node_step m w (NodeInput h p d) n))) = r_pipeline (n_relay n)"
      "r_presentation (n_relay (snd (node_step m w (NodeInput h p d) n))) = r_presentation (n_relay n)"
  | "fst (node_step m w (NodeInput h p d) n) =
        map emission_of (fst (fst (handle_packet (m_pipeline m) w (bh_peer_id h p) d (n_relay n))))"
      "n_relay (snd (node_step m w (NodeInput h p d) n)) = snd (handle_packet (m_pipeline m) w (bh_peer_id h p) d (n_relay n))"
proof (cases "fst (bh_input (m_rp m) (w_mono w) (n_sync n) (r_backhaul (n_relay n)) h p d) = []")
  case True
  then show thesis
    by (intro that(1)) (simp_all add: node_input_def case_prod_beta)
next
  case False
  then have "bh_input (m_rp m) (w_mono w) (n_sync n) (r_backhaul (n_relay n)) h p d = ([(bh_peer_id h p, d)], r_backhaul (n_relay n))"
    by (auto simp: bh_input_def bh_recv_def bh_deliver_def split: if_splits)
  then show thesis by (intro that(2)) (simp_all add: node_input_def case_prod_beta)
qed

lemma node_input_unseen:
  assumes "finite X" and "d \<in> X" and "remembers (m_pipeline m) seen"
  shows "length (concat (map wire_of (fst (node_step m w (NodeInput h p d) n)))) +
    unseen seen X (n_relay (snd (node_step m w (NodeInput h p d) n))) \<le> unseen seen X (n_relay n)"
proof (cases rule: node_input_cases [of m w h p d n])
  case 1
  then show ?thesis by (simp add: unseen_def)
next
  case 2
  then show ?thesis
    using unseen_decreases [OF assms, of w "bh_peer_id h p" "n_relay n"] by (simp only: wires_def [symmetric])
qed

lemma node_input_cargo:
  "q \<in> set (concat (map wire_of (fst (node_step m w (NodeInput h p d) n)))) \<Longrightarrow> cargo q = d"
proof (cases rule: node_input_cases [of m w h p d n])
  case 2
  then show "q \<in> set (concat (map wire_of (fst (node_step m w (NodeInput h p d) n)))) \<Longrightarrow> cargo q = d"
    by (simp only: wires_def [symmetric] handle_packet_cargo)
qed simp

section \<open>The flood ends\<close>

lemma lands_in: "x \<in> set (lands ns a q) \<Longrightarrow> fst x < length ns \<and> load x = cargo q"
  by (cases q) (auto split: addr.splits list.splits json.splits)

lemma lands_short: "length (lands ns a q) \<le> length ns"
proof -
  have "length (filter P [0..<length ns]) \<le> length ns" for P
    using length_filter_le [of P "[0..<length ns]"] by simp
  then show ?thesis by (cases q) (simp split: addr.split list.split json.split)
qed

lemma sent_by_in: "x \<in> set (sent_by ns a out) \<Longrightarrow> fst x < length ns \<and> (\<exists>q\<in>set (concat (map wire_of out)). load x = cargo q)"
  by (auto simp: sent_by_def dest: lands_in)

lemma sent_by_short: "length (sent_by ns a out) \<le> length ns * length (concat (map wire_of out))"
proof -
  have "sum_list (map (length \<circ> lands ns a) qs) \<le> length ns * length qs" for qs
    by (induction qs) (simp_all add: add_mono lands_short)
  from this [of "concat (map wire_of out)"] show ?thesis by (simp only: sent_by_def length_concat map_map)
qed

definition to_come :: "('p \<Rightarrow> bytes \<Rightarrow> bool) \<Rightarrow> bytes set \<Rightarrow> ('p, 'c) mesh \<Rightarrow> nat" where
  "to_come seen X g = length (in_flight g) +
     length (mesh_nodes g) * sum_list (map (unseen seen X \<circ> n_relay) (mesh_nodes g))"

text \<open>What is in flight is on its way to a node of the mesh, and carries a packet of \<open>X\<close>.\<close>

definition carries :: "bytes set \<Rightarrow> ('p, 'c) mesh \<Rightarrow> bool" where
  "carries X g = (\<forall>x\<in>set (in_flight g). fst x < length (mesh_nodes g) \<and> load x \<in> X)"

text \<open>What remains in flight when the \<open>i\<close>th is taken.\<close>

lemma set_without: "set (take i xs @ drop (Suc i) xs) \<subseteq> set xs"
  by (auto dest: in_set_takeD in_set_dropD)

lemma length_without: "i < length xs \<Longrightarrow> Suc (length (take i xs @ drop (Suc i) xs)) = length xs"
  by simp

lemma mesh_step_Arrive:
  assumes "in_flight g ! i = (j, From h p d)"
  shows "mesh_step m w (Arrive i) g =
    (let (out, n) = node_step m w (NodeInput h p d) (mesh_nodes g ! j)
     in ([(j, out)], \<lparr>mesh_nodes = (mesh_nodes g)[j := n],
          in_flight = (take i (in_flight g) @ drop (Suc i) (in_flight g)) @ sent_by (mesh_nodes g) n out\<rparr>))"
  using assms by (simp add: mesh_step.simps Let_def)

lemma sum_list_update_le:
  "j < length xs \<Longrightarrow> k + f n \<le> f (xs ! j) \<Longrightarrow> k + sum_list (map f (xs[j := n])) \<le> sum_list (map f xs)" for k :: nat
proof (induction xs arbitrary: j)
  case (Cons x xs)
  then show ?case by (cases j) (auto simp: add.left_commute dest!: Cons.IH [of "j - 1"])
qed simp

lemma mesh_step_measure:
  assumes "carries X g" and "finite X" and "remembers (m_pipeline m) seen" and "hop_index e < length (in_flight g)"
  shows "carries X (snd (mesh_step m w e g)) \<and> to_come seen X (snd (mesh_step m w e g)) < to_come seen X g \<and>
    length (mesh_nodes (snd (mesh_step m w e g))) = length (mesh_nodes g)"
proof (cases e)
  case (Arrive i)
  obtain j h p d where x: "in_flight g ! i = (j, From h p d)" by (metis prod.exhaust received.exhaust)
  have "in_flight g ! i \<in> set (in_flight g)" using assms(4) Arrive by simp
  with assms(1) x have j: "j < length (mesh_nodes g)" and d: "d \<in> X" by (force simp: carries_def)+
  obtain out n where s: "node_step m w (NodeInput h p d) (mesh_nodes g ! j) = (out, n)" by fastforce
  let ?rest = "take i (in_flight g) @ drop (Suc i) (in_flight g)" and ?new = "sent_by (mesh_nodes g) n out"
  have g': "snd (mesh_step m w e g) = \<lparr>mesh_nodes = (mesh_nodes g)[j := n], in_flight = ?rest @ ?new\<rparr>"
    unfolding Arrive mesh_step_Arrive [OF x] s by simp
  let ?k = "length (concat (map wire_of out))" and ?N = "length (mesh_nodes g)"
  let ?f = "unseen seen X \<circ> n_relay"
  have "?k + ?f n \<le> ?f (mesh_nodes g ! j)"
    using node_input_unseen [OF assms(2) d assms(3), of w h p "mesh_nodes g ! j"] s by (simp add: fst_def snd_def)
  from sum_list_update_le [OF j, of ?k ?f, OF this]
  have "?N * ?k + ?N * sum_list (map ?f ((mesh_nodes g)[j := n])) \<le> ?N * sum_list (map ?f (mesh_nodes g))"
    by (metis add_mult_distrib2 mult_le_mono2)
  moreover have "length ?new \<le> ?N * ?k" by (rule sent_by_short)
  moreover have "Suc (length ?rest) = length (in_flight g)"
    using assms(4) Arrive by (intro length_without) simp
  ultimately have "to_come seen X (snd (mesh_step m w e g)) < to_come seen X g" by (simp add: g' to_come_def)
  moreover have "carries X (snd (mesh_step m w e g))"
  proof -
    have "\<forall>y\<in>set ?new. fst y < ?N \<and> load y \<in> X"
      using sent_by_in [of _ "mesh_nodes g" n out] node_input_cargo [of _ m w h p d "mesh_nodes g ! j"] s d by fastforce
    moreover have "\<forall>y\<in>set ?rest. fst y < ?N \<and> load y \<in> X"
      using assms(1) set_without [of i "in_flight g"] unfolding carries_def by blast
    ultimately show ?thesis unfolding carries_def g' by (simp add: ball_Un)
  qed
  ultimately show ?thesis by (simp add: g')
next
  case (Lose i)
  then have "carries X (snd (mesh_step m w e g))"
    using assms(1) set_without [of i "in_flight g"] by (auto simp: carries_def mesh_step.simps)
  moreover have "to_come seen X (snd (mesh_step m w e g)) < to_come seen X g"
    using assms(4) Lose by (simp add: to_come_def mesh_step.simps)
  ultimately show ?thesis using Lose by (simp add: mesh_step.simps)
qed

lemma playable_length:
  assumes "carries X g" and "finite X" and "remembers (m_pipeline m) seen" and "playable m es g"
  shows "length es + to_come seen X (snd (mesh_run m es g)) \<le> to_come seen X g"
  using assms
proof (induction es arbitrary: g)
  case (Cons we es)
  obtain w e where we: "we = (w, e)" by fastforce
  let ?g = "snd (mesh_step m w e g)"
  have "hop_index e < length (in_flight g)" using Cons.prems(4) by (simp add: we)
  from mesh_step_measure [OF Cons.prems(1-3) this, of w]
  have "carries X ?g" "Suc (to_come seen X ?g) \<le> to_come seen X g" by simp_all
  with Cons.IH [of ?g] Cons.prems show ?case by (simp add: we case_prod_beta)
qed simp

lemma to_come_bound:
  "finite X \<Longrightarrow> to_come seen X g \<le> length (in_flight g) + 2 * length (mesh_nodes g) ^ 2 * card X"
proof -
  assume f: "finite X"
  have "sum_list (map (unseen seen X \<circ> n_relay) ns) \<le> length ns * (2 * card X)" for ns :: "('a, 'b) node list"
    by (induction ns) (simp_all add: add_mono unseen_bound [OF f])
  from mult_le_mono2 [OF this, of "length (mesh_nodes g)" "mesh_nodes g"]
  show ?thesis by (simp add: to_come_def power2_eq_square algebra_simps)
qed

section \<open>The flood reaches every node\<close>

text \<open>A phone hands the packet \<open>x\<close> to node \<open>k\<close>; nothing else is in flight.\<close>

definition inject ::
  "('p, 'c) machine \<Rightarrow> world \<Rightarrow> nat \<Rightarrow> pystr \<Rightarrow> bytes \<Rightarrow> ('p, 'c) node list \<Rightarrow> emission list \<times> ('p, 'c) mesh" where
  "inject m w k peer x ns =
     (case upcall m w (Received peer x) (n_relay (ns ! k)) of
        (out, r) \<Rightarrow> (out, \<lparr>mesh_nodes = ns[k := (ns ! k)\<lparr>n_relay := r\<rparr>],
                          in_flight = sent_by ns ((ns ! k)\<lparr>n_relay := r\<rparr>) out\<rparr>))"

text \<open>A node that takes part: its backhaul runs, its pipeline delivers the packet as the broadcast \<open>msg\<close>
  when it is new, and no phone's id looks like another node's.\<close>

definition takes_part ::
  "('p, 'c) machine \<Rightarrow> core \<Rightarrow> ('p \<Rightarrow> bytes \<Rightarrow> bool) \<Rightarrow> bytes \<Rightarrow> message \<Rightarrow> bytes option \<Rightarrow> pystr \<Rightarrow> int \<Rightarrow> ('p, 'c) node \<Rightarrow> bool" where
  "takes_part m c seen x msg fwd hb pb n =
     (let r = n_relay n; bh = r_backhaul r
      in bh_running bh \<and> data_cb bh \<and> is_site (node_site n) \<and> flood_site n = pair_addr hb pb \<and>
         (\<not> is_attestation_presentation c x \<or> r_attestation r = None) \<and> passes_by c msg r \<and>
         (\<forall>now p. \<not> seen p x \<longrightarrow> fst (process (m_pipeline m) now (r_attestation r) p x) = Deliver msg fwd) \<and>
         (\<forall>q\<in>set (transport_list_peers (r_transport r)). \<not> starts_with q (lit ''backhaul:'')))"

definition is_broadcast :: "bytes \<Rightarrow> message \<Rightarrow> bytes option \<Rightarrow> bytes \<Rightarrow> bool" where
  "is_broadcast x msg fwd copy =
     (\<not> is_telemetry_frame x \<and> \<not> is_backend_proxy_frame x \<and> \<not> starts_with x ZONE_SYNC_MAGIC \<and>
      msg_zone msg = BROADCAST_ZONE \<and> relayed_copy x fwd = Inr copy \<and> 69 < length copy \<and> length copy < 65536 \<and>
      copy ! 68 \<noteq> 0)"

definition cell_copies :: "faults \<Rightarrow> bytes \<Rightarrow> pystr list \<Rightarrow> ('p, 'c) node \<Rightarrow> radio list" where
  "cell_copies f copy peers n = concat (map (\<lambda>q. fst (transport_send f (r_transport (n_relay n)) q copy)) peers)"

abbreviation phones_of :: "('p, 'c) node \<Rightarrow> pystr list" where
  "phones_of n \<equiv> transport_list_peers (r_transport (n_relay n))"

definition stands :: "('p, 'c) node \<Rightarrow> ('p, 'c) node \<Rightarrow> bool" where
  "stands a b = (same_wiring (n_relay a) (n_relay b) \<and> r_attestation (n_relay b) = r_attestation (n_relay a) \<and>
     r_location (n_relay b) = r_location (n_relay a))"

lemma stands_same:
  assumes "stands a b"
  shows "takes_part m c seen x msg fwd hb pb b = takes_part m c seen x msg fwd hb pb a"
    "node_site b = node_site a" "flood_site b = flood_site a" "phones_of b = phones_of a"
    "cell_copies f copy ps b = cell_copies f copy ps a"
  using assms by (simp_all add: stands_def same_wiring_def takes_part_def node_site_def flood_site_def Let_def
      passes_by_def cell_copies_def)

lemma stands_refl [simp]: "stands a a"
  by (simp add: stands_def)

lemma stands_trans: "stands a b \<Longrightarrow> stands b c \<Longrightarrow> stands a c"
  by (simp add: stands_def same_wiring_def)

text \<open>The handler on a new broadcast and on one already seen.\<close>

lemma relay_onward_rest:
  "r_attestation (snd (relay_onward w p raw msg fwd s)) = r_attestation s \<and>
   r_location (snd (relay_onward w p raw msg fwd s)) = r_location s"
  by (simp add: relay_onward_snd cross_node_def local_cell_def case_prod_beta split: option.split sum.split)

lemma broadcast_new:
  assumes "takes_part m (w_core w) seen x msg fwd hb pb n" and "is_broadcast x msg fwd copy"
    and "remembers (m_pipeline m) seen" and "\<not> seen (r_pipeline (n_relay n)) x"
    and "w_net w = quiet_net" and "0 \<le> pb" and "pb \<le> 65535"
  shows "fst (upcall m w (Received p x) (n_relay n)) =
      Wire (Datagram hb pb x) # map Air (cell_copies (w_faults w) copy (filter (\<lambda>q. q \<noteq> p) (phones_of n)) n)"
    "stands n (n\<lparr>n_relay := snd (upcall m w (Received p x) (n_relay n))\<rparr>)"
    "seen (r_pipeline (snd (upcall m w (Received p x) (n_relay n)))) x"
proof -
  let ?r = "n_relay n"
  let ?pr = "process (m_pipeline m) (w_now w) (r_attestation ?r) (r_pipeline ?r) x"
  have d: "fst ?pr = Deliver msg fwd" using assms(1,4) by (simp add: takes_part_def Let_def)
  then obtain q where q: "?pr = (Deliver msg fwd, q)" by (metis prod.collapse)
  let ?s = "count (accepted_update Suc) ((count (received_update Suc) ?r)\<lparr>r_pipeline := q\<rparr>)"
  have h: "handle_packet (m_pipeline m) w p x ?r = relay_onward w p x msg fwd ?s"
    using assms(1,2) by (intro handle_packet_passes [OF _ _ _ q]) (simp_all add: takes_part_def is_broadcast_def Let_def)
  have "broadcast_to_all_nodes quiet_net (r_backhaul ?r) x = ([Datagram hb pb x], None)"
    using assms(1,6,7)
    by (simp add: takes_part_def Let_def flood_site_def broadcast_to_all_nodes_def bh_send_def sendto_pair_def quiet_net_def)
  then have c: "cross_node w msg x ?s = (([ToNode (Datagram hb pb x)], None), count (broadcast_to_nodes_update Suc) ?s)"
    using assms(2,5) by (simp add: cross_node_def is_broadcast_def)
  have l: "fst (local_cell w p x fwd (count (broadcast_to_nodes_update Suc) ?s)) =
      (map OnAir (cell_copies (w_faults w) copy (filter (\<lambda>q. q \<noteq> p) (phones_of n)) n), None)"
    by (subst local_cell_fan_out [of x fwd copy])
      (use assms(2) in \<open>simp_all add: is_broadcast_def TTL_OFFSET_def SPRAY_OFFSET_def cell_copies_def\<close>)
  have "fst (relay_onward w p x msg fwd ?s) =
      (ToNode (Datagram hb pb x) # map OnAir (cell_copies (w_faults w) copy (filter (\<lambda>q. q \<noteq> p) (phones_of n)) n), None)"
    using relay_onward_ok [of w msg x ?s p fwd] c l by simp
  then show "fst (upcall m w (Received p x) (n_relay n)) =
      Wire (Datagram hb pb x) # map Air (cell_copies (w_faults w) copy (filter (\<lambda>q. q \<noteq> p) (phones_of n)) n)"
    by (simp add: case_prod_beta h comp_def)
  have "same_wiring ?s (snd (relay_onward w p x msg fwd ?s))" by (rule relay_onward_wiring)
  then show "stands n (n\<lparr>n_relay := snd (upcall m w (Received p x) (n_relay n))\<rparr>)"
    using relay_onward_rest [of w p x msg fwd ?s] by (simp add: stands_def upcall_snd h same_wiring_def del: upcall.simps)
  have "r_pipeline (snd (relay_onward w p x msg fwd ?s)) = q"
    by (simp add: relay_onward_snd step_pipelines [unfolded same_pipelines_def])
  then show "seen (r_pipeline (snd (upcall m w (Received p x) (n_relay n)))) x"
    using remembersD(2) [OF assms(3), of "w_now w" "r_attestation ?r" "r_pipeline ?r" x] q
    by (simp add: upcall_snd h del: upcall.simps)
qed

lemma broadcast_again:
  assumes "takes_part m (w_core w) seen x msg fwd hb pb n" and "is_broadcast x msg fwd copy"
    and "remembers (m_pipeline m) seen" and "seen (r_pipeline (n_relay n)) x"
  shows "fst (upcall m w (Received p x) (n_relay n)) = []"
    "stands n (n\<lparr>n_relay := snd (upcall m w (Received p x) (n_relay n))\<rparr>)"
    "seen (r_pipeline (snd (upcall m w (Received p x) (n_relay n)))) x"
proof -
  let ?r = "n_relay n"
  let ?pr = "process (m_pipeline m) (w_now w) (r_attestation ?r) (r_pipeline ?r) x"
  have "fst ?pr = Drop" using remembersD(1) [OF assms(3)] assms(4) by blast
  then obtain q where q: "?pr = (Drop, q)" by (metis prod.collapse)
  have a: "(if is_attestation_presentation (w_core w) x then r_attestation ?r else None) = None"
    using assms(1) by (auto simp: takes_part_def Let_def)
  have h: "handle_packet (m_pipeline m) w p x ?r =
      (([], None), count (dropped_update Suc) ((count (received_update Suc) ?r)\<lparr>r_pipeline := q\<rparr>))"
    using assms(2) q a by (simp add: handle_packet_def is_broadcast_def Let_def)
  show "fst (upcall m w (Received p x) (n_relay n)) = []"
    "stands n (n\<lparr>n_relay := snd (upcall m w (Received p x) (n_relay n))\<rparr>)"
    by (simp_all add: h stands_def same_wiring_def)
  show "seen (r_pipeline (snd (upcall m w (Received p x) (n_relay n)))) x"
    using remembersD(3) [OF assms(3,4), of "w_now w" "r_attestation ?r" x] q by (simp add: h)
qed

text \<open>A copy of the packet that comes to a node: from itself, or as the upcall of the receive loop.\<close>

lemma own_copy: "pair_addr h p = node_site n \<Longrightarrow> node_step m w (NodeInput h p x) n = ([], n)"
  by (simp add: node_input_def bh_input_def bh_recv_def node_site_def Let_def)

lemma foreign_copy:
  assumes "takes_part m c seen x msg fwd hb pb n" and "is_broadcast x msg fwd copy" and "pair_addr h p \<noteq> node_site n"
  shows "node_step m w (NodeInput h p x) n =
    (fst (upcall m w (Received (bh_peer_id h p) x) (n_relay n)),
     n\<lparr>n_relay := snd (upcall m w (Received (bh_peer_id h p) x) (n_relay n))\<rparr>)"
proof -
  have "bh_input (m_rp m) (w_mono w) (n_sync n) (r_backhaul (n_relay n)) h p x = ([(bh_peer_id h p, x)], r_backhaul (n_relay n))"
    using assms by (simp add: bh_input_def bh_recv_def bh_deliver_def node_site_def takes_part_def is_broadcast_def Let_def)
  then show ?thesis by (simp add: node_input_def case_prod_beta del: upcall.simps)
qed

lemma no_phone_is_a_node:
  "takes_part m c seen x msg fwd hb pb n \<Longrightarrow> filter (\<lambda>q. q \<noteq> bh_peer_id h p) (phones_of n) = phones_of n"
  by (auto simp: takes_part_def Let_def bh_peer_id_def starts_with_def filter_id_conv)

text \<open>What a node has emitted, the empty reactions left out.\<close>

definition reactions :: "nat \<Rightarrow> (nat \<times> emission list) list \<Rightarrow> emission list list" where
  "reactions j hist = filter (\<lambda>out. out \<noteq> []) (map snd (filter (\<lambda>(i, out). i = j) hist))"

lemma reactions_simps [simp]:
  "reactions j [] = []" "reactions j (hist @ hist') = reactions j hist @ reactions j hist'"
  "reactions j [(i, out)] = (if i = j \<and> out \<noteq> [] then [out] else [])"
  by (simp_all add: reactions_def)

definition awaits :: "bytes \<Rightarrow> ('p, 'c) node list \<Rightarrow> ('p, 'c) mesh \<Rightarrow> nat \<Rightarrow> bool" where
  "awaits x ns g j = (\<exists>h p. (j, From h p x) \<in> set (in_flight g) \<and> pair_addr h p \<noteq> node_site (ns ! j))"

text \<open>Between the steps every node has either not met the packet and a copy is on its way to it, or has
  reacted to it once.\<close>

definition flooding ::
  "('p \<Rightarrow> bytes \<Rightarrow> bool) \<Rightarrow> bytes \<Rightarrow> (nat \<Rightarrow> emission list) \<Rightarrow> nat \<Rightarrow> ('p, 'c) node list \<Rightarrow> (nat \<times> emission list) list \<Rightarrow>
   ('p, 'c) mesh \<Rightarrow> bool" where
  "flooding seen x due k ns hist g =
     (length (mesh_nodes g) = length ns \<and> carries {x} g \<and>
      (\<forall>j<length ns. stands (ns ! j) (mesh_nodes g ! j) \<and>
        (if j = k then seen (r_pipeline (n_relay (mesh_nodes g ! j))) x \<and> reactions j hist = []
         else if seen (r_pipeline (n_relay (mesh_nodes g ! j))) x then reactions j hist = [due j]
         else reactions j hist = [] \<and> awaits x ns g j)))"

lemma in_without: "y \<in> set xs \<Longrightarrow> y \<noteq> xs ! i \<Longrightarrow> y \<in> set (take i xs @ drop (Suc i) xs)"
proof (cases "i < length xs")
  case True
  then have "set xs = insert (xs ! i) (set (take i xs @ drop (Suc i) xs))"
    by (subst id_take_nth_drop [OF True]) simp
  then show "y \<in> set xs \<Longrightarrow> y \<noteq> xs ! i \<Longrightarrow> ?thesis" by blast
qed simp

lemma flooding_step:
  assumes "flooding seen x due k ns hist g" and "hop_index (Arrive i) < length (in_flight g)"
    and "\<forall>j<length ns. takes_part m (w_core w) seen x msg fwd hb pb (ns ! j) \<and>
      due j = Wire (Datagram hb pb x) # map Air (cell_copies (w_faults w) copy (phones_of (ns ! j)) (ns ! j))"
    and "is_broadcast x msg fwd copy" and "remembers (m_pipeline m) seen"
    and "w_net w = quiet_net" and "0 \<le> pb" and "pb \<le> 65535"
  shows "flooding seen x due k ns (hist @ fst (mesh_step m w (Arrive i) g)) (snd (mesh_step m w (Arrive i) g))"
proof -
  let ?y = "in_flight g ! i"
  obtain j h p d where y: "?y = (j, From h p d)" by (metis prod.exhaust received.exhaust)
  have "?y \<in> set (in_flight g)" using assms(2) by simp
  then have j: "j < length ns" and d: "d = x" using assms(1) y by (auto simp: flooding_def carries_def)
  let ?n = "mesh_nodes g ! j"
  have st: "stands (ns ! j) ?n" using assms(1) j by (simp add: flooding_def)
  have part: "takes_part m (w_core w) seen x msg fwd hb pb ?n" using assms(3) j stands_same(1) [OF st] by blast
  have due: "due j = Wire (Datagram hb pb x) # map Air (cell_copies (w_faults w) copy (phones_of ?n) ?n)"
    using assms(3) j stands_same(4,5) [OF st] by simp
  obtain out n where s: "node_step m w (NodeInput h p x) ?n = (out, n)" by fastforce
  have g': "fst (mesh_step m w (Arrive i) g) = [(j, out)]"
    "snd (mesh_step m w (Arrive i) g) = \<lparr>mesh_nodes = (mesh_nodes g)[j := n],
       in_flight = (take i (in_flight g) @ drop (Suc i) (in_flight g)) @ sent_by (mesh_nodes g) n out\<rparr>"
    using s by (simp_all add: mesh_step_Arrive [OF y] d del: node_step.simps)
  have c: "carries {x} (snd (mesh_step m w (Arrive i) g))"
    using mesh_step_measure [of "{x}" g m seen "Arrive i" w] assms(1,2,5) by (simp add: flooding_def)
  have others: "awaits x ns (snd (mesh_step m w (Arrive i) g)) l"
    if a: "awaits x ns g l" and b: "l \<noteq> j \<or> pair_addr h p = node_site (ns ! j)" for l
  proof -
    obtain h' p' where l: "(l, From h' p' x) \<in> set (in_flight g)" "pair_addr h' p' \<noteq> node_site (ns ! l)"
      using a unfolding awaits_def by blast
    then have "(l, From h' p' x) \<noteq> ?y" using b y by auto
    from in_without [OF l(1) this] l(2) show ?thesis unfolding awaits_def g' by auto
  qed
  have "stands ?n n \<and>
      (if pair_addr h p = node_site (ns ! j) then out = [] \<and> n = ?n
       else seen (r_pipeline (n_relay n)) x \<and> out = (if seen (r_pipeline (n_relay ?n)) x then [] else due j))"
  proof (cases "pair_addr h p = node_site ?n")
    case True
    with own_copy [OF True, of m w x] s stands_same(2) [OF st] show ?thesis by simp
  next
    case False
    note f = foreign_copy [OF part assms(4) False, of w, unfolded s]
    show ?thesis
    proof (cases "seen (r_pipeline (n_relay ?n)) x")
      case True
      note b = broadcast_again [OF part assms(4,5) True, of "bh_peer_id h p"]
      from b f False stands_same(2) [OF st] True show ?thesis by (simp del: upcall.simps)
    next
      case new: False
      note b = broadcast_new [OF part assms(4,5) new assms(6-8), of "bh_peer_id h p"]
      from b f False new stands_same(2) [OF st] no_phone_is_a_node [OF part] due show ?thesis
        by (simp del: upcall.simps)
    qed
  qed
  note r = this
  show ?thesis
    unfolding flooding_def
  proof (intro conjI allI impI)
    show "length (mesh_nodes (snd (mesh_step m w (Arrive i) g))) = length ns"
      using assms(1) by (simp add: g' flooding_def)
    show "carries {x} (snd (mesh_step m w (Arrive i) g))" by (rule c)
    fix l assume l: "l < length ns"
    have len: "length (mesh_nodes g) = length ns" using assms(1) by (simp add: flooding_def)
    have old: "stands (ns ! l) (mesh_nodes g ! l) \<and>
        (if l = k then seen (r_pipeline (n_relay (mesh_nodes g ! l))) x \<and> reactions l hist = []
         else if seen (r_pipeline (n_relay (mesh_nodes g ! l))) x then reactions l hist = [due l]
         else reactions l hist = [] \<and> awaits x ns g l)"
      using assms(1) l by (simp add: flooding_def)
    let ?g = "snd (mesh_step m w (Arrive i) g)"
    have nl: "mesh_nodes ?g ! l = (if l = j then n else mesh_nodes g ! l)" using l j len by (simp add: g')
    have fs: "fst (mesh_step m w (Arrive i) g) = [(j, out)]" by (simp add: g')
    show "stands (ns ! l) (mesh_nodes ?g ! l)"
      using old r stands_trans [OF st] by (simp add: nl)
    show "if l = k then seen (r_pipeline (n_relay (mesh_nodes ?g ! l))) x \<and> reactions l (hist @ fst (mesh_step m w (Arrive i) g)) = []
         else if seen (r_pipeline (n_relay (mesh_nodes ?g ! l))) x then reactions l (hist @ fst (mesh_step m w (Arrive i) g)) = [due l]
         else reactions l (hist @ fst (mesh_step m w (Arrive i) g)) = [] \<and> awaits x ns ?g l"
      using old r others [of l] due unfolding nl fs by (cases "l = j") (auto split: if_splits)
  qed
qed

lemma flooding_run:
  assumes "flooding seen x due k ns hist g" and "playable m es g"
    and "\<forall>(w, e)\<in>set es. (\<exists>i. e = Arrive i) \<and> w_core w = c \<and> w_faults w = f \<and> w_net w = quiet_net"
    and "\<forall>j<length ns. takes_part m c seen x msg fwd hb pb (ns ! j) \<and>
      due j = Wire (Datagram hb pb x) # map Air (cell_copies f copy (phones_of (ns ! j)) (ns ! j))"
    and "is_broadcast x msg fwd copy" and "remembers (m_pipeline m) seen" and "0 \<le> pb" and "pb \<le> 65535"
  shows "flooding seen x due k ns (hist @ fst (mesh_run m es g)) (snd (mesh_run m es g))"
  using assms(1-3)
proof (induction es arbitrary: g hist)
  case (Cons we es)
  obtain w i where we: "we = (w, Arrive i)" using Cons.prems(3) by (cases we) auto
  let ?g = "snd (mesh_step m w (Arrive i) g)"
  have w: "w_core w = c" "w_faults w = f" "w_net w = quiet_net" using Cons.prems(3) by (auto simp: we)
  have p: "i < length (in_flight g)" "playable m es ?g" using Cons.prems(2) by (simp_all add: we)
  have "flooding seen x due k ns (hist @ fst (mesh_step m w (Arrive i) g)) ?g"
    using p(1) assms(4) w
    by (intro flooding_step [OF Cons.prems(1) _ _ assms(5,6) w(3) assms(7,8), where hb = hb]) simp_all
  from Cons.IH [OF this p(2)] Cons.prems(3) show ?case by (simp add: we case_prod_beta)
qed simp
lemma flood_starts:
  assumes "k < length ns" and "distinct (map node_site ns)"
    and "\<forall>n\<in>set ns. takes_part m (w_core w) seen x msg fwd hb pb n \<and> \<not> seen (r_pipeline (n_relay n)) x"
    and "is_broadcast x msg fwd copy" and "remembers (m_pipeline m) seen"
    and "w_net w = quiet_net" and "0 \<le> pb" and "pb \<le> 65535"
  shows "flooding seen x due k ns [] (snd (inject m w k p x ns))"
    "fst (inject m w k p x ns) = Wire (Datagram hb pb x) #
       map Air (cell_copies (w_faults w) copy (filter (\<lambda>q. q \<noteq> p) (phones_of (ns ! k))) (ns ! k))"
proof -
  let ?n = "ns ! k"
  have part: "takes_part m (w_core w) seen x msg fwd hb pb ?n" "\<not> seen (r_pipeline (n_relay ?n)) x"
    using assms(1,3) by simp_all
  obtain out r where u: "upcall m w (Received p x) (n_relay ?n) = (out, r)" by fastforce
  note b = broadcast_new [OF part(1) assms(4,5) part(2) assms(6-8), of p, unfolded u fst_conv snd_conv]
  let ?n' = "?n\<lparr>n_relay := r\<rparr>"
  have i: "inject m w k p x ns = (out, \<lparr>mesh_nodes = ns[k := ?n'], in_flight = sent_by ns ?n' out\<rparr>)"
    by (simp add: inject_def u del: upcall.simps)
  show out: "fst (inject m w k p x ns) = Wire (Datagram hb pb x) #
       map Air (cell_copies (w_faults w) copy (filter (\<lambda>q. q \<noteq> p) (phones_of ?n)) ?n)"
    using b(1) by (simp add: i)
  obtain sh sp where site: "node_site ?n' = pair_addr sh sp"
    using part(1) stands_same(2) [OF b(2)] by (auto simp: takes_part_def Let_def is_site_def)
  have "flood_site ?n' = pair_addr hb pb"
    using part(1) stands_same(3) [OF b(2)] by (auto simp: takes_part_def Let_def)
  moreover have "concat (map wire_of (map Air rs)) = []" for rs by (induction rs) simp_all
  ultimately have fl: "sent_by ns ?n' out = map (\<lambda>j. (j, From sh sp x)) [0..<length ns]"
    by (simp add: b(1) sent_by_def site del: map_map)
  have "awaits x ns (snd (inject m w k p x ns)) j" if "j < length ns" "j \<noteq> k" for j
  proof -
    have "node_site (ns ! j) \<noteq> node_site ?n"
      using that assms(1,2) by (metis distinct_conv_nth length_map nth_map)
    then have "pair_addr sh sp \<noteq> node_site (ns ! j)" using site stands_same(2) [OF b(2)] by simp
    with that(1) show ?thesis
      unfolding awaits_def by (intro exI [of _ sh] exI [of _ sp]) (simp add: i fl)
  qed
  moreover have "seen (r_pipeline (n_relay ?n')) x" using b(3) by simp
  moreover note b(2)
  ultimately show "flooding seen x due k ns [] (snd (inject m w k p x ns))"
    using assms(1,3) by (auto simp: flooding_def carries_def i fl nth_list_update)
qed

lemma flooding_done:
  assumes "flooding seen x due k ns hist g" and "in_flight g = []" and "j < length ns"
  shows "reactions j hist = (if j = k then [] else [due j])"
proof -
  have "if j = k then seen (r_pipeline (n_relay (mesh_nodes g ! j))) x \<and> reactions j hist = []
      else if seen (r_pipeline (n_relay (mesh_nodes g ! j))) x then reactions j hist = [due j]
      else reactions j hist = [] \<and> awaits x ns g j"
    using assms(1,3) unfolding flooding_def by blast
  moreover have "\<not> awaits x ns g j" by (simp add: awaits_def assms(2))
  ultimately show ?thesis by (simp split: if_splits)
qed

text \<open>The network can always finish.\<close>

lemma carries_complete:
  "\<lbrakk>carries X g; finite X; remembers (m_pipeline m) seen\<rbrakk> \<Longrightarrow>
   \<exists>n. playable m (replicate n (w, Arrive 0)) g \<and> in_flight (snd (mesh_run m (replicate n (w, Arrive 0)) g)) = []"
proof (induction "to_come seen X g" arbitrary: g rule: less_induct)
  case less
  show ?case
  proof (cases "in_flight g = []")
    case True
    then show ?thesis by (intro exI [of _ 0]) simp
  next
    case False
    let ?g = "snd (mesh_step m w (Arrive 0) g)"
    have s: "carries X ?g" "to_come seen X ?g < to_come seen X g"
      using mesh_step_measure [OF less.prems, of "Arrive 0" w] False by simp_all
    from less.hyps [OF s(2) s(1) less.prems(2,3)] obtain n where
      "playable m (replicate n (w, Arrive 0)) ?g" "in_flight (snd (mesh_run m (replicate n (w, Arrive 0)) ?g)) = []" by blast
    then show ?thesis
      using False by (intro exI [of _ "Suc n"]) (simp add: case_prod_beta)
  qed
qed

section \<open>Properties\<close>


text \<open>A pipeline that remembers, and three nodes with a Bluetooth phone each.\<close>

definition memory_pipeline :: "message \<Rightarrow> (bytes list, unit) pipeline" where
  "memory_pipeline msg = \<lparr>process = (\<lambda>now c p raw. if raw \<in> set p then (Drop, p) else (Deliver msg None, raw # p)),
     add_token = (\<lambda>now t c. (Some [], c)), fresh_pipeline = []\<rparr>"

lemma memory_remembers: "remembers (memory_pipeline msg) (\<lambda>p x. x \<in> set p)"
  by (simp add: remembers_def memory_pipeline_def)

abbreviation to_all :: message where
  "to_all \<equiv> sample_query\<lparr>msg_type := 1, msg_zone := 65535\<rparr>"

definition flood_machine :: "(bytes list, unit) machine" where
  "flood_machine = \<lparr>m_pipeline = memory_pipeline to_all, m_new_cache = (\<lambda>_ _. ()), m_max_packet = 460,
     m_uplink = (\<lambda>_. NoResponse), m_frepr = (\<lambda>_. []), m_rp = (\<lambda>_. [])\<rparr>"

definition flood_node :: "int \<Rightarrow> (bytes list, unit) node" where
  "flood_node z = \<lparr>n_relay = relay_init (memory_pipeline to_all)
       (BleOnly (ble_init (gatt_init\<lparr>connected_peers := {[1]}\<rparr>))) (sample_bh_of z) z None None None None,
     n_sync = \<lparr>zs_node_id = str_int z, zs_zone_id = z, zs_own_addr = pair_addr [51] z\<rparr>,
     n_heartbeat = sample_heartbeat, n_dead = {}\<rparr>"

abbreviation three_nodes :: "(bytes list, unit) node list" where
  "three_nodes \<equiv> map flood_node [1, 2, 3]"


lemma three_nodes_take_part:
  assumes "n \<in> set three_nodes"
  shows "takes_part flood_machine (w_core sample_world) (\<lambda>p x. x \<in> set p) x to_all None [57] 7 n"
    "r_pipeline (n_relay n) = []" "phones_of n = [[1]]"
  using assms
  by (auto simp: takes_part_def flood_node_def relay_init_def sample_bh_of_def bh_start_def bh_init_def bh_on_receive_def
      node_site_def flood_site_def is_site_def passes_by_def flood_machine_def memory_pipeline_def Let_def ble_init_def
      ble_on_receive_def gatt_init_def gatt_peers_def ble_list_peers_def starts_with_def lit_def)

end
