(* ===== verification/EndToEnd.thy ===== *)
theory EndToEnd
  imports Node GattServers
begin

text \<open>
  From phone to phone through one node, byte for byte: the chunks a phone writes over Bluetooth, the
  assembler, the transports, the relay with its pipeline, the fan-out, framing and chunking again, and
  what the assembler of every other phone makes of it.
\<close>

section \<open>What the phones hear\<close>

text \<open>Every notification goes to every subscribed phone; a socket's bytes go to its phone only.\<close>

fun notified :: "emission list \<Rightarrow> bytes list" where
  "notified [] = []"
| "notified (Air (BleNotify c) # es) = c # notified es"
| "notified (_ # es) = notified es"

fun written_to :: "nat \<Rightarrow> emission list \<Rightarrow> bytes list" where
  "written_to c [] = []"
| "written_to c (Air (TcpSend s d) # es) = (if s = c then d # written_to c es else written_to c es)"
| "written_to c (_ # es) = written_to c es"

definition writes :: "pystr \<Rightarrow> (world \<times> bytes) list \<Rightarrow> (world \<times> node_event) list" where
  "writes p wds = map (\<lambda>(w, d). (w, BleInput (Chunk p d))) wds"

lemma heard_append [simp]:
  "notified (a @ b) = notified a @ notified b" "written_to c (a @ b) = written_to c a @ written_to c b"
  by (induction a rule: notified.induct) simp_all

lemma heard_wires [simp]: "notified (map Wire ds) = []" "written_to c (map Wire ds) = []"
  by (induction ds) simp_all

lemma heard_air:
  "notified (map Air rs) = concat (map (\<lambda>r. case r of BleNotify x \<Rightarrow> [x] | TcpSend s x \<Rightarrow> []) rs)"
  "written_to c (map Air rs) = concat (map (\<lambda>r. case r of BleNotify x \<Rightarrow> [] | TcpSend s x \<Rightarrow> if s = c then [x] else []) rs)"
  by (induction rs) (auto split: radio.split)

section \<open>The write side\<close>

lemma partial_frame_stalled:
  assumes "b @ s = frame_of x" and "s \<noteq> []" and "fits x"
  shows "stalled b"
proof (cases "length b < 2")
  case True
  then show ?thesis by (simp add: stalled_def)
next
  case False
  then obtain h l r where b: "b = h # l # r" by (cases b; cases "tl b") auto
  then have hl: "h = of_nat (length x div 256)" "l = of_nat (length x mod 256)" "r @ s = x"
    using assms(1) by (simp_all add: frame_of_def)
  have "unpack_u16 b = length x"
    using assms(3) unpack_pack [of "length x" r] by (simp add: b hl fits_def MAX_FRAME_def)
  moreover have "length r < length x" using hl(3) assms(2) by auto
  ultimately show ?thesis using assms(3) by (simp add: stalled_def b fits_def)
qed

text \<open>The state of the node after chunks of an unfinished frame: only the assembler moved on.\<close>

definition mid_frame :: "pystr \<Rightarrow> bytes \<Rightarrow> ble \<Rightarrow> ble \<Rightarrow> bool" where
  "mid_frame p buf b b' =
     (buffer_of (server b') p = buf \<and> packet_cb (server b') = packet_cb (server b) \<and> ble_cb b' = ble_cb b \<and>
      connected_peers (server b') - {p} = connected_peers (server b) - {p} \<and> ble_inv b')"

lemma ble_chunk_waits:
  assumes "ble_inv b" and "stalled (buffer_of (server b) p @ d)"
  shows "fst (ble_input k b (Chunk p d)) = [] \<and> mid_frame p (buffer_of (server b) p @ d) b (snd (ble_input k b (Chunk p d)))"
proof -
  have f: "feed (buffer_of (server b) p) d = (Inr [], buffer_of (server b) p @ d)"
    using assms(2) by (simp add: feed_def assemble_stalled)
  then have "fst (handle_chunk (server b) p d) = []" by (simp add: handle_chunk_def)
  moreover have "buffer_of (snd (handle_chunk (server b) p d)) p = buffer_of (server b) p @ d"
    by (simp add: buffer_of_chunk f)
  moreover have "ble_inv (snd (ble_input k b (Chunk p d)))" by (rule ble_input_inv [OF assms(1)])
  ultimately show ?thesis
    by (auto simp: mid_frame_def ble_input_def case_prod_beta handle_chunk_state)
qed

lemma writes_wait:
  assumes "r_transport (n_relay n) = Multi b wi" and "ble_inv b" and "fits x" and "s \<noteq> []"
    and "buffer_of (server b) p @ concat (map snd wds) @ s = frame_of x"
  shows "\<exists>b'. node_run m (writes p wds) n = ([], n\<lparr>n_relay := (n_relay n)\<lparr>r_transport := Multi b' wi\<rparr>\<rparr>) \<and>
    mid_frame p (buffer_of (server b) p @ concat (map snd wds)) b b'"
  using assms
proof (induction wds arbitrary: n b)
  case Nil
  then have "(n_relay n)\<lparr>r_transport := Multi b wi\<rparr> = n_relay n" by (intro relay.equality) simp_all
  with Nil show ?case by (intro exI [of _ b]) (simp add: writes_def mid_frame_def)
next
  case (Cons wd wds)
  obtain w d where wd: "wd = (w, d)" by fastforce
  have "stalled (buffer_of (server b) p @ d)"
    using Cons.prems(3-5) by (intro partial_frame_stalled [of _ "concat (map snd wds) @ s" x]) (simp_all add: wd)
  note c = ble_chunk_waits [OF Cons.prems(2) this, of "m_max_packet m"]
  obtain b1 where i: "ble_input (m_max_packet m) b (Chunk p d) = ([], b1)"
    and b1: "mid_frame p (buffer_of (server b) p @ d) b b1" using c by (metis prod.collapse)
  let ?n = "n\<lparr>n_relay := (n_relay n)\<lparr>r_transport := Multi b1 wi\<rparr>\<rparr>"
  have s: "node_step m w (BleInput (Chunk p d)) n = ([], ?n)"
    using Cons.prems(1) i by (simp add: phone_input_def)
  have "r_transport (n_relay ?n) = Multi b1 wi" "ble_inv b1"
    "buffer_of (server b1) p @ concat (map snd wds) @ s = frame_of x"
    using b1 Cons.prems(5) by (simp_all add: mid_frame_def wd)
  from Cons.IH [OF this(1,2) Cons.prems(3,4) this(3)] obtain b2 where
    "node_run m (writes p wds) ?n = ([], ?n\<lparr>n_relay := (n_relay ?n)\<lparr>r_transport := Multi b2 wi\<rparr>\<rparr>)"
    "mid_frame p (buffer_of (server b1) p @ concat (map snd wds)) b1 b2" by blast
  with s b1 show ?case by (intro exI [of _ b2]) (simp add: writes_def wd mid_frame_def del: node_step.simps)
qed

text \<open>The chunk that completes the frame hands the packet up.\<close>

lemma ble_last_chunk:
  assumes "buffer_of (server b) p @ d = frame_of x" and "fits x" and "packet_cb (server b)" and "ble_cb b"
    and "x \<noteq> []" and "length x \<le> k"
  obtains b' where "ble_input k b (Chunk p d) = ([Received p x], b')"
    "connected_peers (server b') = insert p (connected_peers (server b))"
proof -
  have "feed (buffer_of (server b) p) d = (Inr [x], [])"
    using assemble_frame [OF assms(2), of "[]" "[]"] assms(1) by (simp add: feed_def assemble_stalled)
  then have "fst (handle_chunk (server b) p d) = [Packet p x]"
    using assms(3) by (simp add: handle_chunk_def)
  then have "ble_input k b (Chunk p d) = ([Received p x], b\<lparr>server := snd (handle_chunk (server b) p d)\<rparr>)"
    using assms(4-6) by (simp add: ble_input_def ble_handle_packet_def case_prod_beta)
  moreover have "connected_peers (snd (handle_chunk (server b) p d)) = insert p (connected_peers (server b))"
    by (simp add: handle_chunk_state)
  ultimately show thesis using that by simp
qed

section \<open>The fan-out as the phones hear it\<close>

lemma ble_send_pieces: "fst (ble_send no_faults b q x) = map BleNotify (pieces x)"
  by (simp add: ble_send_def send_packet_def no_faults_def for_each_notify pieces_def pieces_of_def split: sum.split)

lemma notified_map_ble [simp]: "notified (map (Air \<circ> BleNotify) cs) = cs" "written_to c (map (Air \<circ> BleNotify) cs) = []"
  by (induction cs) simp_all

lemma heard_concat:
  "notified (map Air (concat (map g qs))) = concat (map (\<lambda>q. notified (map Air (g q))) qs)"
  "written_to c (map Air (concat (map g qs))) = concat (map (\<lambda>q. written_to c (map Air (g q))) qs)"
  by (induction qs) simp_all

lemma one_socket:
  "distinct (map snd cs) \<Longrightarrow> (q, c) \<in> set cs \<Longrightarrow> concat (map (\<lambda>(k, s). if s = c then [f] else []) cs) = [f]"
proof (induction cs)
  case (Cons kc cs)
  have "c \<notin> snd ` set cs \<Longrightarrow> concat (map (\<lambda>(k, s). if s = c then [f] else []) cs) = []" by (induction cs) auto
  with Cons show ?case by (cases kc) (force simp: image_iff)
qed simp

lemma cell_hears:
  assumes "transport_inv (Multi b wi)" and "\<not> starts_with p WIFI_PEER_PREFIX" and "length x < 65536"
    and "distinct (map snd (conns wi))"
  defines "air \<equiv> concat (map (\<lambda>q. fst (transport_send no_faults (Multi b wi) q x))
    (filter (\<lambda>q. q \<noteq> p) (transport_list_peers (Multi b wi))))"
  shows "notified (map Air air) = concat (replicate (card (connected_peers (server b) - {p})) (pieces x))"
    "map_of (conns wi) q = Some c \<Longrightarrow> written_to c (map Air air) = [frame_of x]"
proof -
  let ?send = "\<lambda>q. fst (transport_send no_faults (Multi b wi) q x)"
  have g: "gatt_inv (server b)" and w: "wifi_inv wi" using assms(1) by (simp_all add: ble_inv_def)
  have ble: "?send q = map BleNotify (pieces x)" if "q \<in> set (ble_list_peers b)" for q
    using that assms(1) set_gatt_peers [OF g] by (simp add: ble_list_peers_def ble_send_pieces)
  have f: "frame x = Inr (frame_of x)" using assms(3) by (simp add: frame_Inr frame_of_def)
  have wifi: "?send (fst kc) = [TcpSend (snd kc) (frame_of x)]" if "kc \<in> set (conns wi)" for kc
  proof -
    have "map_of (conns wi) (fst kc) = Some (snd kc)" using w that by (simp add: wifi_inv_def)
    moreover have "starts_with (fst kc) WIFI_PEER_PREFIX" using w that by (force simp: wifi_inv_def)
    ultimately show ?thesis by (simp add: wifi_send_def f no_faults_def)
  qed
  have keep: "filter (\<lambda>q. q \<noteq> p) (wifi_list_peers wi) = wifi_list_peers wi"
    using w assms(2) by (auto simp: filter_id_conv wifi_list_peers_def wifi_inv_def)
  let ?bl = "filter (\<lambda>q. q \<noteq> p) (ble_list_peers b)"
  have air: "air = concat (map ?send ?bl) @ concat (map ?send (map fst (conns wi)))"
    by (simp add: air_def keep) (simp add: wifi_list_peers_def)
  have bl_of: "concat (map (\<lambda>q. notified (map Air (?send q))) qs) = concat (replicate (length qs) (pieces x)) \<and>
      concat (map (\<lambda>q. written_to c (map Air (?send q))) qs) = []" if "\<forall>q\<in>set qs. ?send q = map BleNotify (pieces x)" for qs
    using that by (induction qs) (simp_all del: transport_send.simps)
  have bl: "concat (map (\<lambda>q. notified (map Air (?send q))) ?bl) = concat (replicate (length ?bl) (pieces x))"
    "concat (map (\<lambda>q. written_to c (map Air (?send q))) ?bl) = []"
    using bl_of [of ?bl] ble by auto
  have wl: "concat (map (\<lambda>kc. notified (map Air (?send (fst kc)))) (conns wi)) = []"
    "concat (map (\<lambda>kc. written_to c (map Air (?send (fst kc)))) (conns wi)) =
       concat (map (\<lambda>(k, s). if s = c then [frame_of x] else []) (conns wi))"
    by (simp add: wifi del: transport_send.simps)
      (intro arg_cong [where f = concat] map_cong refl, simp add: wifi case_prod_beta del: transport_send.simps)
  have "length ?bl = card (set ?bl)" 
    unfolding ble_list_peers_def by (rule distinct_card [symmetric]) (simp add: distinct_gatt_peers)
  also have "set ?bl = connected_peers (server b) - {p}" using set_gatt_peers [OF g] by (auto simp: ble_list_peers_def)
  finally show "notified (map Air air) = concat (replicate (card (connected_peers (server b) - {p})) (pieces x))"
    using bl(1) wl(1) by (simp add: air heard_concat comp_def del: transport_send.simps)
  show "map_of (conns wi) q = Some c \<Longrightarrow> written_to c (map Air air) = [frame_of x]"
    using bl(2) wl(2) one_socket [OF assms(4), of q c "frame_of x"]
    by (simp add: air heard_concat comp_def map_of_SomeD del: transport_send.simps)
qed

section \<open>Properties\<close>

text \<open>C3. From phone to phone: when a phone writes the framed packet in chunks of any size, and the pipeline
  accepts it, then once the last chunk is in, the stream on every WiFi phone's socket decodes to exactly
  the packet one hop further, once; and the notifications decode to that packet as many times as there
  are other Bluetooth phones, because each copy meant for one of them is notified to all of them, the
  sending phone included. Before the last chunk the node sends nothing.\<close>

theorem phone_to_phone:
  assumes "node_inv z n" and "r_transport (n_relay n) = Multi b wi" and "distinct (map snd (conns wi))"
    and "packet_cb (server b)" and "ble_cb b" and "buffer_of (server b) p = []" and "\<not> starts_with p WIFI_PEER_PREFIX"
    and "concat (map snd wds) @ d = frame_of x" and "d \<noteq> []" and "x \<noteq> []" and "length x \<le> MAX_FRAME" and "length x \<le> m_max_packet m"
    and "relays m w (n_relay n) x msg fwd" and "w_faults w = no_faults" and "bh_good (w_mono w) (w_net w) (r_backhaul (n_relay n))"
    and "relayed_copy x fwd = Inr copy" and "69 < length copy" and "length copy \<le> MAX_FRAME" and "copy ! 68 \<noteq> 0"
  shows "fst (node_run m (writes p wds) n) = [] \<and>
    (let out = fst (node_run m (writes p (wds @ [(w, d)])) n)
     in (\<forall>q c. map_of (conns wi) q = Some c \<longrightarrow> feeds feed [] (written_to c out) = (Inr [copy], [])) \<and>
        feeds feed [] (notified out) = (Inr (replicate (card (connected_peers (server b) - {p})) copy), []))"
proof -
  have inv: "ble_inv b" using assms(1,2) by (simp add: node_inv_def Let_def)
  have fx: "fits x" and fc: "fits copy" using assms(11,18) by (simp_all add: fits_def)
  obtain b1 where r1: "node_run m (writes p wds) n = ([], n\<lparr>n_relay := (n_relay n)\<lparr>r_transport := Multi b1 wi\<rparr>\<rparr>)"
    and m1: "mid_frame p (concat (map snd wds)) b b1"
    using writes_wait [OF assms(2) inv fx assms(9), of p wds m] assms(6,8) by auto
  let ?n1 = "n\<lparr>n_relay := (n_relay n)\<lparr>r_transport := Multi b1 wi\<rparr>\<rparr>"
  obtain b2 where i2: "ble_input (m_max_packet m) b1 (Chunk p d) = ([Received p x], b2)"
    and p2: "connected_peers (server b2) = insert p (connected_peers (server b1))"
    by (rule ble_last_chunk [of b1 p d x "m_max_packet m"])
      (use m1 assms(4,5,8,10,12) fx in \<open>simp_all add: mid_frame_def\<close>)
  let ?r = "(n_relay n)\<lparr>r_transport := Multi b2 wi\<rparr>"
  have t2: "transport_inv (Multi b2 wi)"
  proof -
    have "ble_inv b2" using ble_input_inv [of b1 "m_max_packet m" "Chunk p d"] i2 m1 by (simp add: mid_frame_def)
    moreover have "connected_peers (server b2) \<subseteq> insert p (connected_peers (server b))"
      using p2 m1 by (auto simp: mid_frame_def)
    ultimately show ?thesis using assms(1,2,7) by (auto simp: node_inv_def Let_def)
  qed
  define air where "air = concat (map (\<lambda>q. fst (transport_send no_faults (Multi b2 wi) q copy))
    (filter (\<lambda>q. q \<noteq> p) (transport_list_peers (Multi b2 wi))))"
  have "relays m w ?r x msg fwd" using assms(13) by (simp add: relays_def passes_by_def)
  then obtain qp where rel: "\<not> is_telemetry_frame x" "\<not> is_backend_proxy_frame x"
      "\<not> is_attestation_presentation (w_core w) x \<or> r_attestation ?r = None"
      "process (m_pipeline m) (w_now w) (r_attestation ?r) (r_pipeline ?r) x = (Deliver msg fwd, qp)" "passes_by (w_core w) msg ?r"
    unfolding relays_def by (metis prod.collapse)
  have zone: "r_zone_id ?r = bh_zone_id (r_backhaul ?r)" using assms(1) by (simp add: node_inv_def Let_def)
  have good: "bh_good (w_mono w) (w_net w) (r_backhaul ?r)" using assms(15) by simp
  have len: "length copy < 65536" using assms(18) by (simp add: MAX_FRAME_def)
  obtain ds where h: "fst (handle_packet (m_pipeline m) w p x ?r) = (map ToNode ds @ map OnAir air, None)"
    using accepted_fan_out [OF rel zone good assms(16,17) len assms(19)] assms(14) by (auto simp: air_def)
  have "fst (node_step m w (BleInput (Chunk p d)) ?n1) = map Wire ds @ map Air air"
    using i2 h by (simp add: phone_input_def case_prod_beta comp_def)
  moreover have "writes p (wds @ [(w, d)]) = writes p wds @ [(w, BleInput (Chunk p d))]" by (simp add: writes_def)
  ultimately have out: "fst (node_run m (writes p (wds @ [(w, d)])) n) = map Wire ds @ map Air air"
    by (simp add: node_run_append r1 case_prod_beta del: node_step.simps)
  note c = cell_hears [OF t2 assms(7) len assms(3), folded air_def]
  have card: "connected_peers (server b2) - {p} = connected_peers (server b) - {p}"
    using p2 m1 by (auto simp: mid_frame_def)
  have "feeds feed [] (concat (replicate k (pieces copy))) = (Inr (replicate k copy), [])" for k
    using pieces_feed [of "replicate k copy"] assms(18) by simp
  moreover have "feeds feed [] [frame_of copy] = (Inr [copy], [])"
    using asm.feeds_encoded [of "[copy]" "[frame_of copy]"] fc by simp
  ultimately show ?thesis using c(1) c(2) by (simp add: r1 out Let_def card)
qed

definition sample_cell :: transport where
  "sample_cell = Multi \<lparr>server = gatt_init\<lparr>connected_peers := {[1], [2]}, packet_cb := True\<rparr>, ble_cb = True, ble_connect_cb = False\<rparr>
     (snd (wifi_accept ((wifi_init 1)\<lparr>running := True\<rparr>) [49] 5 3))"

lemma sample_bh_of_good: "bh_good 100 quiet_net (bh_on_receive (sample_bh_of 1))"
  by (auto simp: bh_good_def sample_bh_of_def bh_start_def bh_init_def bh_on_receive_def sendable_def quiet_net_def
      ztable_init_def addr_for_def split: option.splits if_splits)

theorem phone_to_phone_witness:
  "\<exists>out. feeds feed [] (written_to 3 out) = (Inr [(replicate 70 2)[68 := 1]], []) \<and>
     feeds feed [] (notified out) = (Inr [(replicate 70 2)[68 := 1]], [])"
proof -
  let ?x = "replicate 70 (2 :: byte)" and ?b = "\<lparr>server = gatt_init\<lparr>connected_peers := {[1], [2]}, packet_cb := True\<rparr>, ble_cb = True, ble_connect_cb = False\<rparr>"
  let ?wi = "snd (wifi_accept ((wifi_init 1)\<lparr>running := True\<rparr>) [49] 5 3)"
  let ?n = "(sample_node 1)\<lparr>n_relay := (n_relay (sample_node 1))\<lparr>r_transport := sample_cell\<rparr>\<rparr>"
  have g: "gatt_inv (server ?b)" by (simp add: gatt_inv_def gatt_init_def)
  have "wifi_inv ?wi" by (rule wifi_inv_accept) (simp add: wifi_inv_def wifi_init_def)
  then have inv: "node_inv 1 ?n"
    using sample_node_inv [of 1] g by (simp add: node_inv_def Let_def sample_cell_def ble_inv_def starts_with_def WIFI_PEER_PREFIX_def lit_def gatt_init_def)
  have t: "r_transport (n_relay ?n) = Multi ?b ?wi" by (simp add: sample_cell_def)
  have co: "conns ?wi = [(wifi_peer_id [49] 5, 3)]" by (simp add: wifi_accept_def wifi_init_def Let_def)
  have rel: "relays (sample_machine zone_two) sample_world (n_relay ?n) ?x zone_two None"
    using sample_relays [of 1] by (simp add: relays_def passes_by_def)
  have good: "bh_good (w_mono sample_world) (w_net sample_world) (r_backhaul (n_relay ?n))"
    using sample_bh_of_good by (simp add: sample_world_def sample_node_def relay_init_def)
  have copy: "relayed_copy ?x None = Inr (?x[68 := 1])" by (simp add: relayed_copy_def decrement_ttl_iff TTL_OFFSET_def)
  have m: "m_max_packet (sample_machine zone_two) = 460" "w_faults sample_world = no_faults"
    by (simp_all add: sample_machine_def sample_world_def)
  show ?thesis
    using phone_to_phone [OF inv t, of "[1]" "[(sample_world, take 30 (frame_of ?x))]" "drop 30 (frame_of ?x)" ?x
        "sample_machine zone_two" sample_world zone_two None "?x[68 := 1]"] rel good copy co m
    by (simp add: Let_def MAX_FRAME_def buffer_of_def gatt_init_def starts_with_def WIFI_PEER_PREFIX_def lit_def
        split: if_splits) blast
qed

end
