(* ===== verification/Demo.thy ===== *)
theory Demo
  imports Node
begin

text \<open>
  \<open>scripts/demo_phase5_attestation.py\<close>: two relays joined by the UDP backhaul on the loopback address, with
  recorded phones in place of the radios. A demonstration node is a relay whose transport is
  \<open>PhoneTransport\<close>: the field \<open>r_transport\<close> of its \<open>relay\<close> record is not read, and the phones are
  \<open>d_received\<close>. The identities, the signed packets and the JWT library are meshlink-core's and third
  parties'.
\<close>

definition MSG_TYPE_TEXT :: byte where
  "MSG_TYPE_TEXT = 1"

definition LOOPBACK :: pystr where
  "LOOPBACK = lit ''127.0.0.1''"

definition DEMO_ZONE_TABLE :: "(int, addr) dict" where
  "DEMO_ZONE_TABLE = [(1, pair_addr LOOPBACK 19801), (2, pair_addr LOOPBACK 19802)]"

section \<open>\<open>PhoneTransport\<close>\<close>

type_synonym phones = "(pystr, bytes list) dict"

definition phones_init :: "pystr list \<Rightarrow> phones" where
  "phones_init ps = dict_of_pairs (map (\<lambda>p. (p, [])) ps)"

definition phone_send :: "pystr \<Rightarrow> bytes \<Rightarrow> phones \<Rightarrow> exn option \<times> phones" where
  "phone_send peer_id data r =
     (case map_of r peer_id of
        None \<Rightarrow> (Some KeyError, r)
      | Some xs \<Rightarrow> (None, AList.update peer_id (xs @ [data]) r))"

definition phone_list_peers :: "phones \<Rightarrow> pystr list" where
  "phone_list_peers r = map fst r"

text \<open>The relay's loop over the listed phones, up to an exception of \<open>send\<close>.\<close>

fun phone_fan_out :: "pystr \<Rightarrow> bytes \<Rightarrow> pystr list \<Rightarrow> phones \<Rightarrow> exn option \<times> phones" where
  "phone_fan_out giver data [] r = (None, r)"
| "phone_fan_out giver data (p # ps) r =
     (if p = giver then phone_fan_out giver data ps r
      else (case phone_send p data r of
          (Some e, r') \<Rightarrow> (Some e, r')
        | (None, r') \<Rightarrow> phone_fan_out giver data ps r'))"

section \<open>A demonstration node\<close>

record ('p, 'c) demo_node =
  d_relay :: "('p, 'c) relay"
  d_received :: phones

text \<open>\<open>start_node\<close>: the temporary directory has no cached key. \<open>udp_port\<close> is the configured port, which the
  addresses with a port do not use; \<open>bind_fault\<close> is the failure to bind the socket.\<close>

definition demo_backhaul :: "int \<Rightarrow> exn option \<Rightarrow> int \<Rightarrow> exn + backhaul" where
  "demo_backhaul udp_port bind_fault zone_id =
     (case (map_of DEMO_ZONE_TABLE zone_id, map_of DEMO_ZONE_TABLE (if zone_id = 1 then 2 else 1), bind_fault) of
        (Some own, Some other, None) \<Rightarrow>
          Inr (bh_init zone_id (Some (ztable_init zone_id DEMO_ZONE_TABLE 180)) (Some own) other udp_port)
      | (Some own, Some other, Some e) \<Rightarrow> Inl e
      | _ \<Rightarrow> Inl KeyError)"

definition demo_start_node ::
  "('p, 'c) machine \<Rightarrow> int \<Rightarrow> exn option \<Rightarrow> int \<Rightarrow> exn + bytes \<Rightarrow> exn option \<Rightarrow> pystr list \<Rightarrow> exn + ('p, 'c) demo_node" where
  "demo_start_node m udp_port bind_fault zone_id fetched disk_fault phones =
     (case fst (load_organiser_pubkey fetched disk_fault None) of
        Inl e \<Rightarrow> Inl e
      | Inr pub_hex \<Rightarrow>
          (case fromhex pub_hex of
             None \<Rightarrow> Inl ValueError
           | Some key \<Rightarrow>
               (case demo_backhaul udp_port bind_fault zone_id of
                  Inl e \<Rightarrow> Inl e
                | Inr bh \<Rightarrow>
                    (let r = relay_init (m_pipeline m) (BleOnly (ble_init gatt_init)) bh zone_id
                               (Some (m_new_cache m key (lit ''test-event-001''))) None None None
                     in Inr \<lparr>d_relay = r\<lparr>r_backhaul := bh_start (r_backhaul r)\<rparr>, d_received = phones_init phones\<rparr>))))"

text \<open>\<open>_handle_packet\<close> on such a node: no telemetry, proxy or location service. \<open>demo_handle_is_relay\<close> below
  compares it with the handler of \<open>Relay\<close>.\<close>

definition demo_local_cell ::
  "pystr \<Rightarrow> bytes \<Rightarrow> bytes option \<Rightarrow> ('p, 'c) demo_node \<Rightarrow> exn option \<times> ('p, 'c) demo_node" where
  "demo_local_cell peer_id raw fwd n =
     (case relayed_copy raw fwd of
        Inl e \<Rightarrow> (Some e, n)
      | Inr copy \<Rightarrow>
          (if length copy \<le> TTL_OFFSET then (Some IndexError, n)
           else if copy ! TTL_OFFSET = 0 then (None, n)
           else (case phone_fan_out peer_id copy (phone_list_peers (d_received n)) (d_received n) of
               (Some e, r) \<Rightarrow> (Some e, n\<lparr>d_received := r\<rparr>)
             | (None, r) \<Rightarrow> (if length copy \<le> SPRAY_OFFSET then Some IndexError else None,
                            n\<lparr>d_received := r, d_relay := count (relayed_to_phones_update Suc) (d_relay n)\<rparr>))))"

definition demo_onward ::
  "world \<Rightarrow> pystr \<Rightarrow> bytes \<Rightarrow> message \<Rightarrow> bytes option \<Rightarrow> ('p, 'c) demo_node \<Rightarrow> (effect list \<times> exn option) \<times> ('p, 'c) demo_node" where
  "demo_onward w peer_id raw msg fwd n =
     (case cross_node w msg raw (d_relay n) of
        ((out, Some e), s') \<Rightarrow> ((out, Some e), n\<lparr>d_relay := s'\<rparr>)
      | ((out, None), s') \<Rightarrow>
          (case demo_local_cell peer_id raw fwd (n\<lparr>d_relay := s'\<rparr>) of (r, n') \<Rightarrow> ((out, r), n')))"

definition demo_handle ::
  "('p, 'c) pipeline \<Rightarrow> world \<Rightarrow> pystr \<Rightarrow> bytes \<Rightarrow> ('p, 'c) demo_node \<Rightarrow> (effect list \<times> exn option) \<times> ('p, 'c) demo_node" where
  "demo_handle pl w peer_id raw n =
     (if is_telemetry_frame raw \<or> is_backend_proxy_frame raw then (([], None), n)
      else
        (let s = d_relay n; s1 = count (received_update Suc) s
         in case (if is_attestation_presentation (w_core w) raw then r_attestation s else None) of
              Some cache \<Rightarrow> (case handle_presentation pl w raw cache s1 of (res, s') \<Rightarrow> (res, n\<lparr>d_relay := s'\<rparr>))
            | None \<Rightarrow>
                (case process pl (w_now w) (r_attestation s) (r_pipeline s) raw of
                   (Drop, p) \<Rightarrow> (([], None), n\<lparr>d_relay := count (dropped_update Suc) (s1\<lparr>r_pipeline := p\<rparr>)\<rparr>)
                 | (Deliver msg fwd, p) \<Rightarrow>
                     demo_onward w peer_id raw msg fwd (n\<lparr>d_relay := count (accepted_update Suc) (s1\<lparr>r_pipeline := p\<rparr>)\<rparr>))))"

text \<open>\<open>inject\<close>, and a datagram from the other node.\<close>

definition demo_inject ::
  "('p, 'c) machine \<Rightarrow> world \<Rightarrow> pystr \<Rightarrow> bytes \<Rightarrow> ('p, 'c) demo_node \<Rightarrow> (effect list \<times> exn option) \<times> ('p, 'c) demo_node" where
  "demo_inject m w phone raw n = demo_handle (m_pipeline m) w phone raw n"

definition demo_datagram ::
  "('p, 'c) machine \<Rightarrow> world \<Rightarrow> pystr \<Rightarrow> int \<Rightarrow> bytes \<Rightarrow> ('p, 'c) demo_node \<Rightarrow> effect list \<times> ('p, 'c) demo_node" where
  "demo_datagram m w h p data n =
     (case bh_recv (r_backhaul (d_relay n)) h p data of
        [ToRelay peer_id packet] \<Rightarrow> (case demo_handle (m_pipeline m) w peer_id packet n of ((out, r), n') \<Rightarrow> (out, n'))
      | _ \<Rightarrow> ([], n))"

section \<open>The phones' packets and the summary\<close>

definition device_packet :: "bytes \<Rightarrow> int \<Rightarrow> bytes \<Rightarrow> packet_spec" where
  "device_packet ephem ty payload = \<lparr>ps_ephem = ephem, ps_ttl = 5, ps_spray_l = 1, ps_zone = BROADCAST_ZONE,
     ps_type = ty, ps_payload = payload\<rparr>"

text \<open>\<open>int.from_bytes(..., "big")\<close>, and the text of a packet of type \<open>TEXT\<close>; \<open>p[72]\<close> raises on a short one.\<close>

definition from_bytes_big :: "bytes \<Rightarrow> nat" where
  "from_bytes_big bs = foldl (\<lambda>n b. n * 256 + unat b) 0 bs"

definition packet_text :: "bytes \<Rightarrow> pystr" where
  "packet_text p = decode_utf8_replace (take (from_bytes_big (take 2 (drop 73 p))) (drop 75 p))"

definition demo_summary :: "bytes list \<Rightarrow> exn + pystr list" where
  "demo_summary ps =
     (if list_ex (\<lambda>p. length p \<le> 72) ps then Inl IndexError
      else Inr (map packet_text (filter (\<lambda>p. p ! 72 = MSG_TYPE_TEXT) ps)))"

text \<open>The tokens of \<open>make_bad_tokens\<close>: claims, and whether the organiser's key signs them.\<close>

record claims =
  cl_sub :: pystr
  cl_eid :: pystr
  cl_iat :: int
  cl_exp :: int

definition good_claims :: "pystr \<Rightarrow> int \<Rightarrow> claims" where
  "good_claims pubkey_hex now = \<lparr>cl_sub = pubkey_hex, cl_eid = lit ''test-event-001'', cl_iat = now, cl_exp = now + 3600\<rparr>"

definition make_bad_tokens :: "pystr \<Rightarrow> int \<Rightarrow> pystr \<Rightarrow> (claims \<times> bool) list" where
  "make_bad_tokens pubkey_hex now random_hex =
     (let good = good_claims pubkey_hex now
      in [(good\<lparr>cl_exp := now - 60\<rparr>, True), (good\<lparr>cl_eid := lit ''other-event-999''\<rparr>, True), (good, False),
          (good\<lparr>cl_sub := random_hex\<rparr>, True)])"

section \<open>\<open>main\<close>\<close>

text \<open>The call of \<open>HeartbeatSender\<close> by keyword: a required parameter that is missing raises.\<close>

definition heartbeat_required :: "pystr list" where
  "heartbeat_required = map lit [''node_id'', ''zone_id'', ''zone_name'', ''base_url'', ''transport'', ''backhaul'']"

definition heartbeat_optional :: "pystr list" where
  "heartbeat_optional = map lit [''relay'', ''phone_ping'', ''interval_s'', ''timeout_s'']"

definition call_fault :: "pystr list \<Rightarrow> pystr list \<Rightarrow> pystr list \<Rightarrow> exn option" where
  "call_fault required optional given =
     (if set required \<subseteq> set given \<and> set given \<subseteq> set required \<union> set optional then None else Some TypeError)"

definition demo_heartbeat_args :: "pystr list" where
  "demo_heartbeat_args = map lit [''node_id'', ''zone_id'', ''base_url'', ''transport'', ''backhaul'', ''interval_s'']"

text \<open>\<open>run_node2\<close>: fifteen seconds of datagrams, each handled in the world of its moment, then the texts of
  phone C.\<close>

fun demo_listen ::
  "('p, 'c) machine \<Rightarrow> (world \<times> pystr \<times> int \<times> bytes) list \<Rightarrow> ('p, 'c) demo_node \<Rightarrow> ('p, 'c) demo_node" where
  "demo_listen m [] n = n"
| "demo_listen m ((w, h, p, data) # es) n = demo_listen m es (snd (demo_datagram m w h p data n))"

definition run_node2 ::
  "('p, 'c) machine \<Rightarrow> int \<Rightarrow> exn option \<Rightarrow> exn + bytes \<Rightarrow> exn option \<Rightarrow> (world \<times> pystr \<times> int \<times> bytes) list \<Rightarrow> exn + pystr list" where
  "run_node2 m udp_port bind_fault fetched disk_fault heard =
     (case demo_start_node m udp_port bind_fault 2 fetched disk_fault [lit ''phoneC''] of
        Inl e \<Rightarrow> Inl e
      | Inr n \<Rightarrow> (case map_of (d_received (demo_listen m heard n)) (lit ''phoneC'') of
          None \<Rightarrow> Inl KeyError
        | Some ps \<Rightarrow> demo_summary ps))"

text \<open>\<open>main\<close> up to the construction of the heartbeat, and its \<open>finally\<close>: what was done, and the exception
  that leaves it; \<open>None\<close> would mean that the demonstration goes on. \<open>alive\<close> tells whether the second
  process still runs.\<close>

datatype demo_act = SpawnNode2 | AskKey http_request | KillNode2

definition demo_main ::
  "('p, 'c) machine \<Rightarrow> int \<Rightarrow> exn option \<Rightarrow> pystr \<Rightarrow> exn + bytes \<Rightarrow> exn option \<Rightarrow> bool \<Rightarrow> demo_act list \<times> exn option" where
  "demo_main m udp_port bind_fault base_url fetched disk_fault alive =
     (let r = (case demo_start_node m udp_port bind_fault 1 fetched disk_fault [lit ''phoneA'', lit ''phoneB''] of
                 Inl e \<Rightarrow> Some e
               | Inr n \<Rightarrow> call_fault heartbeat_required heartbeat_optional demo_heartbeat_args)
      in ([SpawnNode2, AskKey (url_request (organiser_key_url base_url))] @
          (if r \<noteq> None \<and> alive then [KillNode2] else []), r))"

section \<open>What the demonstration shows\<close>

lemma phone_send_Some:
  "map_of r p = Some xs \<Longrightarrow> phone_send p x r = (None, AList.update p (xs @ [x]) r)"
  by (simp add: phone_send_def)

lemma map_of_phones_init: "map_of (phones_init ps) q = (if q \<in> set ps then Some [] else None)"
proof -
  have "map_of (map (\<lambda>p. (p, [])) xs) q = (if q \<in> set xs then Some [] else None)" for xs :: "pystr list"
    by (induction xs) auto
  from this [of "rev ps"] show ?thesis by (simp add: phones_init_def map_of_dict_of_pairs rev_map)
qed

lemma wf_phones_init: "wf_dict (phones_init ps)"
  by (simp add: phones_init_def wf_dict_of_pairs)

text \<open>The loop over the phones raises nothing and gives every phone but the giver one copy.\<close>

lemma phone_fan_out_copies:
  assumes "set ps \<subseteq> dom (map_of r)" and "distinct ps"
  shows "fst (phone_fan_out giver x ps r) = None \<and>
    map_of (snd (phone_fan_out giver x ps r)) q =
      (if q \<in> set ps \<and> q \<noteq> giver then map_option (\<lambda>xs. xs @ [x]) (map_of r q) else map_of r q)"
  using assms
proof (induction ps arbitrary: r)
  case Nil
  then show ?case by simp
next
  case (Cons p ps)
  show ?case
  proof (cases "p = giver")
    case True
    with Cons show ?thesis by auto
  next
    case False
    obtain xs where xs: "map_of r p = Some xs" using Cons.prems(1) by auto
    let ?r = "AList.update p (xs @ [x]) r"
    have "set ps \<subseteq> dom (map_of ?r)" using Cons.prems(1) by (auto simp: update_conv')
    from Cons.IH [OF this] Cons.prems(2) False xs show ?thesis
      by (auto simp: phone_send_Some update_conv')
  qed
qed

text \<open>The handler is the relay's: with the services such a node lacks, both send the same datagrams and leave the
  relay in the same state, counters apart.\<close>

fun leaves_by_wire :: "effect \<Rightarrow> bool" where
  "leaves_by_wire (ToNode d) = True"
| "leaves_by_wire (OnAir r) = False"

lemma filter_wire [simp]: "filter leaves_by_wire (map ToNode ds) = map ToNode ds" "filter leaves_by_wire (map OnAir rs) = []"
  by (induction ds) (simp_all add: filter_empty_conv)

lemma local_cell_wire [simp]: "filter leaves_by_wire (fst (fst (local_cell w p x fwd s))) = []"
  using local_cell_effects [of _ w p x fwd s] by (fastforce simp: filter_empty_conv)

lemma cross_node_wire [simp]: "filter leaves_by_wire (fst (fst (cross_node w msg x s))) = fst (fst (cross_node w msg x s))"
  using cross_node_effects [of _ w msg x s] by (fastforce simp: filter_id_conv)

lemma demo_local_cell_relay:
  "(d_relay (snd (demo_local_cell p x fwd n)))\<lparr>r_stats := z\<rparr> = (d_relay n)\<lparr>r_stats := z\<rparr>"
  by (simp add: demo_local_cell_def split: sum.splits prod.splits option.splits)

lemma handle_presentation_wire [simp]:
  "filter leaves_by_wire (fst (fst (handle_presentation pl w x c s))) = fst (fst (handle_presentation pl w x c s))"
  using handle_presentation_effects [of _ pl w x c s] by (fastforce simp: filter_id_conv)

lemma handle_accepted_onward: "r_location s = None \<Longrightarrow> handle_accepted w p x msg fwd s = relay_onward w p x msg fwd s"
  by (simp add: handle_accepted_def terminate_here_def split: prod.split)

lemma demo_onward_is_relay:
  assumes "r_location (d_relay n) = None"
  shows "fst (fst (demo_onward w p x msg fwd n)) = filter leaves_by_wire (fst (fst (handle_accepted w p x msg fwd (d_relay n))))"
    and "(d_relay (snd (demo_onward w p x msg fwd n)))\<lparr>r_stats := z\<rparr> = (snd (handle_accepted w p x msg fwd (d_relay n)))\<lparr>r_stats := z\<rparr>"
proof -
  obtain out r s where c: "cross_node w msg x (d_relay n) = ((out, r), s)" by (metis prod.exhaust)
  have "filter leaves_by_wire out = out" using cross_node_wire [of w msg x "d_relay n"] by (simp add: c)
  then show "fst (fst (demo_onward w p x msg fwd n)) = filter leaves_by_wire (fst (fst (handle_accepted w p x msg fwd (d_relay n))))"
    by (simp add: handle_accepted_onward [OF assms] relay_onward_fst c demo_onward_def case_prod_beta split: option.split)
  show "(d_relay (snd (demo_onward w p x msg fwd n)))\<lparr>r_stats := z\<rparr> = (snd (handle_accepted w p x msg fwd (d_relay n)))\<lparr>r_stats := z\<rparr>"
    by (simp add: handle_accepted_onward [OF assms] relay_onward_snd c demo_onward_def case_prod_beta demo_local_cell_relay
        local_cell_rest split: option.split)
qed

lemma demo_handle_is_relay:
  assumes "r_phone_ping (d_relay n) = None" and "r_backend_proxy (d_relay n) = None" and "r_location (d_relay n) = None"
  shows "fst (fst (demo_handle pl w p x n)) = filter leaves_by_wire (fst (fst (handle_packet pl w p x (d_relay n))))"
    and "(d_relay (snd (demo_handle pl w p x n)))\<lparr>r_stats := z\<rparr> = (snd (handle_packet pl w p x (d_relay n)))\<lparr>r_stats := z\<rparr>"
  unfolding demo_handle_def handle_packet_def Let_def
  by (simp_all add: assms demo_onward_is_relay case_prod_beta split: option.split outcome.split)

text \<open>A started node: its backhaul runs with the other node's address for broadcasts.\<close>

definition demo_bh :: "int \<Rightarrow> int \<Rightarrow> backhaul" where
  "demo_bh udp_port z = bh_start (bh_on_receive (bh_init z (Some (ztable_init z DEMO_ZONE_TABLE 180))
     (Some (pair_addr LOOPBACK (19800 + z))) (pair_addr LOOPBACK (19803 - z)) udp_port))"

lemma demo_started:
  assumes "demo_start_node m udp_port None z fetched disk_fault phones = Inr n" and "z = 1 \<or> z = 2"
    and "fst (load_organiser_pubkey fetched disk_fault None) = Inr pub" and "fromhex pub = Some key"
  shows "r_backhaul (d_relay n) = demo_bh udp_port z \<and> d_received n = phones_init phones \<and>
    r_attestation (d_relay n) = Some (m_new_cache m key (lit ''test-event-001'')) \<and>
    r_pipeline (d_relay n) = fresh_pipeline (m_pipeline m) \<and> r_presentation (d_relay n) = fresh_pipeline (m_pipeline m)"
  using assms
  by (auto simp: demo_start_node_def demo_backhaul_def DEMO_ZONE_TABLE_def demo_bh_def relay_init_def Let_def)

lemma demo_broadcast:
  assumes "w_net w = quiet_net" and "z = 1 \<or> z = 2"
  shows "broadcast_to_all_nodes (w_net w) (demo_bh udp_port z) x = ([Datagram LOOPBACK (19803 - z) x], None)"
  using assms
  by (auto simp: broadcast_to_all_nodes_def demo_bh_def bh_start_def bh_on_receive_def bh_init_def bh_send_def
      sendto_pair_def quiet_net_def)

lemma demo_hears:
  assumes "\<not> starts_with x ZONE_SYNC_MAGIC" and "z = 1 \<or> z = 2" and "p \<noteq> 19800 + z"
  shows "bh_recv (demo_bh udp_port z) LOOPBACK p x = [ToRelay (bh_peer_id LOOPBACK p) x]"
  using assms
  by (auto simp: bh_recv_def demo_bh_def bh_start_def bh_on_receive_def bh_init_def bh_deliver_def)

text \<open>What the demonstration takes meshlink-core and the backend's token to do: the presentation is well
  signed, its token is good, and the text is accepted once the sender is attested.\<close>

definition good_presentation :: "('p, 'c) machine \<Rightarrow> world \<Rightarrow> 'c \<Rightarrow> 'c \<Rightarrow> bytes \<Rightarrow> bool" where
  "good_presentation m w c c' x =
     (\<not> is_telemetry_frame x \<and> \<not> is_backend_proxy_frame x \<and> \<not> starts_with x ZONE_SYNC_MAGIC \<and>
      is_attestation_presentation (w_core w) x \<and>
      (case process (m_pipeline m) (w_now w) None (fresh_pipeline (m_pipeline m)) x of
         (Drop, q) \<Rightarrow> False
       | (Deliver msg fwd, q) \<Rightarrow> msg_zone msg = BROADCAST_ZONE \<and>
           (case decode_ascii (msg_payload msg) of
              None \<Rightarrow> False
            | Some token \<Rightarrow> fst (add_token (m_pipeline m) (w_now w) token c) \<noteq> None \<and>
                snd (add_token (m_pipeline m) (w_now w) token c) = c')))"

definition good_text :: "('p, 'c) machine \<Rightarrow> world \<Rightarrow> 'c \<Rightarrow> bytes \<Rightarrow> bytes \<Rightarrow> bool" where
  "good_text m w c x copy =
     (\<not> is_telemetry_frame x \<and> \<not> is_backend_proxy_frame x \<and> \<not> starts_with x ZONE_SYNC_MAGIC \<and>
      \<not> is_attestation_presentation (w_core w) x \<and>
      (case process (m_pipeline m) (w_now w) (Some c) (fresh_pipeline (m_pipeline m)) x of
         (Drop, q) \<Rightarrow> False
       | (Deliver msg fwd, q) \<Rightarrow> msg_zone msg = BROADCAST_ZONE \<and> relayed_copy x fwd = Inr copy) \<and>
      copy ! 68 \<noteq> 0 \<and> 72 < length copy \<and> copy ! 72 = MSG_TYPE_TEXT)"

lemma demo_presented:
  assumes "good_presentation m w c c' x" and "r_attestation (d_relay n) = Some c"
    and "r_presentation (d_relay n) = fresh_pipeline (m_pipeline m)"
    and "broadcast_to_all_nodes (w_net w) (r_backhaul (d_relay n)) x = (ds, None)"
  obtains s where "demo_handle (m_pipeline m) w p x n = ((map ToNode ds, None), n\<lparr>d_relay := s\<rparr>)"
    and "r_attestation s = Some c'" and "r_pipeline s = r_pipeline (d_relay n)" and "r_backhaul s = r_backhaul (d_relay n)"
proof -
  obtain msg fwd q token key where pr: "process (m_pipeline m) (w_now w) None (fresh_pipeline (m_pipeline m)) x = (Deliver msg fwd, q)"
    "msg_zone msg = BROADCAST_ZONE" "decode_ascii (msg_payload msg) = Some token"
    "add_token (m_pipeline m) (w_now w) token c = (Some key, c')"
    using assms(1) by (fastforce simp: good_presentation_def prod_eq_iff split: prod.splits outcome.splits option.splits)
  let ?n = "snd (demo_handle (m_pipeline m) w p x n)"
  have "fst (demo_handle (m_pipeline m) w p x n) = (map ToNode ds, None) \<and> ?n = n\<lparr>d_relay := d_relay ?n\<rparr> \<and>
      r_attestation (d_relay ?n) = Some c' \<and> r_pipeline (d_relay ?n) = r_pipeline (d_relay n) \<and>
      r_backhaul (d_relay ?n) = r_backhaul (d_relay n)"
    using assms pr by (simp add: good_presentation_def demo_handle_def handle_presentation_def Let_def)
  then show thesis by (intro that [of "d_relay ?n"]) (auto simp: prod_eq_iff)
qed

lemma demo_texted:
  assumes "good_text m w c x copy" and "r_attestation (d_relay n) = Some c"
    and "r_pipeline (d_relay n) = fresh_pipeline (m_pipeline m)"
    and "broadcast_to_all_nodes (w_net w) (r_backhaul (d_relay n)) x = (ds, None)"
    and "d_received n = phones_init ps" and "distinct ps"
  shows "fst (demo_handle (m_pipeline m) w p x n) = (map ToNode ds, None)"
    and "map_of (d_received (snd (demo_handle (m_pipeline m) w p x n))) q =
      (if q \<in> set ps then Some (if q = p then [] else [copy]) else None)"
proof -
  obtain msg fwd s where pr: "process (m_pipeline m) (w_now w) (Some c) (fresh_pipeline (m_pipeline m)) x = (Deliver msg fwd, s)"
    and g: "msg_zone msg = BROADCAST_ZONE" "relayed_copy x fwd = Inr copy"
    using assms(1) by (auto simp: good_text_def split: prod.splits outcome.splits)
  have keys: "set (map fst (phones_init ps)) \<subseteq> dom (map_of (phones_init ps))" by (auto simp: dom_map_of_conv_image_fst)
  have dist: "distinct (map fst (phones_init ps))" using wf_phones_init by simp
  note f = phone_fan_out_copies [OF keys dist, of p copy]
  obtain r where r: "phone_fan_out p copy (map fst (phones_init ps)) (phones_init ps) = (None, r)"
    and m: "\<And>q. map_of r q = (if q \<in> set (map fst (phones_init ps)) \<and> q \<noteq> p then map_option (\<lambda>xs. xs @ [copy]) (map_of (phones_init ps) q)
      else map_of (phones_init ps) q)"
    using f by (cases "phone_fan_out p copy (map fst (phones_init ps)) (phones_init ps)") auto
  have known: "q \<in> set (map fst (phones_init ps)) \<longleftrightarrow> q \<in> set ps" for q
    using map_of_phones_init [of ps q] by (metis domIff dom_map_of_conv_image_fst list.set_map option.distinct(1))
  have h: "demo_handle (m_pipeline m) w p x n = ((map ToNode ds, None),
      n\<lparr>d_received := r, d_relay := d_relay (snd (demo_handle (m_pipeline m) w p x n))\<rparr>)"
    using assms(1-5) pr g r
    by (simp add: good_text_def demo_handle_def demo_onward_def Let_def cross_node_def demo_local_cell_def TTL_OFFSET_def SPRAY_OFFSET_def
        phone_list_peers_def)
  show "fst (demo_handle (m_pipeline m) w p x n) = (map ToNode ds, None)" by (subst h) simp
  have "d_received (snd (demo_handle (m_pipeline m) w p x n)) = r" by (subst h) simp
  then show "map_of (d_received (snd (demo_handle (m_pipeline m) w p x n))) q =
      (if q \<in> set ps then Some (if q = p then [] else [copy]) else None)"
    using m [of q] known [of q] by (simp add: map_of_phones_init)
qed
section \<open>Properties\<close>


text \<open>A pipeline that wants an attested sender, and two packets for it.\<close>

definition demo_text :: bytes where
  "demo_text = replicate 72 2 @ [1, 0, 2, 104, 105]"

definition demo_world :: world where
  "demo_world = sample_world\<lparr>w_core := sample_core\<lparr>parse_packet := (\<lambda>x. if x = [6] then Some (sample_query\<lparr>msg_type := 6\<rparr>) else None)\<rparr>\<rparr>"

definition demo_machine :: "(unit, bool) machine" where
  "demo_machine = \<lparr>m_pipeline =
       \<lparr>process = (\<lambda>now c p x. if c = Some False then (Drop, p) else (Deliver (sample_query\<lparr>msg_zone := 65535, msg_payload := []\<rparr>) None, p)),
        add_token = (\<lambda>now t c. (Some [], True)), fresh_pipeline = ()\<rparr>,
     m_new_cache = (\<lambda>k e. False), m_max_packet = 460, m_uplink = (\<lambda>_. NoResponse), m_frepr = (\<lambda>_. []), m_rp = (\<lambda>_. [])\<rparr>"


text \<open>The demonstration as it stands never gets that far: whatever the backend answers, \<open>main\<close> raises, at
  the latest on the construction of the heartbeat, which lacks the required \<open>zone_name\<close>; no packet of any
  phone is sent, and the second process is killed.\<close>

theorem demo_never_presents:
  "snd (demo_main m udp_port bind_fault base_url fetched disk_fault alive) \<noteq> None \<and>
   fst (demo_main m udp_port bind_fault base_url fetched disk_fault True) =
     [SpawnNode2, AskKey (url_request (organiser_key_url base_url)), KillNode2] \<and>
   (demo_start_node m udp_port bind_fault 1 fetched disk_fault [lit ''phoneA'', lit ''phoneB''] = Inr n \<longrightarrow>
     snd (demo_main m udp_port bind_fault base_url fetched disk_fault alive) = Some TypeError)"
proof -
  have "lit ''zone_name'' \<notin> set demo_heartbeat_args" by (simp add: demo_heartbeat_args_def)
  then have "call_fault heartbeat_required heartbeat_optional demo_heartbeat_args = Some TypeError"
    by (auto simp: call_fault_def heartbeat_required_def)
  then show ?thesis by (auto simp: demo_main_def Let_def split: sum.splits)
qed
end
