(* ===== verification/SendThreads.thy ===== *)
theory SendThreads
  imports GattServers Transports
begin

text \<open>
  Several threads sending at once. \<open>send_packet\<close> (\<open>ble/base.py\<close>) hands out the chunks of a packet one by
  one and takes no lock, and its callers run on different threads: the radio's loop, the backhaul's
  receiver, the phone-ping timers, the proxy's workers. Here each thread is its packets to send and the
  chunks left of the call it is in, and a schedule says whose turn it is.
\<close>

section \<open>Threads\<close>

record sender =
  calling :: "bytes list"
  todo :: "bytes list"

text \<open>A turn: the next chunk of the call under way, or the beginning of the next call.\<close>

definition send_turn :: "(bytes \<Rightarrow> bytes list) \<Rightarrow> sender \<Rightarrow> bytes list \<times> sender" where
  "send_turn chop s =
     (case calling s of
        c # cs \<Rightarrow> ([c], s\<lparr>calling := cs\<rparr>)
      | [] \<Rightarrow> (case todo s of
          [] \<Rightarrow> ([], s)
        | x # xs \<Rightarrow> ([], \<lparr>calling = chop x, todo = xs\<rparr>)))"

text \<open>A run logs what was handed out, and by which thread.\<close>

fun senders_run :: "(bytes \<Rightarrow> bytes list) \<Rightarrow> nat list \<Rightarrow> sender list \<Rightarrow> (nat \<times> bytes) list \<times> sender list" where
  "senders_run chop [] ss = ([], ss)"
| "senders_run chop (i # is) ss =
     (if i < length ss
      then (case send_turn chop (ss ! i) of
          (out, s) \<Rightarrow> (case senders_run chop is (ss[i := s]) of (trace, ss') \<Rightarrow> (map (Pair i) out @ trace, ss')))
      else senders_run chop is ss)"

definition about_to :: "bytes list \<Rightarrow> sender" where
  "about_to xs = \<lparr>calling = [], todo = xs\<rparr>"

definition all_sent :: "sender list \<Rightarrow> bool" where
  "all_sent ss = list_all (\<lambda>s. calling s = [] \<and> todo s = []) ss"

abbreviation heard :: "(nat \<times> bytes) list \<Rightarrow> bytes list" where
  "heard trace \<equiv> map snd trace"

definition from_thread :: "nat \<Rightarrow> (nat \<times> 'a) list \<Rightarrow> 'a list" where
  "from_thread i trace = map snd (filter (\<lambda>(j, x). j = i) trace)"

section \<open>Lemmas\<close>

lemma from_thread_simps [simp]:
  "from_thread i [] = []"
  "from_thread i ((j, x) # trace) = (if j = i then x # from_thread i trace else from_thread i trace)"
  "from_thread i (trace @ trace') = from_thread i trace @ from_thread i trace'"
  "from_thread i (map (Pair j) xs) = (if j = i then xs else [])"
  by (simp_all add: from_thread_def filter_map comp_def)

text \<open>What a thread still has to hand out, in order.\<close>

definition owed :: "(bytes \<Rightarrow> bytes list) \<Rightarrow> sender \<Rightarrow> bytes list" where
  "owed chop s = calling s @ concat (map chop (todo s))"

lemma send_turn_owed: "send_turn chop s = (out, s') \<Longrightarrow> out @ owed chop s' = owed chop s"
  by (auto simp: send_turn_def owed_def split: list.splits)

text \<open>Whatever the schedule, each thread's chunks come in its own order, none lost or repeated.\<close>

lemma senders_run_length [simp]: "length (snd (senders_run chop is ss)) = length ss"
  by (induction "is" arbitrary: ss) (auto split: prod.splits simp: prod_eq_iff)

lemma senders_run_owed:
  assumes "i < length ss"
  shows "from_thread i (fst (senders_run chop is ss)) @ owed chop (snd (senders_run chop is ss) ! i) = owed chop (ss ! i)"
  using assms
proof (induction "is" arbitrary: ss)
  case (Cons j js)
  show ?case
  proof (cases "j < length ss")
    case True
    obtain out s where t: "send_turn chop (ss ! j) = (out, s)" by (metis prod.exhaust)
    have "owed chop (ss[j := s] ! i) = (if i = j then owed chop s else owed chop (ss ! i))"
      using Cons.prems by simp
    with Cons.IH [of "ss[j := s]"] Cons.prems True t send_turn_owed [OF t] show ?thesis
      by (auto simp: case_prod_beta)
  qed (use Cons in simp)
qed simp

lemma senders_run_known: "(i, c) \<in> set (fst (senders_run chop is ss)) \<Longrightarrow> i < length ss"
proof (induction "is" arbitrary: ss)
  case (Cons j js)
  then show ?case
    using Cons.IH [of "ss[j := snd (send_turn chop (ss ! j))]"] by (cases "j < length ss") (auto simp: case_prod_beta)
qed simp

lemma all_sent_owed: "all_sent ss \<Longrightarrow> i < length ss \<Longrightarrow> owed chop (ss ! i) = []"
  by (simp add: all_sent_def owed_def list_all_length)

lemma drained_trace:
  assumes "all_sent (snd (senders_run chop is ss))" and "i < length ss"
  shows "from_thread i (fst (senders_run chop is ss)) = owed chop (ss ! i)"
  using senders_run_owed [OF assms(2), of chop "is"] all_sent_owed [OF assms(1), of i chop] assms(2) by simp

text \<open>A trace whose entries are the images of what each thread sends is the image of an interleaving.\<close>

lemma from_thread_map:
  assumes "\<And>i. from_thread i trace = map f (g i)"
  shows "\<exists>sent. trace = map (\<lambda>(i, x). (i, f x)) sent \<and> (\<forall>i. from_thread i sent = g i)"
  using assms
proof (induction trace arbitrary: g)
  case Nil
  then show ?case by auto
next
  case (Cons e trace)
  obtain j c where e: "e = (j, c)" by (metis prod.exhaust)
  obtain x xs where g: "g j = x # xs" "c = f x" using Cons.prems [of j] by (cases "g j") (simp_all add: e)
  have "from_thread i trace = map f ((g(j := xs)) i)" for i
    using Cons.prems [of i] by (cases "i = j") (simp_all add: e g)
  from Cons.IH [OF this] obtain sent where s: "trace = map (\<lambda>(i, x). (i, f x)) sent" "\<And>i. from_thread i sent = (g(j := xs)) i"
    by blast
  have "from_thread i ((j, x) # sent) = g i" for i using s(2) [of i] g by auto
  then show ?case using s(1) by (intro exI [of _ "(j, x) # sent"]) (simp add: e g)
qed

text \<open>What the senders rely on: the chunks of a packet make up its frame.\<close>

locale framed_sender =
  fixes chop :: "bytes \<Rightarrow> bytes list"
  assumes concat_chop: "fits x \<Longrightarrow> concat (chop x) = frame_of x"
begin

lemma undivided_sends:
  assumes "\<forall>s\<in>set ss. calling s = [] \<and> (\<forall>x\<in>set (todo s). fits x \<and> length (chop x) = 1)"
    and "all_sent (snd (senders_run chop is ss))"
  shows "\<exists>sent. feeds feed [] (heard (fst (senders_run chop is ss))) = (Inr (map snd sent), []) \<and>
    (\<forall>i<length ss. from_thread i sent = todo (ss ! i))"
proof -
  let ?trace = "fst (senders_run chop is ss)" and ?g = "\<lambda>i. if i < length ss then todo (ss ! i) else []"
  have one: "chop x = [frame_of x]" if "fits x" "length (chop x) = 1" for x
    using concat_chop [OF that(1)] that(2) by (auto simp: length_Suc_conv)
  have whole: "concat (map chop xs) = map frame_of xs" if "\<forall>x\<in>set xs. fits x \<and> length (chop x) = 1" for xs
    using that by (induction xs) (simp_all add: one)
  have "from_thread i ?trace = map frame_of (?g i)" for i
  proof (cases "i < length ss")
    case True
    have t: "calling (ss ! i) = []" "\<forall>x\<in>set (todo (ss ! i)). fits x \<and> length (chop x) = 1"
      using assms(1) True by (auto dest: nth_mem)
    then show ?thesis using drained_trace [OF assms(2) True] whole [OF t(2)] True by (simp add: owed_def)
  next
    case False
    then show ?thesis using senders_run_known [of i _ chop "is" ss] by (auto simp: from_thread_def filter_empty_conv)
  qed
  from from_thread_map [OF this] obtain sent where
    s: "?trace = map (\<lambda>(i, x). (i, frame_of x)) sent" "\<And>i. from_thread i sent = ?g i" by blast
  have fit: "fits x" if "(i, x) \<in> set sent" for i x
  proof -
    have "x \<in> set (from_thread i sent)" using that by (force simp: from_thread_def)
    then show ?thesis using s(2) [of i] assms(1) by (auto split: if_splits)
  qed
  have "heard ?trace = map frame_of (map snd sent)" by (simp add: s(1) comp_def case_prod_beta)
  then have "feeds feed [] (heard ?trace) = (Inr (map snd sent), [])"
    using fit by (intro asm.feeds_encoded) auto
  then show ?thesis using s(2) by auto
qed

end

text \<open>Both radios: \<open>chunk\<close> on Bluetooth, and one write of the whole frame on a socket whose buffer takes it.\<close>

definition socket_pieces :: "bytes \<Rightarrow> bytes list" where
  "socket_pieces x = (case frame x of Inl e \<Rightarrow> [] | Inr f \<Rightarrow> [f])"

interpretation ble_out: framed_sender pieces
  by unfold_locales (rule pieces_frame)

interpretation wifi_out: framed_sender socket_pieces
  by unfold_locales (simp add: socket_pieces_def frame_fits)

lemma socket_pieces_fits [simp]: "fits x \<Longrightarrow> socket_pieces x = [frame_of x]"
  by (simp add: socket_pieces_def frame_fits)

lemma pieces_eq:
  assumes "fits x"
  shows "pieces x = map (\<lambda>k. take 180 (drop (k * 180) (frame_of x))) [0..<(length x + 181) div 180]"
  using assms by (simp add: pieces_def pieces_of_def frame_fits chunk_def range_step_def BLE_NOTIFY_CHUNK_def comp_def add.commute)

lemma pieces_short: "length x \<le> 178 \<Longrightarrow> length (pieces x) = 1"
proof -
  assume "length x \<le> 178"
  then have "(length x + 181) div 180 = 1" "fits x" by (simp_all add: fits_def MAX_FRAME_def div_nat_eqI)
  then show ?thesis by (simp add: pieces_eq)
qed

lemma pieces_long:
  assumes "fits x" and "178 < length x"
  obtains cs where "pieces x = take 180 (frame_of x) # cs" and "concat cs = drop 180 (frame_of x)"
proof -
  have "length x + 181 = (length x + 1) + 180" by simp
  then have n: "(length x + 181) div 180 = Suc ((length x + 1) div 180)" by (simp only: div_add_self2)
  have p: "pieces x = take 180 (frame_of x) # map (\<lambda>k. take 180 (drop (k * 180) (frame_of x))) [Suc 0..<Suc ((length x + 1) div 180)]"
    (is "_ = _ # ?cs") unfolding pieces_eq [OF assms(1)] n by (subst upt_conv_Cons) simp_all
  moreover have "take 180 (frame_of x) @ concat ?cs = frame_of x"
    using pieces_frame [OF assms(1)] by (simp add: p del: upt_Suc)
  then have "concat ?cs = drop 180 (frame_of x)"
    by (metis append_take_drop_id same_append_eq)
  ultimately show thesis by (rule that)
qed

text \<open>A thread left to itself works off what it owes.\<close>

lemma run_append:
  "senders_run chop (is @ js) ss =
     (let (t, ss') = senders_run chop is ss; (t', ss'') = senders_run chop js ss' in (t @ t', ss''))"
  by (induction "is" arbitrary: ss) (simp_all add: case_prod_beta Let_def)

lemma run_calls:
  "i < length ss \<Longrightarrow> calling (ss ! i) = cs @ ds \<Longrightarrow>
   senders_run chop (replicate (length cs) i) ss = (map (Pair i) cs, ss[i := (ss ! i)\<lparr>calling := ds\<rparr>])"
proof (induction cs arbitrary: ss)
  case Nil
  then show ?case by (metis append_Nil length_0_conv list.map_disc_iff list_update_id replicate_0 senders_run.simps(1) sender.surjective sender.update_convs(1))
next
  case (Cons c cs)
  then show ?case by (simp add: send_turn_def)
qed

lemma run_call:
  assumes "i < length ss" and "ss ! i = about_to [x]"
  shows "senders_run chop (replicate (Suc (length (chop x))) i) ss = (map (Pair i) (chop x), ss[i := about_to []])"
proof -
  have "senders_run chop (replicate (length (chop x)) i) (ss[i := \<lparr>calling = chop x, todo = []\<rparr>]) =
      (map (Pair i) (chop x), ss[i := about_to []])"
    using run_calls [of i "ss[i := \<lparr>calling = chop x, todo = []\<rparr>]" "chop x" "[]"] assms(1) by (simp add: about_to_def)
  then show ?thesis using assms by (simp add: send_turn_def about_to_def)
qed

section \<open>Properties\<close>

text \<open>C13. Short packets survive any schedule: when every thread sends packets that fill one notification at
  most (178 bytes and the length), then however their calls overlap a phone's assembler gets, without an
  error and without a rest, an interleaving of what the threads sent, each thread's packets in its order.\<close>

theorem short_sends_survive:
  assumes "\<forall>s\<in>set ss. calling s = [] \<and> (\<forall>x\<in>set (todo s). length x \<le> 178)"
    and "all_sent (snd (senders_run pieces is ss))"
  shows "\<exists>sent. feeds feed [] (heard (fst (senders_run pieces is ss))) = (Inr (map snd sent), []) \<and>
    (\<forall>i<length ss. from_thread i sent = todo (ss ! i))"
  by (rule ble_out.undivided_sends [OF _ assms(2)]) (use assms(1) pieces_short in \<open>force simp: fits_def MAX_FRAME_def\<close>)

theorem short_sends_survive_witness:
  "\<exists>sent. feeds feed [] (heard (fst (senders_run pieces [0, 1, 1, 0] [about_to [[7]], about_to [[8, 9]]]))) = (Inr (map snd sent), []) \<and>
    (\<forall>i<2. from_thread i sent = [[[7]], [[8, 9]]] ! i)"
proof -
  let ?ss = "[about_to [[7]], about_to [[8, 9]]]"
  have p: "pieces [7] = [[0, 1, 7]]" "pieces [8, 9] = [[0, 2, 8, 9]]"
    by (simp_all add: pieces_eq fits_def MAX_FRAME_def frame_of_def)
  have "all_sent (snd (senders_run pieces [0, 1, 1, 0] ?ss))"
    by (simp add: send_turn_def about_to_def p all_sent_def)
  from short_sends_survive [OF _ this]
  obtain sent where s: "feeds feed [] (heard (fst (senders_run pieces [0, 1, 1, 0] ?ss))) = (Inr (map snd sent), [])"
    "\<forall>i<length ?ss. from_thread i sent = todo (?ss ! i)" by (auto simp: about_to_def)
  have "from_thread i sent = [[[7]], [[8, 9]]] ! i" if "i < 2" for i
  proof -
    have "i = 0 \<or> i = 1" using that by auto
    then show ?thesis using s(2) by (auto simp: about_to_def)
  qed
  with s(1) show ?thesis by blast
qed

text \<open>The same holds for every packet on a socket that takes each frame in one write.\<close>

theorem socket_sends_survive:
  assumes "\<forall>s\<in>set ss. calling s = [] \<and> (\<forall>x\<in>set (todo s). length x \<le> MAX_FRAME)"
    and "all_sent (snd (senders_run socket_pieces is ss))"
  shows "\<exists>sent. feeds feed [] (heard (fst (senders_run socket_pieces is ss))) = (Inr (map snd sent), []) \<and>
    (\<forall>i<length ss. from_thread i sent = todo (ss ! i))"
  by (rule wifi_out.undivided_sends [OF _ assms(2)]) (use assms(1) in \<open>auto simp: fits_def\<close>)

text \<open>C14. Longer packets do not: because \<open>send_packet\<close> takes no lock, for a packet of more than one
  notification and another packet sent by another thread there is a schedule, with both calls run to
  their end, after which a phone's assembler has an error or has got a packet that nobody sent. The two
  conditions only rule out that the bytes happen to agree: the byte at the cut with the length byte of the
  other packet, and the first 178 bytes of the two packets.\<close>

theorem overlapping_sends_garble:
  assumes "178 < length x" and "length x \<le> MAX_FRAME" and "length y \<le> MAX_FRAME"
    and "x ! 178 \<noteq> of_nat (length y div 256)" and "take 178 x \<noteq> take 178 y"
  shows "\<exists>sched. case senders_run pieces sched [about_to [x], about_to [y]] of (trace, ss) \<Rightarrow>
    all_sent ss \<and> from_thread 0 trace = pieces x \<and> from_thread 1 trace = pieces y \<and>
    (case fst (feeds feed [] (heard trace)) of Inl e \<Rightarrow> True | Inr ps \<Rightarrow> ps \<noteq> [] \<and> hd ps \<notin> {x, y})"
proof -
  have fit: "fits x" "fits y" using assms(2,3) by (simp_all add: fits_def)
  obtain cs where p: "pieces x = take 180 (frame_of x) # cs" and c: "concat cs = drop 180 (frame_of x)"
    using pieces_long [OF fit(1) assms(1)] by blast
  let ?ss = "[about_to [x], about_to [y]]"
  let ?sched = "[0, 0] @ replicate (Suc (length (pieces y))) 1 @ replicate (length cs) 0"
  let ?trace = "(0, take 180 (frame_of x)) # map (Pair 1) (pieces y) @ map (Pair 0) cs"
  have "senders_run pieces [0, 0] ?ss = ([(0, take 180 (frame_of x))], [\<lparr>calling = cs, todo = []\<rparr>, about_to [y]])"
    by (simp add: send_turn_def about_to_def p)
  moreover have "senders_run pieces (replicate (Suc (length (pieces y))) 1) [\<lparr>calling = cs, todo = []\<rparr>, about_to [y]] =
      (map (Pair 1) (pieces y), [\<lparr>calling = cs, todo = []\<rparr>, about_to []])"
    using run_call [of 1 "[\<lparr>calling = cs, todo = []\<rparr>, about_to [y]]" y pieces] by simp
  moreover have "senders_run pieces (replicate (length cs) 0) [\<lparr>calling = cs, todo = []\<rparr>, about_to []] =
      (map (Pair 0) cs, [about_to [], about_to []])"
    using run_calls [of 0 "[\<lparr>calling = cs, todo = []\<rparr>, about_to []]" cs "[]" pieces] by (simp add: about_to_def)
  ultimately have run: "senders_run pieces ?sched ?ss = (?trace, [about_to [], about_to []])"
    by (simp add: run_append Let_def del: replicate_Suc senders_run.simps append_Cons)
  let ?rest = "frame_of y @ drop 178 x"
  let ?z = "take (length x) (take 178 x @ ?rest)"
  have z: "length ?z = length x" "take 178 ?z = take 178 x" using assms(1) by simp_all
  have "concat (heard ?trace) = take 180 (frame_of x) @ frame_of y @ drop 180 (frame_of x)"
    using c pieces_frame [OF fit(2)] by (simp add: comp_def)
  also have "\<dots> = frame_of ?z @ drop (length x) (take 178 x @ ?rest)"
  proof -
    have "frame_of ?z @ drop (length x) (take 178 x @ ?rest) =
        of_nat (length x div 256) # of_nat (length x mod 256) # take 178 x @ ?rest"
      unfolding frame_of_def [of ?z] z(1) by (simp only: append_Cons append_take_drop_id)
    moreover have "take 180 (frame_of x) = of_nat (length x div 256) # of_nat (length x mod 256) # take 178 x"
      "drop 180 (frame_of x) = drop 178 x" by (simp_all add: frame_of_def take_Cons' drop_Cons')
    ultimately show ?thesis by simp
  qed
  finally have "feeds feed [] (heard ?trace) = assemble [?z] (drop (length x) (take 178 x @ ?rest))"
    using z(1) fit(1) asm.feeds_concat [of "[]" "heard ?trace"] by (simp add: feed_def assemble_frame fits_def del: take_append)
  then have heard: "case fst (feeds feed [] (heard ?trace)) of Inl e \<Rightarrow> True | Inr ps \<Rightarrow> ps \<noteq> [] \<and> hd ps = ?z"
    by (subst (asm) assemble_acc) (simp split: prod.split sum.split)
  have "?z ! 178 = of_nat (length y div 256)" using assms(1) by (simp add: nth_append frame_of_def)
  then have "?z \<noteq> x" using assms(4) by metis
  moreover have "?z \<noteq> y" using z(2) assms(5) by metis
  ultimately have "case fst (feeds feed [] (heard ?trace)) of Inl e \<Rightarrow> True | Inr ps \<Rightarrow> ps \<noteq> [] \<and> hd ps \<notin> {x, y}"
    using heard by (auto split: sum.splits)
  moreover have "all_sent [about_to [], about_to []]" by (simp add: all_sent_def about_to_def)
  ultimately show ?thesis using run p by (intro exI [of _ ?sched]) simp
qed

theorem overlapping_sends_garble_witness:
  "\<exists>sched. case senders_run pieces sched [about_to [replicate 200 7], about_to [[8]]] of (trace, ss) \<Rightarrow>
    all_sent ss \<and> from_thread 0 trace = pieces (replicate 200 7) \<and> from_thread 1 trace = pieces [8] \<and>
    (case fst (feeds feed [] (heard trace)) of Inl e \<Rightarrow> True | Inr ps \<Rightarrow> ps \<noteq> [] \<and> hd ps \<notin> {replicate 200 7, [8]})"
  by (rule overlapping_sends_garble) (auto simp: MAX_FRAME_def dest: arg_cong [where f = length])
end
