(* ===== verification/AuthzThreads.thy ===== *)
theory AuthzThreads
  imports LocationAuthz
begin

text \<open>
  \<open>node/location/authz.py\<close> with several threads in it: queries arrive on the radio's loop, on the reader of
  each WiFi phone and on the backhaul's receiver, while beacons, revocations and directory syncs go on.
  \<open>handle_query\<close> is cut where it touches what other threads write: the directory, the revocation set, the
  rate limit under the lock, the store, the directory again. Each cut is one step; the steps of all threads
  come in any order.
\<close>

section \<open>A call in steps\<close>

record shared =
  sh_authz :: authz
  sh_directory :: directory
  sh_store :: location_store

text \<open>Where a call is, with the local variables it still needs: the message, the raw token, the token, the
  requester, the target's key, the clock reading, the row.\<close>

datatype query_at =
    Asked message
  | Named message bytes cap_token bytes
  | Found message bytes cap_token bytes bytes
  | Verified cap_token bytes bytes real
  | Unrevoked cap_token bytes bytes real
  | Admitted cap_token bytes bytes
  | Located cap_token bytes location_row
  | Answered "exn + bytes option"

abbreviation refused :: query_at where
  "refused \<equiv> Answered (Inr None)"

fun query_step :: "core \<Rightarrow> real \<Rightarrow> shared \<Rightarrow> query_at \<Rightarrow> query_at \<times> shared" where
  "query_step c t sh (Asked msg) =
     (case decode_location_query c (msg_payload msg) of
        None \<Rightarrow> (refused, sh)
      | Some raw \<Rightarrow> (case parse_capability_token c raw of
          None \<Rightarrow> (refused, sh)
        | Some token \<Rightarrow> (case pubkey_id c (sender_key msg) of
            Inl e \<Rightarrow> (Answered (Inl e), sh)
          | Inr r \<Rightarrow> (if grantee_id token \<noteq> r then refused else Named msg raw token r, sh))))"
| "query_step c t sh (Named msg raw token r) =
     (case by_ed25519_id (sh_directory sh) (issuer_id token) of
        None \<Rightarrow> (refused, sh)
      | Some target \<Rightarrow> (case row_key target ''ed25519_pub'' of
          Inl e \<Rightarrow> (Answered (Inl e), sh)
        | Inr k \<Rightarrow> (Found msg raw token r k, sh)))"
| "query_step c t sh (Found msg raw token r k) =
     (if verify_capability_token c raw k (sender_key msg) (py_trunc t) then Verified token r k t else refused, sh)"
| "query_step c t sh (Verified token r k now) =
     (if revocation_key c token \<in> revoked (sh_authz sh) then refused else Unrevoked token r k now, sh)"
| "query_step c t sh (Unrevoked token r k now) =
     (let a = sh_authz sh; pair = (r, issuer_id token)
      in if now - last_time a pair < min_interval_s a then (refused, sh)
         else (Admitted token r k, sh\<lparr>sh_authz := a\<lparr>last_query := AList.update pair now (last_query a)\<rparr>\<rparr>))"
| "query_step c t sh (Admitted token r k) =
     (case store_get k (sh_store sh) of None \<Rightarrow> (refused, sh) | Some row \<Rightarrow> (Located token r row, sh))"
| "query_step c t sh (Located token r row) = (Answered (answer_query c (sh_directory sh) t r token row), sh)"
| "query_step c t sh (Answered x) = (Answered x, sh)"

text \<open>What a step grants: the pair and the reading the rate limit let through.\<close>

fun granted :: "shared \<Rightarrow> query_at \<Rightarrow> ((bytes \<times> bytes) \<times> real) list" where
  "granted sh (Unrevoked token r k now) =
     (if now - last_time (sh_authz sh) (r, issuer_id token) < min_interval_s (sh_authz sh) then []
      else [((r, issuer_id token), now)])"
| "granted sh q = []"

section \<open>All threads\<close>

record arena =
  ar_shared :: shared
  ar_calls :: "query_at list"

text \<open>A query arrives, call \<open>i\<close> takes a step at a time, a revocation is handled (its only access to what is
  shared is one \<open>add\<close> under the lock), a beacon or a forget reaches the store, a sync replaces the
  directory.\<close>

datatype arena_event =
    Arrives message
  | Turn nat real
  | Revokes message
  | Stores store_event
  | Syncs directory

fun arena_step :: "core \<Rightarrow> arena_event \<Rightarrow> arena \<Rightarrow> ((bytes \<times> bytes) \<times> real) list \<times> arena" where
  "arena_step c (Arrives msg) s = ([], s\<lparr>ar_calls := ar_calls s @ [Asked msg]\<rparr>)"
| "arena_step c (Turn i t) s =
     (if i < length (ar_calls s)
      then (case query_step c t (ar_shared s) (ar_calls s ! i) of
          (q, sh) \<Rightarrow> (granted (ar_shared s) (ar_calls s ! i), s\<lparr>ar_shared := sh, ar_calls := (ar_calls s)[i := q]\<rparr>))
      else ([], s))"
| "arena_step c (Revokes msg) s =
     ([], s\<lparr>ar_shared := (ar_shared s)\<lparr>sh_authz := snd (handle_revoke c msg (sh_authz (ar_shared s)))\<rparr>\<rparr>)"
| "arena_step c (Stores e) s = ([], s\<lparr>ar_shared := (ar_shared s)\<lparr>sh_store := store_step e (sh_store (ar_shared s))\<rparr>\<rparr>)"
| "arena_step c (Syncs d) s = ([], s\<lparr>ar_shared := (ar_shared s)\<lparr>sh_directory := d\<rparr>\<rparr>)"

fun arena_run :: "core \<Rightarrow> arena_event list \<Rightarrow> arena \<Rightarrow> ((bytes \<times> bytes) \<times> real) list \<times> arena" where
  "arena_run c [] s = ([], s)"
| "arena_run c (e # es) s =
     (case arena_step c e s of (out, s') \<Rightarrow> (case arena_run c es s' of (out', s'') \<Rightarrow> (out @ out', s'')))"

text \<open>The shared states a run goes through, the first and the last included.\<close>

fun moments :: "core \<Rightarrow> arena_event list \<Rightarrow> arena \<Rightarrow> shared list" where
  "moments c [] s = [ar_shared s]"
| "moments c (e # es) s = ar_shared s # moments c es (snd (arena_step c e s))"

section \<open>Lemmas\<close>

lemma query_step_shared:
  "sh_directory (snd (query_step c t sh q)) = sh_directory sh \<and> sh_store (snd (query_step c t sh q)) = sh_store sh \<and>
   revoked (sh_authz (snd (query_step c t sh q))) = revoked (sh_authz sh) \<and>
   min_interval_s (sh_authz (snd (query_step c t sh q))) = min_interval_s (sh_authz sh)"
  by (cases q) (simp_all add: Let_def split: option.split sum.split)

lemma handle_revoke_keeps:
  "min_interval_s (snd (handle_revoke c msg a)) = min_interval_s a \<and>
   last_time (snd (handle_revoke c msg a)) p = last_time a p \<and> revoked a \<subseteq> revoked (snd (handle_revoke c msg a))"
  by (auto simp: handle_revoke_def last_time_def split: option.split sum.split)

lemma arena_step_keeps:
  "revoked (sh_authz (ar_shared s)) \<subseteq> revoked (sh_authz (ar_shared (snd (arena_step c e s))))"
  "min_interval_s (sh_authz (ar_shared (snd (arena_step c e s)))) = min_interval_s (sh_authz (ar_shared s))"
  "length (ar_calls s) \<le> length (ar_calls (snd (arena_step c e s)))"
  using query_step_shared handle_revoke_keeps by (cases e; simp add: case_prod_beta)+

text \<open>A call moves by its own step only.\<close>

lemma arena_step_call:
  assumes "i < length (ar_calls s)"
  shows "ar_calls (snd (arena_step c e s)) ! i = ar_calls s ! i \<or>
    (\<exists>t. ar_calls (snd (arena_step c e s)) ! i = fst (query_step c t (ar_shared s) (ar_calls s ! i)))"
  using assms by (cases e) (auto simp: case_prod_beta nth_list_update nth_append)

text \<open>A call nobody interrupts.\<close>

fun alone :: "core \<Rightarrow> real list \<Rightarrow> query_at \<Rightarrow> shared \<Rightarrow> query_at \<times> shared" where
  "alone c [] q sh = (q, sh)"
| "alone c (t # ts) q sh = (case query_step c t sh q of (q', sh') \<Rightarrow> alone c ts q' sh')"

lemma alone_answered [simp]: "alone c ts (Answered x) sh = (Answered x, sh)"
  by (induction ts) simp_all

lemma alone_admitted:
  "alone c [t, t'] (Admitted token r k) sh =
     (Answered (case store_get k (sh_store sh) of None \<Rightarrow> Inr None | Some row \<Rightarrow> answer_query c (sh_directory sh) t' r token row), sh)"
  by (simp split: option.split)

lemma alone_unrevoked:
  "alone c [t, t', t''] (Unrevoked token r k now) sh =
     (let a = sh_authz sh; pair = (r, issuer_id token)
      in if now - last_time a pair < min_interval_s a then (refused, sh)
         else (Answered (case store_get k (sh_store sh) of None \<Rightarrow> Inr None | Some row \<Rightarrow> answer_query c (sh_directory sh) t'' r token row),
               sh\<lparr>sh_authz := a\<lparr>last_query := AList.update pair now (last_query a)\<rparr>\<rparr>))"
  by (simp add: Let_def split: option.split)

lemma alone_admission:
  "alone c [t1, t2, now, t4] (Asked msg) sh =
     (case admit_query c (sh_directory sh) now msg (sh_authz sh) of
        Inl e \<Rightarrow> (Answered (Inl e), sh)
      | Inr None \<Rightarrow> (refused, sh)
      | Inr (Some (r, token, k)) \<Rightarrow> (Unrevoked token r k now, sh))"
  by (simp add: admit_query_def split: option.split sum.split)

lemma alone_append: "alone c (ts @ us) q sh = (case alone c ts q sh of (q', sh') \<Rightarrow> alone c us q' sh')"
  by (induction ts arbitrary: q sh) (simp_all split: prod.split)

lemma alone_is_handle_query:
  "alone c [t1, t2, now, t4, t5, t6, snow] (Asked msg) sh =
     (case handle_query c (sh_directory sh) (sh_store sh) now snow msg (sh_authz sh) of
        (r, a) \<Rightarrow> (Answered r, sh\<lparr>sh_authz := a\<rparr>))"
proof -
  have "alone c [t1, t2, now, t4, t5, t6, snow] (Asked msg) sh =
      (case alone c [t1, t2, now, t4] (Asked msg) sh of (q, sh') \<Rightarrow> alone c [t5, t6, snow] q sh')"
    using alone_append [of c "[t1, t2, now, t4]" "[t5, t6, snow]"] by (simp only: append_Cons append_Nil)
  then show ?thesis
    by (auto simp: alone_admission alone_unrevoked handle_query_def Let_def
        simp del: alone.simps split: sum.split option.split)
qed

lemma turns_alone:
  assumes "i < length (ar_calls s)"
  shows "snd (arena_run c (map (Turn i) ts) s) =
    (case alone c ts (ar_calls s ! i) (ar_shared s) of (q, sh) \<Rightarrow> s\<lparr>ar_shared := sh, ar_calls := (ar_calls s)[i := q]\<rparr>)"
  using assms
proof (induction ts arbitrary: s)
  case (Cons t ts)
  obtain q sh where q: "query_step c t (ar_shared s) (ar_calls s ! i) = (q, sh)" by (metis prod.exhaust)
  show ?case
    using Cons.IH [of "s\<lparr>ar_shared := sh, ar_calls := (ar_calls s)[i := q]\<rparr>"] Cons.prems
    by (simp add: q case_prod_beta)
qed simp

lemma arena_run_append: "snd (arena_run c (es @ fs) s) = snd (arena_run c fs (snd (arena_run c es s)))"
  by (induction es arbitrary: s) (simp_all add: case_prod_beta)
section \<open>Whatever the schedule\<close>

definition query_token :: "core \<Rightarrow> message \<Rightarrow> cap_token option" where
  "query_token c msg = Option.bind (decode_location_query c (msg_payload msg)) (parse_capability_token c)"

text \<open>A call whose token is already revoked: it has not passed the check, or it has ended without an answer.\<close>

fun shut_out :: "core \<Rightarrow> rev_key \<Rightarrow> query_at \<Rightarrow> bool" where
  "shut_out c key (Asked msg) = (\<forall>token. query_token c msg = Some token \<longrightarrow> revocation_key c token = key)"
| "shut_out c key (Named msg raw token r) = (revocation_key c token = key)"
| "shut_out c key (Found msg raw token r k) = (revocation_key c token = key)"
| "shut_out c key (Verified token r k now) = (revocation_key c token = key)"
| "shut_out c key (Answered x) = (\<forall>p. x \<noteq> Inr (Some p))"
| "shut_out c key q = False"

lemma shut_out_step:
  "shut_out c key q \<Longrightarrow> key \<in> revoked (sh_authz sh) \<Longrightarrow> shut_out c key (fst (query_step c t sh q))"
  by (cases q) (auto simp: query_token_def split: option.split sum.split)

lemma shut_out_run:
  assumes "i < length (ar_calls s)" and "key \<in> revoked (sh_authz (ar_shared s))" and "shut_out c key (ar_calls s ! i)"
  shows "shut_out c key (ar_calls (snd (arena_run c es s)) ! i)"
  using assms
proof (induction es arbitrary: s)
  case (Cons e es)
  let ?s = "snd (arena_step c e s)"
  have "shut_out c key (ar_calls ?s ! i)"
    using arena_step_call [OF Cons.prems(1), of c e] shut_out_step [OF Cons.prems(3,2)] Cons.prems(3) by metis
  moreover have "i < length (ar_calls ?s)" "key \<in> revoked (sh_authz (ar_shared ?s))"
    using arena_step_keeps(1,3) [where s = s and c = c and e = e] Cons.prems(1,2) by (auto intro: less_le_trans)
  ultimately show ?case using Cons.IH [of ?s] by (simp add: case_prod_beta)
qed simp

text \<open>What a call that has come so far has shown, in one of the shared states \<open>H\<close> each.\<close>

definition named_by :: "core \<Rightarrow> message \<Rightarrow> bytes \<Rightarrow> cap_token \<Rightarrow> bytes \<Rightarrow> bool" where
  "named_by c msg raw token r = (decode_location_query c (msg_payload msg) = Some raw \<and>
     parse_capability_token c raw = Some token \<and> pubkey_id c (sender_key msg) = Inr r \<and> grantee_id token = r)"

definition known_key :: "shared set \<Rightarrow> cap_token \<Rightarrow> bytes \<Rightarrow> bool" where
  "known_key H token k = (\<exists>h\<in>H. \<exists>row. by_ed25519_id (sh_directory h) (issuer_id token) = Some row \<and>
     row_key row ''ed25519_pub'' = Inr k)"

definition cleared :: "core \<Rightarrow> shared set \<Rightarrow> message \<Rightarrow> cap_token \<Rightarrow> bytes \<Rightarrow> bytes \<Rightarrow> bool" where
  "cleared c H msg token r k = (\<exists>raw t. named_by c msg raw token r \<and> known_key H token k \<and>
     verify_capability_token c raw k (sender_key msg) (py_trunc t))"

definition unrevoked_once :: "core \<Rightarrow> shared set \<Rightarrow> cap_token \<Rightarrow> bool" where
  "unrevoked_once c H token = (\<exists>h\<in>H. revocation_key c token \<notin> revoked (sh_authz h))"

definition accounted :: "core \<Rightarrow> shared set \<Rightarrow> message \<Rightarrow> bytes \<Rightarrow> bool" where
  "accounted c H msg p = (\<exists>token r k row. cleared c H msg token r k \<and> unrevoked_once c H token \<and>
     (\<exists>h\<in>H. store_get k (sh_store h) = Some row) \<and>
     (\<exists>h\<in>H. \<exists>t. answer_query c (sh_directory h) t r token row = Inr (Some p)))"

fun justified :: "core \<Rightarrow> shared set \<Rightarrow> message \<Rightarrow> query_at \<Rightarrow> bool" where
  "justified c H msg (Asked m) = (m = msg)"
| "justified c H msg (Named m raw token r) = (m = msg \<and> named_by c msg raw token r)"
| "justified c H msg (Found m raw token r k) = (m = msg \<and> named_by c msg raw token r \<and> known_key H token k)"
| "justified c H msg (Verified token r k now) = cleared c H msg token r k"
| "justified c H msg (Unrevoked token r k now) = (cleared c H msg token r k \<and> unrevoked_once c H token)"
| "justified c H msg (Admitted token r k) = (cleared c H msg token r k \<and> unrevoked_once c H token)"
| "justified c H msg (Located token r row) =
     (\<exists>k. cleared c H msg token r k \<and> unrevoked_once c H token \<and> (\<exists>h\<in>H. store_get k (sh_store h) = Some row))"
| "justified c H msg (Answered x) =
     (\<forall>p. x = Inr (Some p) \<longrightarrow> accounted c H msg p)"

lemma cleared_mono: "H \<subseteq> K \<Longrightarrow> cleared c H msg token r k \<Longrightarrow> cleared c K msg token r k"
  unfolding cleared_def known_key_def by blast

lemma unrevoked_once_mono: "H \<subseteq> K \<Longrightarrow> unrevoked_once c H token \<Longrightarrow> unrevoked_once c K token"
  unfolding unrevoked_once_def by blast

lemma accountedI:
  "cleared c H msg token r k \<Longrightarrow> unrevoked_once c H token \<Longrightarrow> h \<in> H \<Longrightarrow> store_get k (sh_store h) = Some row \<Longrightarrow>
   h' \<in> H \<Longrightarrow> answer_query c (sh_directory h') t r token row = Inr (Some p) \<Longrightarrow> accounted c H msg p"
  unfolding accounted_def by blast

lemma accounted_mono: "H \<subseteq> K \<Longrightarrow> accounted c H msg p \<Longrightarrow> accounted c K msg p"
  unfolding accounted_def using cleared_mono [of H K c msg] unrevoked_once_mono [of H K c] by (meson subsetD)

lemma justified_mono: "H \<subseteq> K \<Longrightarrow> justified c H msg q \<Longrightarrow> justified c K msg q"
proof (cases q)
  case (Located token r row)
  assume "H \<subseteq> K" "justified c H msg q"
  with Located show ?thesis using cleared_mono [of H K] unrevoked_once_mono [of H K] by simp blast
qed (auto intro: cleared_mono unrevoked_once_mono accounted_mono simp: known_key_def)

lemma justified_step:
  assumes "sh \<in> H" and "justified c H msg q"
  shows "justified c H msg (fst (query_step c t sh q))"
proof (cases q)
  case (Located token r row)
  then show ?thesis using assms by (fastforce intro: accountedI)
next
  case (Admitted token r k)
  then show ?thesis using assms by (auto split: option.split)
next
  case (Verified token r k now)
  then show ?thesis using assms by (auto simp: unrevoked_once_def)
next
  case (Found m raw token r k)
  then show ?thesis using assms by (auto simp: cleared_def)
next
  case (Named m raw token r)
  then show ?thesis using assms by (auto simp: known_key_def split: option.split sum.split)
qed (use assms in \<open>auto simp: named_by_def Let_def split: option.split sum.split\<close>)

lemma justified_run:
  assumes "i < length (ar_calls s)" and "justified c H msg (ar_calls s ! i)" and "set (moments c es s) \<subseteq> H"
  shows "justified c H msg (ar_calls (snd (arena_run c es s)) ! i)"
  using assms
proof (induction es arbitrary: s)
  case (Cons e es)
  let ?s = "snd (arena_step c e s)"
  have "justified c H msg (ar_calls ?s ! i)"
    using arena_step_call [OF Cons.prems(1), of c e] justified_step [of "ar_shared s" H c msg "ar_calls s ! i"] Cons.prems(2,3)
    by auto
  moreover have "i < length (ar_calls ?s)" using arena_step_keeps(3) [of s c e] Cons.prems(1) by simp
  ultimately show ?case using Cons.IH [of ?s] Cons.prems(3) by (simp add: case_prod_beta)
qed simp

text \<open>The rate limit: the last grant of a pair is remembered, and remembered times only grow.\<close>

lemma arena_step_last_time:
  assumes "0 \<le> min_interval_s (sh_authz (ar_shared s))"
  shows "last_time (sh_authz (ar_shared s)) p \<le> last_time (sh_authz (ar_shared (snd (arena_step c e s)))) p"
    and "(p, t) \<in> set (fst (arena_step c e s)) \<Longrightarrow>
      t - last_time (sh_authz (ar_shared s)) p \<ge> min_interval_s (sh_authz (ar_shared s)) \<and>
      last_time (sh_authz (ar_shared (snd (arena_step c e s)))) p = t"
proof -
  have q: "last_time (sh_authz sh) p \<le> last_time (sh_authz (snd (query_step c u sh q))) p"
    if "0 \<le> min_interval_s (sh_authz sh)" for u sh q
    using that by (cases q) (auto simp: Let_def last_time_def split: option.splits sum.splits)
  have g: "t - last_time (sh_authz sh) p \<ge> min_interval_s (sh_authz sh) \<and> last_time (sh_authz (snd (query_step c u sh q))) p = t"
    if "(p, t) \<in> set (granted sh q)" for u sh q
    using that by (cases q) (auto simp: Let_def last_time_def split: if_splits)
  show "last_time (sh_authz (ar_shared s)) p \<le> last_time (sh_authz (ar_shared (snd (arena_step c e s)))) p"
    using q [OF assms] by (cases e) (auto simp: case_prod_beta handle_revoke_keeps)
  show "t - last_time (sh_authz (ar_shared s)) p \<ge> min_interval_s (sh_authz (ar_shared s)) \<and>
      last_time (sh_authz (ar_shared (snd (arena_step c e s)))) p = t" if "(p, t) \<in> set (fst (arena_step c e s))"
    using that g by (cases e) (auto simp: case_prod_beta split: if_splits)
qed

lemma later_grants:
  assumes "0 \<le> min_interval_s (sh_authz (ar_shared s))" and "(p, t) \<in> set (fst (arena_run c es s))"
  shows "t - last_time (sh_authz (ar_shared s)) p \<ge> min_interval_s (sh_authz (ar_shared s))"
  using assms
proof (induction es arbitrary: s)
  case (Cons e es)
  let ?s = "snd (arena_step c e s)"
  have "min_interval_s (sh_authz (ar_shared ?s)) = min_interval_s (sh_authz (ar_shared s))" by (rule arena_step_keeps)
  then show ?case
    using Cons.IH [of ?s] Cons.prems arena_step_last_time(1) [OF Cons.prems(1), of p c e]
      arena_step_last_time(2) [OF Cons.prems(1), of p t c e] by (auto simp: case_prod_beta)
qed simp

lemma grant_at_most_one: "length (fst (arena_step c e s)) \<le> 1"
proof -
  have "length (granted sh q) \<le> 1" for sh q by (cases q) simp_all
  then show ?thesis by (cases e) (simp_all add: case_prod_beta)
qed
section \<open>Properties\<close>


text \<open>C8. A revocation holds against every schedule: once a token's revocation key is in the set, no call
  with that token that has not begun before is ever answered, whatever the other threads do meanwhile.\<close>

theorem revoked_never_served_concurrently:
  assumes "i < length (ar_calls s)" and "ar_calls s ! i = Asked msg"
    and "query_token c msg = Some token" and "revocation_key c token \<in> revoked (sh_authz (ar_shared s))"
  shows "ar_calls (snd (arena_run c es s)) ! i \<noteq> Answered (Inr (Some p))"
  using shut_out_run [OF assms(1,4), of c es] assms(2,3) by auto

theorem revoked_never_served_concurrently_witness:
  "ar_calls (snd (arena_run sample_core [Turn 0 70, Stores (Forget [9]), Turn 0 70]
     \<lparr>ar_shared = \<lparr>sh_authz = (authz_init 60)\<lparr>revoked := {([1, 2], [3, 4], 0, [])}\<rparr>, sh_directory = sample_dir, sh_store = sample_store\<rparr>,
      ar_calls = [Asked sample_query]\<rparr>)) ! 0 \<noteq> Answered (Inr (Some [3, 4, 170]))"
proof -
  have t: "query_token sample_core sample_query = Some \<lparr>issuer_id = [1, 2], grantee_id = [3, 4], issued_at = 0, token_nonce = []\<rparr>"
    unfolding query_token_def sample_core_def sample_query_def by simp
  show ?thesis
    by (rule revoked_never_served_concurrently [OF _ _ t]) (simp_all add: sample_core_def)
qed

text \<open>C7. Consent under any schedule: a call that ends with an answer was asked by the token's grantee, the
  token verified under a key the directory held for its issuer at some moment of the run, was not revoked at
  some moment, a row of the target was stored at some moment, and the answer is that row sealed to a key the
  directory held for the requester at some moment.\<close>

theorem consent_under_any_schedule:
  assumes "i < length (ar_calls s)" and "ar_calls s ! i = Asked msg"
    and "ar_calls (snd (arena_run c es s)) ! i = Answered (Inr (Some p))"
  shows "accounted c (set (moments c es s)) msg p"
  using justified_run [OF assms(1) _ subset_refl, where c = c and msg = msg and es = es] assms(2,3) by simp

definition sample_arena :: arena where
  "sample_arena = \<lparr>ar_shared = \<lparr>sh_authz = authz_init 60, sh_directory = sample_dir, sh_store = sample_store\<rparr>, ar_calls = []\<rparr>"

abbreviation seven_turns :: "nat \<Rightarrow> arena_event list" where
  "seven_turns i \<equiv> map (Turn i) [70, 70, 70, 70, 70, 70, 70]"

lemma sample_arena_served:
  "snd (arena_run sample_core (Arrives sample_query # seven_turns 0) sample_arena) =
     \<lparr>ar_shared = \<lparr>sh_authz = (authz_init 60)\<lparr>last_query := [(([3, 4], [1, 2]), 70)]\<rparr>, sh_directory = sample_dir, sh_store = sample_store\<rparr>,
      ar_calls = [Answered (Inr (Some [3, 4, 170]))]\<rparr>"
proof -
  have "handle_query sample_core sample_dir sample_store 70 70 sample_query (authz_init 60) =
      (Inr (Some [3, 4, 170]), (authz_init 60)\<lparr>last_query := [(([3, 4], [1, 2]), 70)]\<rparr>)"
    using sample_served [of 70 "authz_init 60"] by (simp add: authz_init_def last_time_def)
  then have "alone sample_core [70, 70, 70, 70, 70, 70, 70] (Asked sample_query) (ar_shared sample_arena) =
      (Answered (Inr (Some [3, 4, 170])), (ar_shared sample_arena)\<lparr>sh_authz := (authz_init 60)\<lparr>last_query := [(([3, 4], [1, 2]), 70)]\<rparr>\<rparr>)"
    by (simp add: alone_is_handle_query sample_arena_def del: alone.simps)
  then show ?thesis
    using turns_alone [of 0 "sample_arena\<lparr>ar_calls := [Asked sample_query]\<rparr>" sample_core "[70, 70, 70, 70, 70, 70, 70]"]
    by (simp add: sample_arena_def case_prod_beta del: alone.simps list.map)
qed

theorem consent_under_any_schedule_witness:
  "accounted sample_core (set (moments sample_core (seven_turns 0) (sample_arena\<lparr>ar_calls := [Asked sample_query]\<rparr>)))
     sample_query [3, 4, 170]"
proof -
  let ?s = "sample_arena\<lparr>ar_calls := [Asked sample_query]\<rparr>"
  have "snd (arena_run sample_core (Arrives sample_query # seven_turns 0) sample_arena) = snd (arena_run sample_core (seven_turns 0) ?s)"
    by (simp add: sample_arena_def case_prod_beta del: list.map)
  then have "ar_calls (snd (arena_run sample_core (seven_turns 0) ?s)) ! 0 = Answered (Inr (Some [3, 4, 170]))"
    unfolding sample_arena_served by (metis arena.select_convs(2) nth_Cons_0)
  then show ?thesis by (intro consent_under_any_schedule [of 0]) (simp_all del: arena_run.simps list.map)
qed

text \<open>C9. The rate limit holds against every schedule: two grants of the same pair are at least the minimum
  interval apart, in the order in which they were granted, however many calls of the pair overlap.\<close>

theorem grants_spaced_under_any_schedule:
  assumes "0 \<le> min_interval_s (sh_authz (ar_shared s))"
    and "j < k" and "k < length (fst (arena_run c es s))"
    and "fst (arena_run c es s) ! j = (p, t)" and "fst (arena_run c es s) ! k = (p, t')"
  shows "min_interval_s (sh_authz (ar_shared s)) \<le> t' - t"
  using assms
proof (induction es arbitrary: s j k)
  case (Cons e es)
  let ?s = "snd (arena_step c e s)" and ?out = "fst (arena_step c e s)"
  have m: "min_interval_s (sh_authz (ar_shared ?s)) = min_interval_s (sh_authz (ar_shared s))" by (rule arena_step_keeps)
  have run: "fst (arena_run c (e # es) s) = ?out @ fst (arena_run c es ?s)" by (simp add: case_prod_beta)
  show ?case
  proof (cases "j < length ?out")
    case True
    then have k: "length ?out \<le> k" "j = 0" using Cons.prems(2) grant_at_most_one [of c e s] by auto
    have "(p, t') \<in> set (fst (arena_run c es ?s))"
      using Cons.prems(3,5) [unfolded run] k by (auto simp: nth_append in_set_conv_nth intro!: exI [of _ "k - length ?out"])
    then have "min_interval_s (sh_authz (ar_shared ?s)) \<le> t' - last_time (sh_authz (ar_shared ?s)) p"
      using Cons.prems(1) m later_grants [of ?s p t' c es] by simp
    moreover have "(p, t) \<in> set ?out" using Cons.prems(4) True by (metis nth_append nth_mem run)
    ultimately show ?thesis using arena_step_last_time(2) [OF Cons.prems(1), of p t c e] m by simp
  next
    case False
    then show ?thesis
      using Cons.IH [of ?s "j - length ?out" "k - length ?out"] Cons.prems(1,2) Cons.prems(3,4,5) [unfolded run] m by (auto simp: nth_append)
  qed
qed simp

theorem grants_spaced_under_any_schedule_witness:
  "let tok = \<lparr>issuer_id = [1, 2], grantee_id = [3, 4], issued_at = 0, token_nonce = []\<rparr>;
     s = sample_arena\<lparr>ar_calls := [Unrevoked tok [3, 4] [1, 2] 70, Unrevoked tok [3, 4] [1, 2] 130]\<rparr>
   in fst (arena_run sample_core [Turn 0 70, Turn 1 200] s) = [(([3, 4], [1, 2]), 70), (([3, 4], [1, 2]), 130)] \<and>
      min_interval_s (sh_authz (ar_shared s)) \<le> 130 - 70"
proof -
  let ?tok = "\<lparr>issuer_id = [1, 2], grantee_id = [3, 4], issued_at = 0, token_nonce = []\<rparr>"
  let ?s = "sample_arena\<lparr>ar_calls := [Unrevoked ?tok [3, 4] [1, 2] 70, Unrevoked ?tok [3, 4] [1, 2] 130]\<rparr>"
  have g: "fst (arena_run sample_core [Turn 0 70, Turn 1 200] ?s) = [(([3, 4], [1, 2]), 70), (([3, 4], [1, 2]), 130)]"
    by (simp add: sample_arena_def authz_init_def last_time_def Let_def)
  have m: "0 \<le> min_interval_s (sh_authz (ar_shared ?s))" by (simp add: sample_arena_def authz_init_def)
  have "min_interval_s (sh_authz (ar_shared ?s)) \<le> 130 - 70"
    using grants_spaced_under_any_schedule [OF m, of 0 1 sample_core "[Turn 0 70, Turn 1 200]" "([3, 4], [1, 2])" 70 130, unfolded g] by simp
  with g show ?thesis unfolding Let_def by (intro conjI)
qed

text \<open>But the check is not the last word: the revocation set is read before the lock is taken and the row is
  read. A revocation that is handled after the check of a call does not stop it, and a position the target
  reports after the revocation is then served under the revoked token.\<close>

theorem stale_check_serves_later_position:
  assumes "admit_query c (sh_directory sh) now msg (sh_authz sh) = Inr (Some (r, token, k))"
    and "min_interval_s (sh_authz sh) \<le> now - last_time (sh_authz sh) (r, issuer_id token)"
    and "fst (handle_revoke c rmsg (sh_authz sh)) = Inr True"
    and "revocation_key c token \<in> revoked (snd (handle_revoke c rmsg (sh_authz sh)))"
  shows "let s' = snd (arena_run c (Arrives msg # map (Turn 0) [now, now, now, now] @
        [Revokes rmsg, Stores (Beacon later k lat lon acc zone)] @ map (Turn 0) [later, later, later]) \<lparr>ar_shared = sh, ar_calls = []\<rparr>)
    in revocation_key c token \<in> revoked (sh_authz (ar_shared s')) \<and>
       ar_calls s' = [Answered (answer_query c (sh_directory sh) later r token
         \<lparr>lat_microdeg = lat, lon_microdeg = lon, accuracy_m = acc, row_zone_id = zone, last_beacon_ts = later\<rparr>)]"
proof -
  let ?a = "snd (handle_revoke c rmsg (sh_authz sh))"
  let ?sh = "sh\<lparr>sh_authz := ?a, sh_store := store_update later k lat lon acc zone (sh_store sh)\<rparr>"
  let ?s = "\<lparr>ar_shared = sh, ar_calls = [Asked msg]\<rparr>"
  have "snd (arena_run c (map (Turn 0) [now, now, now, now]) ?s) = \<lparr>ar_shared = sh, ar_calls = [Unrevoked token r k now]\<rparr>"
    by (subst turns_alone) (simp_all add: alone_admission assms(1) del: alone.simps list.map)
  then have "snd (arena_run c (Arrives msg # map (Turn 0) [now, now, now, now] @
        [Revokes rmsg, Stores (Beacon later k lat lon acc zone)] @ map (Turn 0) [later, later, later]) \<lparr>ar_shared = sh, ar_calls = []\<rparr>) =
      snd (arena_run c (map (Turn 0) [later, later, later]) \<lparr>ar_shared = ?sh, ar_calls = [Unrevoked token r k now]\<rparr>)"
    by (simp add: arena_run_append case_prod_beta del: list.map)
  moreover have "last_time ?a (r, issuer_id token) = last_time (sh_authz sh) (r, issuer_id token)"
    "min_interval_s ?a = min_interval_s (sh_authz sh)" by (simp_all add: handle_revoke_keeps)
  ultimately show ?thesis
    using assms(2,4) by (simp add: turns_alone alone_unrevoked Let_def store_get_def store_update_def del: alone.simps arena_run.simps list.map)
qed

theorem stale_check_serves_later_position_witness:
  "let s' = snd (arena_run sample_core (Arrives sample_query # map (Turn 0) [70, 70, 70, 70] @
        [Revokes (sample_query\<lparr>sender_key := [1, 2]\<rparr>), Stores (Beacon 75 [1, 2] 11 21 3 1)] @ map (Turn 0) [75, 75, 75])
        \<lparr>ar_shared = ar_shared sample_arena, ar_calls = []\<rparr>)
    in ([1, 2], [3, 4], 0, []) \<in> revoked (sh_authz (ar_shared s')) \<and>
       ar_calls s' = [Answered (answer_query sample_core sample_dir 75 [3, 4] \<lparr>issuer_id = [1, 2], grantee_id = [3, 4], issued_at = 0, token_nonce = []\<rparr>
         \<lparr>lat_microdeg = 11, lon_microdeg = 21, accuracy_m = 3, row_zone_id = 1, last_beacon_ts = 75\<rparr>)]"
proof -
  have "by_ed25519_id sample_dir [1, 2] = Some (sample_row ''0102'')"
    by (simp add: by_ed25519_id_def sample_dir_def)
  then have a: "admit_query sample_core (sh_directory (ar_shared sample_arena)) 70 sample_query (sh_authz (ar_shared sample_arena)) =
      Inr (Some ([3, 4], \<lparr>issuer_id = [1, 2], grantee_id = [3, 4], issued_at = 0, token_nonce = []\<rparr>, [1, 2]))"
    by (simp add: admit_query_def sample_core_def sample_query_def sample_row_key sample_arena_def authz_init_def)
  show ?thesis
    using stale_check_serves_later_position [OF a, of "sample_query\<lparr>sender_key := [1, 2]\<rparr>" 75 11 21 3 1]
    by (simp add: sample_arena_def authz_init_def last_time_def handle_revoke_def sample_core_def sample_query_def Let_def
        del: arena_run.simps list.map append.simps)
qed
end
