(* ===== verification/PingThreads.thy ===== *)
theory PingThreads
  imports PhonePing "HOL-Library.Multiset"
begin

text \<open>
  The connect timers of \<open>node/monitoring/phone_ping.py\<close> as threads. \<open>on_peer_connected\<close> runs on the Bluetooth
  loop and on the WiFi listener, each \<open>threading.Timer\<close> is a thread of its own, and \<open>stop\<close> runs on the main
  thread; only the set of tracked timers is under the lock. Every access to what they share is one step.
\<close>

section \<open>Timers\<close>

text \<open>Made, in the tracked set, started and waiting, past its wait, past the test of the stop event, done.\<close>

datatype timer_phase = Made | Tracked | Waiting | Fired | Unstopped | Done

record timer =
  tm_peer :: pystr
  tm_phase :: timer_phase
  tm_cancelled :: bool

record ping_threads =
  pt_timers :: "timer list"
  pt_tracked :: "nat list"
  pt_stop :: bool
  pt_doomed :: "nat list"

definition ping_threads_init :: ping_threads where
  "ping_threads_init = \<lparr>pt_timers = [], pt_tracked = [], pt_stop = False, pt_doomed = []\<rparr>"

text \<open>\<open>Thread.is_alive\<close>: started and not done.\<close>

definition is_alive :: "timer \<Rightarrow> bool" where
  "is_alive t = (tm_phase t \<in> {Waiting, Fired, Unstopped})"

text \<open>The steps of \<open>on_peer_connected\<close>; of a timer, whose wait ends by the delay or by \<open>cancel\<close>; of
  \<open>_fire_connect_ping\<close>; and of \<open>stop\<close>.\<close>

datatype ping_event =
    Makes pystr
  | Tracks nat
  | Starts nat
  | Wakes nat
  | Tests nat
  | Pings nat
  | SetsStop
  | TakesTimers
  | Cancels nat

definition at_phase :: "ping_threads \<Rightarrow> nat \<Rightarrow> timer_phase \<Rightarrow> bool" where
  "at_phase s i ph = (i < length (pt_timers s) \<and> tm_phase (pt_timers s ! i) = ph)"

definition move_timer :: "nat \<Rightarrow> timer_phase \<Rightarrow> ping_threads \<Rightarrow> ping_threads" where
  "move_timer i ph s = s\<lparr>pt_timers := (pt_timers s)[i := (pt_timers s ! i)\<lparr>tm_phase := ph\<rparr>]\<rparr>"

fun ping_step :: "ping_event \<Rightarrow> ping_threads \<Rightarrow> pystr list \<times> ping_threads" where
  "ping_step (Makes p) s = ([], s\<lparr>pt_timers := pt_timers s @ [\<lparr>tm_peer = p, tm_phase = Made, tm_cancelled = False\<rparr>]\<rparr>)"
| "ping_step (Tracks i) s =
     ([], if at_phase s i Made
          then (move_timer i Tracked s)\<lparr>pt_tracked := filter (\<lambda>j. is_alive (pt_timers s ! j)) (pt_tracked s) @ [i]\<rparr> else s)"
| "ping_step (Starts i) s = ([], if at_phase s i Tracked then move_timer i Waiting s else s)"
| "ping_step (Wakes i) s =
     ([], if at_phase s i Waiting then move_timer i (if tm_cancelled (pt_timers s ! i) then Done else Fired) s else s)"
| "ping_step (Tests i) s = ([], if at_phase s i Fired then move_timer i (if pt_stop s then Done else Unstopped) s else s)"
| "ping_step (Pings i) s =
     (if at_phase s i Unstopped then ([tm_peer (pt_timers s ! i)], move_timer i Done s) else ([], s))"
| "ping_step SetsStop s = ([], s\<lparr>pt_stop := True\<rparr>)"
| "ping_step TakesTimers s = ([], if pt_stop s then s\<lparr>pt_tracked := [], pt_doomed := pt_doomed s @ pt_tracked s\<rparr> else s)"
| "ping_step (Cancels i) s =
     ([], if i \<in> set (pt_doomed s) \<and> i < length (pt_timers s)
          then s\<lparr>pt_timers := (pt_timers s)[i := (pt_timers s ! i)\<lparr>tm_cancelled := True\<rparr>]\<rparr> else s)"

text \<open>A run and the phones it pings.\<close>

fun ping_run :: "ping_event list \<Rightarrow> ping_threads \<Rightarrow> pystr list \<times> ping_threads" where
  "ping_run [] s = ([], s)"
| "ping_run (e # es) s = (case ping_step e s of (out, s') \<Rightarrow> (case ping_run es s' of (out', s'') \<Rightarrow> (out @ out', s'')))"

section \<open>Lemmas\<close>

text \<open>The phones whose ping can no longer be stopped.\<close>

definition committed :: "ping_threads \<Rightarrow> pystr list" where
  "committed s = map tm_peer (filter (\<lambda>t. tm_phase t = Unstopped) (pt_timers s))"

lemma filter_update:
  assumes "i < length xs" and "\<not> P y"
  shows "mset (map f (filter P (xs[i := y]))) = mset (map f (filter P xs)) - (if P (xs ! i) then {#f (xs ! i)#} else {#})"
proof -
  have "xs = take i xs @ xs ! i # drop (Suc i) xs" using assms(1) by (rule id_take_nth_drop)
  then have "mset (map f (filter P xs)) = mset (map f (filter P (take i xs @ xs ! i # drop (Suc i) xs)))" by simp
  then show ?thesis using assms by (simp add: upd_conv_take_nth_drop)
qed

lemma ping_step_stop: "pt_stop s \<Longrightarrow> pt_stop (snd (ping_step e s))"
  by (cases e) (simp_all add: move_timer_def)

lemma ping_step_committed:
  assumes "pt_stop s"
  shows "mset (fst (ping_step e s)) + mset (committed (snd (ping_step e s))) = mset (committed s)"
proof -
  have quiet: "mset (committed (move_timer i ph s)) = mset (committed s)"
    if "at_phase s i ph'" "ph \<noteq> Unstopped" "ph' \<noteq> Unstopped" for i ph ph'
    using that filter_update [of i "pt_timers s" "\<lambda>t. tm_phase t = Unstopped" "(pt_timers s ! i)\<lparr>tm_phase := ph\<rparr>" tm_peer]
    by (auto simp: at_phase_def move_timer_def committed_def)
  show ?thesis
  proof (cases e)
    case (Pings i)
    have "tm_peer (pt_timers s ! i) \<in># mset (committed s)" if "at_phase s i Unstopped"
      using that by (auto simp: at_phase_def committed_def)
    then show ?thesis
      using Pings filter_update [of i "pt_timers s" "\<lambda>t. tm_phase t = Unstopped" "(pt_timers s ! i)\<lparr>tm_phase := Done\<rparr>" tm_peer]
      by (auto simp: at_phase_def move_timer_def committed_def)
  next
    case (Cancels i)
    have "committed (s\<lparr>pt_timers := (pt_timers s)[i := (pt_timers s ! i)\<lparr>tm_cancelled := True\<rparr>]\<rparr>) = committed s"
      if "i < length (pt_timers s)"
    proof -
      have "map (\<lambda>t. (tm_peer t, tm_phase t)) ((pt_timers s)[i := (pt_timers s ! i)\<lparr>tm_cancelled := True\<rparr>]) =
          map (\<lambda>t. (tm_peer t, tm_phase t)) (pt_timers s)"
        using that by (intro nth_equalityI) (auto simp: nth_list_update)
      moreover have "committed u = map fst (filter (\<lambda>x. snd x = Unstopped) (map (\<lambda>t. (tm_peer t, tm_phase t)) (pt_timers u)))" for u :: ping_threads
        by (simp add: committed_def filter_map comp_def)
      ultimately show ?thesis by simp
    qed
    with Cancels show ?thesis by simp
  next
    case (Tracks i)
    have "committed (move_timer i Tracked s\<lparr>pt_tracked := ts\<rparr>) = committed (move_timer i Tracked s)" for ts
      by (simp add: committed_def)
    then show ?thesis using Tracks quiet [of i Made Tracked] by simp
  qed (use assms quiet in \<open>auto simp: committed_def\<close>)
qed

lemma ping_run_committed:
  "pt_stop s \<Longrightarrow> mset (fst (ping_run es s)) + mset (committed (snd (ping_run es s))) = mset (committed s)"
proof (induction es arbitrary: s)
  case (Cons e es)
  then show ?case
    using ping_step_committed [OF Cons.prems, of e] Cons.IH [OF ping_step_stop [OF Cons.prems, of e]]
    by (simp add: case_prod_beta) (metis add.assoc)
qed simp

lemma no_pings_left: "pt_stop s \<Longrightarrow> committed s = [] \<Longrightarrow> fst (ping_run es s) = []"
  using ping_run_committed [of s es] by simp

lemma ping_run_append: "snd (ping_run (es @ fs) s) = snd (ping_run fs (snd (ping_run es s)))"
  by (induction es arbitrary: s) (simp_all add: case_prod_beta)

text \<open>A connect nobody interrupts: one more timer that waits, tracked with those still alive, as in the atomic
  \<open>on_peer_connected\<close>.\<close>

lemma uninterrupted_connect:
  assumes "i = length (pt_timers s)" and "\<forall>j\<in>set (pt_tracked s). j < i"
  shows "ping_run [Makes p, Tracks i, Starts i] s =
    ([], s\<lparr>pt_timers := pt_timers s @ [\<lparr>tm_peer = p, tm_phase = Waiting, tm_cancelled = False\<rparr>],
           pt_tracked := filter (\<lambda>j. is_alive (pt_timers s ! j)) (pt_tracked s) @ [i]\<rparr>)"
proof -
  have "filter (\<lambda>j. is_alive ((pt_timers s @ [t]) ! j)) (pt_tracked s) = filter (\<lambda>j. is_alive (pt_timers s ! j)) (pt_tracked s)" for t
    using assms by (intro filter_cong) (auto simp: nth_append)
  then show ?thesis by (simp add: assms(1) at_phase_def move_timer_def)
qed

text \<open>A timer that is cancelled before its wait is over never pings.\<close>

definition harmless :: "timer \<Rightarrow> bool" where
  "harmless t = (tm_phase t = Done \<or> tm_cancelled t \<and> tm_phase t \<in> {Made, Tracked, Waiting})"

lemma harmless_step:
  assumes "i < length (pt_timers s)" and "harmless (pt_timers s ! i)"
  shows "harmless (pt_timers (snd (ping_step e s)) ! i) \<and> i < length (pt_timers (snd (ping_step e s)))"
  using assms by (cases e) (auto simp: harmless_def at_phase_def move_timer_def nth_list_update nth_append)

lemma harmless_run:
  "i < length (pt_timers s) \<Longrightarrow> harmless (pt_timers s ! i) \<Longrightarrow> harmless (pt_timers (snd (ping_run es s)) ! i)"
  by (induction es arbitrary: s) (simp_all add: case_prod_beta harmless_step)

section \<open>Properties\<close>

text \<open>C34. Stopping the telemetry is bounded under every schedule: once the stop event is set, the phones pinged
  by connect timers are among those whose timer had tested the event before, each at most once, whatever
  connects, wakes and cancels still happen and in whatever order; and none is pinged if no timer had.\<close>

theorem pings_after_stop_bounded:
  assumes "pt_stop s"
  shows "mset (fst (ping_run es s)) \<subseteq># mset (committed s) \<and> (committed s = [] \<longrightarrow> fst (ping_run es s) = [])"
proof -
  have "mset (fst (ping_run es s)) \<subseteq># mset (committed s)"
    using ping_run_committed [OF assms, of es] by (metis mset_subset_eq_add_left)
  then show ?thesis using no_pings_left [OF assms] by simp
qed

theorem pings_after_stop_bounded_witness:
  "mset (fst (ping_run [Starts 1, Wakes 1, Pings 0, Tests 1, Pings 1, Pings 0]
     (snd (ping_run [Makes [1], Tracks 0, Starts 0, Makes [2], Tracks 1, Wakes 0, Tests 0, SetsStop] ping_threads_init)))) \<subseteq># {#[1]#}"
proof -
  let ?s = "snd (ping_run [Makes [1], Tracks 0, Starts 0, Makes [2], Tracks 1, Wakes 0, Tests 0, SetsStop] ping_threads_init)"
  have "pt_stop ?s" "committed ?s = [[1]]"
    by (simp_all add: ping_threads_init_def at_phase_def move_timer_def is_alive_def committed_def)
  with pings_after_stop_bounded [of ?s "[Starts 1, Wakes 1, Pings 0, Tests 1, Pings 1, Pings 0]"]
  show ?thesis by (simp del: ping_run.simps)
qed

text \<open>The timers are tracked \<open>so stop() can cancel the pending ones\<close>, but a timer is put into the set before it
  is started, and \<open>is_alive\<close> is false in between: when another phone connects just then, the timer is dropped
  from the set, and after \<open>stop\<close> has taken and cancelled all it knows the timer's thread still waits. The test
  of the stop event keeps it from pinging.\<close>

theorem pruned_timer_outlives_stop:
  "let s = snd (ping_run [Makes p, Tracks 0, Makes q, Tracks 1, Starts 0, Starts 1, SetsStop, TakesTimers, Cancels 0, Cancels 1] ping_threads_init)
   in pt_doomed s = [1] \<and> at_phase s 0 Waiting \<and> \<not> tm_cancelled (pt_timers s ! 0) \<and> fst (ping_run es s) = []"
proof -
  let ?t = "\<lambda>p ph c. \<lparr>tm_peer = p, tm_phase = ph, tm_cancelled = c\<rparr>"
  have 1: "snd (ping_run [Makes p, Tracks 0, Makes q, Tracks 1] ping_threads_init) =
      \<lparr>pt_timers = [?t p Tracked False, ?t q Tracked False], pt_tracked = [1], pt_stop = False, pt_doomed = []\<rparr>"
    by (simp add: ping_threads_init_def at_phase_def move_timer_def is_alive_def)
  have 2: "snd (ping_run [Starts 0, Starts 1, SetsStop, TakesTimers]
      \<lparr>pt_timers = [?t p Tracked False, ?t q Tracked False], pt_tracked = [1], pt_stop = False, pt_doomed = []\<rparr>) =
      \<lparr>pt_timers = [?t p Waiting False, ?t q Waiting False], pt_tracked = [], pt_stop = True, pt_doomed = [1]\<rparr>"
    by (simp add: at_phase_def move_timer_def)
  have 3: "snd (ping_run [Cancels 0, Cancels 1]
      \<lparr>pt_timers = [?t p Waiting False, ?t q Waiting False], pt_tracked = [], pt_stop = True, pt_doomed = [1]\<rparr>) =
      \<lparr>pt_timers = [?t p Waiting False, ?t q Waiting True], pt_tracked = [], pt_stop = True, pt_doomed = [1]\<rparr>"
    by simp
  have s: "snd (ping_run [Makes p, Tracks 0, Makes q, Tracks 1, Starts 0, Starts 1, SetsStop, TakesTimers, Cancels 0, Cancels 1] ping_threads_init) =
      \<lparr>pt_timers = [?t p Waiting False, ?t q Waiting True], pt_tracked = [], pt_stop = True, pt_doomed = [1]\<rparr>"
  proof -
    have "snd (ping_run ([Makes p, Tracks 0, Makes q, Tracks 1] @ [Starts 0, Starts 1, SetsStop, TakesTimers] @ [Cancels 0, Cancels 1]) ping_threads_init) =
        \<lparr>pt_timers = [?t p Waiting False, ?t q Waiting True], pt_tracked = [], pt_stop = True, pt_doomed = [1]\<rparr>"
      by (simp only: ping_run_append 1 2 3)
    then show ?thesis by (simp only: append_Cons append_Nil)
  qed
  have "fst (ping_run es \<lparr>pt_timers = [?t p Waiting False, ?t q Waiting True], pt_tracked = [], pt_stop = True, pt_doomed = [1]\<rparr>) = []"
    by (rule no_pings_left) (simp_all add: committed_def)
  then show ?thesis unfolding Let_def s by (simp add: at_phase_def)
qed

end
