(* ===== verification/NotifyThreads.thy ===== *)
theory NotifyThreads
  imports GattBackends
begin

text \<open>
  The notification backlog of \<open>node/ble/corebluetooth.py\<close> between threads. \<open>_notify_chunk\<close> runs on whatever
  thread sends, \<open>_flush_pending\<close> on the main run loop, and no lock joins them. The manager calls
  \<open>peripheralManagerIsReadyToUpdateSubscribers\<close> after it has refused an \<open>updateValue\<close>, once for however
  many refusals (as CoreBluetooth documents): it then owes a callback.
\<close>

section \<open>One call at a time\<close>

text \<open>The queue with the callback the manager owes, when the calls do not overlap.\<close>

record cb_queue =
  cq_tx :: cb_tx
  cq_owed :: bool

datatype queue_event = Notify bytes bool | Ready "nat \<Rightarrow> bool"

definition asks_manager :: "cb_tx \<Rightarrow> bool" where
  "asks_manager q = (tx_char q \<and> pending q = [])"

fun queue_step :: "queue_event \<Rightarrow> cb_queue \<Rightarrow> bytes list \<times> cb_queue" where
  "queue_step (Notify d accepted) s =
     (case cb_notify_chunk (cq_tx s) d accepted of
        (out, q) \<Rightarrow> (out, \<lparr>cq_tx = q, cq_owed = (cq_owed s \<or> asks_manager (cq_tx s) \<and> \<not> accepted)\<rparr>))"
| "queue_step (Ready answers) s =
     (if cq_owed s
      then (case cb_flush_pending (cq_tx s) answers of (out, q) \<Rightarrow> (out, \<lparr>cq_tx = q, cq_owed = (pending q \<noteq> [])\<rparr>))
      else ([], s))"

fun queue_run :: "queue_event list \<Rightarrow> cb_queue \<Rightarrow> bytes list \<times> cb_queue" where
  "queue_run [] s = ([], s)"
| "queue_run (e # es) s = (case queue_step e s of (out, s') \<Rightarrow> (case queue_run es s' of (out', s'') \<Rightarrow> (out @ out', s'')))"

section \<open>Calls that overlap\<close>

text \<open>A thread with chunks to notify: between calls; having seen a backlog, or none; or refused.\<close>

datatype notifier =
    Idle "bytes list"
  | Backlogged bytes "bytes list"
  | Clear bytes "bytes list"
  | Refused bytes "bytes list"

datatype flusher = Resting | Looping | SentOne

record notify_arena =
  na_pending :: "bytes list"
  na_owed :: bool
  na_threads :: "notifier list"
  na_flusher :: flusher

fun notifier_step :: "bool \<Rightarrow> notifier \<Rightarrow> notify_arena \<Rightarrow> bytes list \<times> notifier \<times> notify_arena" where
  "notifier_step accepted (Idle []) s = ([], Idle [], s)"
| "notifier_step accepted (Idle (d # ds)) s = ([], if na_pending s \<noteq> [] then Backlogged d ds else Clear d ds, s)"
| "notifier_step accepted (Backlogged d ds) s = ([], Idle ds, s\<lparr>na_pending := na_pending s @ [d]\<rparr>)"
| "notifier_step accepted (Clear d ds) s =
     (if accepted then ([d], Idle ds, s) else ([], Refused d ds, s\<lparr>na_owed := True\<rparr>))"
| "notifier_step accepted (Refused d ds) s = ([], Idle ds, s\<lparr>na_pending := na_pending s @ [d]\<rparr>)"

text \<open>The callback begins when it is owed; the loop looks at the queue, sends its head, and pops it.\<close>

fun flusher_step :: "bool \<Rightarrow> flusher \<Rightarrow> notify_arena \<Rightarrow> bytes list \<times> notify_arena" where
  "flusher_step accepted Resting s = ([], if na_owed s then s\<lparr>na_owed := False, na_flusher := Looping\<rparr> else s)"
| "flusher_step accepted Looping s =
     (case na_pending s of
        [] \<Rightarrow> ([], s\<lparr>na_flusher := Resting\<rparr>)
      | c # cs \<Rightarrow> (if accepted then ([c], s\<lparr>na_flusher := SentOne\<rparr>) else ([], s\<lparr>na_owed := True, na_flusher := Resting\<rparr>)))"
| "flusher_step accepted SentOne s = ([], s\<lparr>na_pending := tl (na_pending s), na_flusher := Looping\<rparr>)"

datatype notify_event = NotifyTurn nat bool | FlushTurn bool

fun notify_step :: "notify_event \<Rightarrow> notify_arena \<Rightarrow> bytes list \<times> notify_arena" where
  "notify_step (NotifyTurn i accepted) s =
     (if i < length (na_threads s)
      then (case notifier_step accepted (na_threads s ! i) s of (out, t, s') \<Rightarrow> (out, s'\<lparr>na_threads := (na_threads s)[i := t]\<rparr>))
      else ([], s))"
| "notify_step (FlushTurn accepted) s = flusher_step accepted (na_flusher s) s"

fun notify_run :: "notify_event list \<Rightarrow> notify_arena \<Rightarrow> bytes list \<times> notify_arena" where
  "notify_run [] s = ([], s)"
| "notify_run (e # es) s = (case notify_step e s of (out, s') \<Rightarrow> (case notify_run es s' of (out', s'') \<Rightarrow> (out @ out', s'')))"

definition notify_arena_init :: "bytes list list \<Rightarrow> notify_arena" where
  "notify_arena_init dss = \<lparr>na_pending = [], na_owed = False, na_threads = map Idle dss, na_flusher = Resting\<rparr>"

section \<open>Lemmas\<close>

text \<open>A call that is not interrupted does what \<open>cb_notify_chunk\<close> does.\<close>

lemma uninterrupted_notify:
  assumes "i < length (na_threads s)" and "na_threads s ! i = Idle (d # ds)"
  shows "notify_run (replicate (if na_pending s = [] \<and> \<not> accepted then 3 else 2) (NotifyTurn i accepted)) s =
    (fst (cb_notify_chunk \<lparr>tx_char = True, pending = na_pending s\<rparr> d accepted),
     s\<lparr>na_pending := pending (snd (cb_notify_chunk \<lparr>tx_char = True, pending = na_pending s\<rparr> d accepted)),
       na_owed := (na_owed s \<or> na_pending s = [] \<and> \<not> accepted),
       na_threads := (na_threads s)[i := Idle ds]\<rparr>)"
  using assms by (auto simp: cb_notify_chunk_def numeral_eq_Suc)

lemma flush_queue_parts: "flush_queue f i cs = (sent, rest) \<Longrightarrow> cs = sent @ rest"
  by (induction f i cs arbitrary: sent rest rule: flush_queue.induct) (auto split: if_splits prod.splits)

lemma flush_queue_all: "(\<And>i. f i) \<Longrightarrow> flush_queue f i cs = (cs, [])"
  by (induction cs arbitrary: i) simp_all

lemma queue_step_owed:
  "(pending (cq_tx s) \<noteq> [] \<longrightarrow> cq_owed s) \<Longrightarrow> pending (cq_tx (snd (queue_step e s))) \<noteq> [] \<longrightarrow> cq_owed (snd (queue_step e s))"
  by (cases e) (auto simp: cb_notify_chunk_def asks_manager_def split: prod.splits)

lemma queue_run_owed:
  "(pending (cq_tx s) \<noteq> [] \<longrightarrow> cq_owed s) \<Longrightarrow> pending (cq_tx (snd (queue_run es s))) \<noteq> [] \<longrightarrow> cq_owed (snd (queue_run es s))"
proof (induction es arbitrary: s)
  case (Cons e es)
  from Cons.IH [OF queue_step_owed [OF Cons.prems, of e]] show ?case by (simp add: case_prod_beta)
qed simp

text \<open>A queue with chunks in it, no callback owed, and nobody about to ask the manager.\<close>

fun keeps_quiet :: "notifier \<Rightarrow> bool" where
  "keeps_quiet (Idle ds) = True"
| "keeps_quiet (Backlogged d ds) = True"
| "keeps_quiet t = False"

definition stuck :: "notify_arena \<Rightarrow> bool" where
  "stuck s = (na_pending s \<noteq> [] \<and> \<not> na_owed s \<and> na_flusher s = Resting \<and> list_all keeps_quiet (na_threads s))"

lemma quiet_turn:
  assumes "keeps_quiet t" and "na_pending s \<noteq> []" and "notifier_step accepted t s = (out, t', s')"
  shows "out = [] \<and> keeps_quiet t' \<and> na_pending s' \<noteq> [] \<and> na_owed s' = na_owed s \<and> na_flusher s' = na_flusher s"
  using assms by (cases "(accepted, t, s)" rule: notifier_step.cases) auto

lemma stuck_step:
  assumes "stuck s"
  shows "fst (notify_step e s) = [] \<and> stuck (snd (notify_step e s))"
proof (cases e)
  case (NotifyTurn i accepted)
  have "list_all keeps_quiet ((na_threads s)[i := t])" if "keeps_quiet t" for t
    using assms that set_update_subset_insert [of "na_threads s" i t] by (auto simp: stuck_def list_all_iff)
  moreover have "keeps_quiet (na_threads s ! i)" if "i < length (na_threads s)"
    using assms that by (simp add: stuck_def list_all_length)
  ultimately show ?thesis
    using NotifyTurn assms quiet_turn [of "na_threads s ! i" s accepted]
    by (cases "notifier_step accepted (na_threads s ! i) s") (auto simp: stuck_def)
next
  case (FlushTurn accepted)
  then show ?thesis using assms by (simp add: stuck_def)
qed

lemma stuck_run: "stuck s \<Longrightarrow> fst (notify_run es s) = [] \<and> stuck (snd (notify_run es s))"
  by (induction es arbitrary: s) (simp_all add: case_prod_beta stuck_step)

section \<open>Properties\<close>

text \<open>C15. The backlog always has a way out, as long as calls do not overlap: after any notifications and
  callbacks whatever the manager answered, a backlog means that the manager owes a callback, and that callback,
  when it accepts, sends exactly the backlog in order and leaves none.\<close>

theorem backlog_has_a_way_out:
  assumes "(out, s) = queue_run es \<lparr>cq_tx = \<lparr>tx_char = ready, pending = []\<rparr>, cq_owed = False\<rparr>" and "pending (cq_tx s) \<noteq> []"
    and "\<forall>i. accepts i"
  shows "cq_owed s \<and> queue_step (Ready accepts) s =
    (pending (cq_tx s), \<lparr>cq_tx = (cq_tx s)\<lparr>pending := []\<rparr>, cq_owed = False\<rparr>)"
proof -
  have "cq_owed s"
    using queue_run_owed [of "\<lparr>cq_tx = \<lparr>tx_char = ready, pending = []\<rparr>, cq_owed = False\<rparr>" es] assms(1,2)
    by (simp add: prod_eq_iff)
  then show ?thesis using assms(3) by (simp add: cb_flush_pending_def flush_queue_all)
qed

theorem backlog_has_a_way_out_witness:
  "queue_step (Ready (\<lambda>_. True)) (snd (queue_run [Notify [1] True, Notify [2] False, Notify [3] True, Ready (\<lambda>_. False)]
     \<lparr>cq_tx = \<lparr>tx_char = True, pending = []\<rparr>, cq_owed = False\<rparr>)) = ([[2], [3]], \<lparr>cq_tx = \<lparr>tx_char = True, pending = []\<rparr>, cq_owed = False\<rparr>)"
proof -
  let ?r = "queue_run [Notify [1] True, Notify [2] False, Notify [3] True, Ready (\<lambda>_. False)] \<lparr>cq_tx = \<lparr>tx_char = True, pending = []\<rparr>, cq_owed = False\<rparr>"
  have r: "?r = ([[1]], \<lparr>cq_tx = \<lparr>tx_char = True, pending = [[2], [3]]\<rparr>, cq_owed = True\<rparr>)"
    by (simp add: cb_notify_chunk_def asks_manager_def cb_flush_pending_def)
  show ?thesis
    using backlog_has_a_way_out [of "[[1]]" "snd ?r" "[Notify [1] True, Notify [2] False, Notify [3] True, Ready (\<lambda>_. False)]" True "\<lambda>_. True"]
    by (simp add: r del: queue_run.simps queue_step.simps)
qed

text \<open>C16. With overlapping calls the wake-up can be lost for good: when the callback that a refusal earned runs
  between the refusal and the \<open>append\<close>, the chunk stays in the queue, no callback is owed, and from then on,
  whatever any thread notifies and however the manager would answer, nothing is ever handed out again.\<close>

theorem lost_wakeup_silences_notifications:
  "\<exists>es. let (out, s) = notify_run es (notify_arena_init ((d # ds) # dss))
    in out = [] \<and> na_pending s = [d] \<and> (\<forall>fs. fst (notify_run fs s) = [] \<and> na_pending (snd (notify_run fs s)) \<noteq> [])"
proof -
  let ?es = "[NotifyTurn 0 False, NotifyTurn 0 False, FlushTurn True, FlushTurn True, NotifyTurn 0 False]"
  have r: "notify_run ?es (notify_arena_init ((d # ds) # dss)) =
      ([], \<lparr>na_pending = [d], na_owed = False, na_threads = map Idle (ds # dss), na_flusher = Resting\<rparr>)"
    by (simp add: notify_arena_init_def)
  have "stuck \<lparr>na_pending = [d], na_owed = False, na_threads = map Idle (ds # dss), na_flusher = Resting\<rparr>"
    by (simp add: stuck_def list_all_iff)
  from stuck_run [OF this] show ?thesis
    by (intro exI [of _ ?es]) (simp add: r stuck_def del: notify_run.simps)
qed

end
