(* ===== verification/Spec2Isabelle.thy ===== *)
theory Spec2Isabelle
  imports Program Network ProxyPool GattServers Flooding EndToEnd Demo
    SendThreads AuthzThreads PingThreads NotifyThreads
begin

text \<open>
  \<^bold>\<open>A verification development for meshlink-node\<close>, the Python program under \<open>src/node\<close>: a Bluetooth and
  WiFi relay node of a venue-wide mesh. Phones write framed packets; the node runs each through
  meshlink-core's pipeline, fans it out to its other phones, forwards it over the batman-adv backhaul to
  the node of another zone, and answers a few kinds of message itself (location beacons, queries and
  revocations, attestation tokens, telemetry pongs, proxied HTTP requests).

  \<^bold>\<open>Parts and how they interact.\<close> A phone's bytes arrive at \<open>ble/base.py\<close> (from \<open>ble/bluez.py\<close> or
  \<open>ble/corebluetooth.py\<close>) or at \<open>transport/wifi_transport.py\<close>, are reassembled by \<open>ble/framing.py\<close> and
  reach \<open>relay.py\<close> through \<open>transport/ble_transport.py\<close> and \<open>multi_transport.py\<close>. The relay splits off
  telemetry frames to \<open>monitoring/phone_ping.py\<close> and proxy frames to \<open>backend_proxy.py\<close>, token
  presentations to the second pipeline, and hands accepted messages to \<open>location/service.py\<close> (with
  \<open>authz.py\<close>, \<open>store.py\<close> and \<open>directory/cache.py\<close>); what is not consumed goes to
  \<open>backhaul/batman_backhaul.py\<close> and to the phones. The backhaul routes by
  \<open>backhaul/dynamic_zone_table.py\<close>, which \<open>zone_sync.py\<close> fills from the announcements of other nodes.
  \<open>monitoring/heartbeat_sender.py\<close> reports all of it. \<open>main.py\<close> boots, wires, starts and stops the
  parts.

  \<^bold>\<open>Theories.\<close>
  \<^item> \<open>Prelude\<close>, \<open>Codecs\<close>, \<open>Json\<close>, \<open>JsonLaws\<close>, \<open>PyNum\<close>: the Python values the code uses (strings as code
    points, dictionaries as association lists in insertion order, exceptions as a datatype and results
    as sums), UTF-8, hexadecimal, \<open>json.dumps\<close> and \<open>json.loads\<close> with their round trip, conversions of
    numbers.
  \<^item> \<open>Framing\<close>, \<open>Gatt\<close>, \<open>GattBackends\<close>, \<open>Transports\<close>: \<open>ble/framing.py\<close>, \<open>ble/base.py\<close> with the event side
    of both backends, what the backends publish and when, the three transports. \<open>GattServers\<close>: the BlueZ
    and the CoreBluetooth server as one machine each.
  \<^item> \<open>ZoneTable\<close>, \<open>ZoneSync\<close>, \<open>Backhaul\<close>: the routing table, the announcement codec, both backhauls and
    the gossip. \<open>Network\<close>: several such nodes on one broadcast medium and what gossip makes of their
    tables. \<open>Flooding\<close>: whole nodes on that medium, datagrams in flight that arrive in any order or are
    lost.
  \<^item> \<open>MeshCore\<close>: the interface of meshlink-core, whose sources are a git submodule and not here: its
    functions are fields of the records \<open>core\<close> and \<open>pipeline\<close>, so that every theorem holds for any.
  \<^item> \<open>Directory\<close>, \<open>LocationStore\<close>, \<open>LocationAuthz\<close>, \<open>LocationService\<close>: the offline directory and the
    consent-gated location service.
  \<^item> \<open>PhonePing\<close>, \<open>BackendProxy\<close>, \<open>HostStats\<close>, \<open>Heartbeat\<close>: telemetry, the proxy with its allow-list, the
    battery, host and radio readings, the heartbeat with its schema. \<open>ProxyPool\<close>: the proxy's four
    workers with overlapping calls, and that they do what the queue of \<open>BackendProxy\<close> does.
  \<^item> \<open>Relay\<close>: \<open>NodeRelay\<close>, the handler that joins them.
  \<^item> \<open>WifiAp\<close>, \<open>InternetSharing\<close>, \<open>Config\<close>, \<open>Boot\<close>: the access point of the Raspberry Pi and of macOS,
    the settings, the organiser key and the choice of backends.
  \<^item> \<open>Node\<close>: the running node as one machine (\<open>node_step\<close>, \<open>node_run\<close>, \<open>reachable\<close>), every input and
    every loop turn being an event. \<open>Startup\<close>: \<open>main\<close>, from the boot to the shutdown. \<open>Program\<close>: the
    whole process, from the log file, the environment and the imports (with the shim
    \<open>node/core/__init__.py\<close>) over the boot and everything the node does to the exit. \<open>Logging\<close>: what
    \<open>node.log\<close> holds. \<open>EndToEnd\<close>: a message from the chunks one phone writes to what the assemblers of
    the others make of it.
  \<^item> \<open>Demo\<close>: \<open>scripts/demo_phase5_attestation.py\<close>, two relays joined by the backhaul on the loopback
    address.
  \<^item> \<open>SendThreads\<close>, \<open>AuthzThreads\<close>, \<open>PingThreads\<close>, \<open>NotifyThreads\<close>: four places where threads meet, cut
    into the single reads and writes of what they share: packets sent at the same time, location queries
    beside revocations, the connect timers beside \<open>stop\<close>, CoreBluetooth's backlog beside its callback.

  A definition has the name of the Python function it models, with a prefix where several classes share
  one (\<open>bh_start\<close>, \<open>wifi_start\<close>, \<open>hb_start\<close>), and a class is a record of its attributes. Time, faults of
  the disk, the radio and the network, and the answers of the backend are arguments.

  \<^bold>\<open>Interfaces.\<close> Where a part relies on another, the laws it relies on are a locale, interpreted on the
  model of the provider: the stream decoder of the transports on \<open>feed\<close>, the routing table of the
  backhaul on \<open>ztable\<close>, the backhaul and the transport of the relay on theirs, the provisioner of the
  boot on \<open>hostapd\<close> and on Internet Sharing, the GATT backend on the BlueZ and on the CoreBluetooth
  server, a sender whose packets survive being cut on \<open>send_packet\<close> and on the WiFi socket.

  \<^bold>\<open>What the properties show.\<close> Delivery: framed streams arrive whole and in order on both radios, an
  accepted message reaches every other phone of the cell exactly once and crosses zones unchanged, the
  routes for that arise from gossip alone, a broadcast reaches every node of a mesh once and then dies
  out (given that meshlink-core's pipelines deliver no packet twice, the hypothesis \<open>remembers\<close>), the
  two Bluetooth backends cannot be told apart, and a queued request is always served, whichever worker
  takes it. Privacy and safety: a beacon never leaves, a position is served only with a valid token of
  its owner and never to a call that begins after the revocation, the uplink carries three kinds of request and nothing a
  phone makes up, datagrams carry accepted packets only. Threads: consent, revocation before the call
  and the rate limit hold under every schedule of overlapping queries, a timer pings at most once after
  \<open>stop\<close>, sends of one chunk can overlap, longer ones and CoreBluetooth's callback cannot. State:
  attestation never goes off, counters balance, one row per identity, a bounded buffer per peer. Boot
  and shutdown: the process talks to its backend only, no key no node, every end of the loop is a
  shutdown and silent afterwards. Codecs: announcements, pongs, replies, heartbeats, settings and
  deployment files read back as written. And where the code does not do what it says, the theorem says
  what it does instead: \<open>node.log\<close> keeps the movement trail that the store does not, a phone can write
  lines of its own into it, a boot that fails late leaves the access point up, and a revocation that
  lands inside a call does not stop it.

  \<^bold>\<open>Bounds and termination.\<close> No fuel is used: every recursion has a termination proof, the only
  open-ended loops of the program are its threads, whose turns are events of \<open>Node\<close>, and
  \<open>feed_terminates\<close> shows that the loop on untrusted input ends. Lengths are those of the source (460
  bytes a frame, 180 a notification, 65535 a packet, 4300 digits an integer text); bytes are \<open>8 word\<close>,
  Python integers \<open>int\<close>.

  \<^bold>\<open>Not modelled.\<close> The sources of meshlink-core (not in the repository). The calls into BlueZ over
  D-Bus, CoreBluetooth, sockets, \<open>iw\<close>, \<open>pmset\<close>, launchd and \<open>urllib\<close>: their answers are inputs. Of the
  logs, the records of the relay and of the proxy's requests are modelled, because they are computed
  from what phones send; those of the other parts are not. Real concurrency: a step of the node is
  atomic, and in \<open>Node\<close> the pool of the proxy serves one job at a time, in order, which \<open>ProxyPool\<close>
  justifies; the four thread theories look inside the steps of those parts only, and steps inside which
  other parts' threads meet stay atomic. The waiting time of loops and timeouts of calls. Clocks and
  intervals that are infinite or not a number (a boot with such a setting is outside the model);
  rounding of floating point numbers, which are reals with \<open>Infinity\<close> and \<open>NaN\<close> where the code parses
  them, and their printed form, which is a parameter. Of the demonstration script what follows the
  construction of the heartbeat, which always raises. The shell scripts, the tests and the paths of
  files beyond their text.
\<close>

end
